(* ===== verification/Prelude.thy ===== *)
theory Prelude
  imports Main "HOL-Library.Sublist"
begin

text \<open>
  Shared vocabulary of the development: the types that name the model's values
  (JavaScript strings, URLs, the process environment) and the JavaScript primitives
  the hook's source relies on: the \<open>||\<close> default of an environment variable and
  \<open>String.prototype.indexOf\<close>. JavaScript strings are modelled as \<open>string\<close>, a list of
  8-bit characters, so a code unit above 255 is outside the model. The collection
  \<open>js_simps\<close> gathers the evaluation rules of these primitives for the component
  proofs.
\<close>

named_theorems js_simps "evaluation rules of the modelled JavaScript primitives"

named_theorems hook_defs "definitions of the hook's operations, unfolded together by the step proofs"

type_synonym js_string = string

type_synonym url = string

text \<open>\<open>process.env\<close>: a partial map from variable names to their values.\<close>

type_synonym env = "string \<rightharpoonup> string"

subsection \<open>The \<open>||\<close> operator on an optional string\<close>

text \<open>
  \<open>process.env.X || d\<close>: an unset variable (\<open>undefined\<close>) and the empty string are both
  falsy, so both give the default.
\<close>

definition js_or :: "js_string option \<Rightarrow> js_string \<Rightarrow> js_string" where
  "js_or v d = (case v of None \<Rightarrow> d | Some s \<Rightarrow> (if s = [] then d else s))"

text \<open>A string used as a condition: \<open>undefined\<close> and \<open>''\<close> are falsy.\<close>

definition js_truthy :: "js_string option \<Rightarrow> bool" where
  "js_truthy v \<longleftrightarrow> (case v of None \<Rightarrow> False | Some s \<Rightarrow> s \<noteq> [])"

text \<open>
  A page's \<open>status\<close> state holds \<open>null\<close> (its initial value and what the actions
  reset it to), \<open>undefined\<close> (a reply without a status) or a message; the pages test
  \<open>status !== null\<close> and the truthiness of \<open>status\<close>, which tell the three apart.
\<close>

datatype js_value = JNull | JUndefined | JStr js_string

definition js_value_truthy :: "js_value \<Rightarrow> bool" where
  "js_value_truthy v \<longleftrightarrow> (case v of JStr t \<Rightarrow> t \<noteq> [] | _ \<Rightarrow> False)"

subsection \<open>\<open>Array.prototype.join\<close>\<close>

fun js_join :: "js_string \<Rightarrow> js_string list \<Rightarrow> js_string" where
  "js_join sep [] = []"
| "js_join sep [x] = x"
| "js_join sep (x # y # xs) = x @ sep @ js_join sep (y # xs)"

subsection \<open>\<open>String.prototype.indexOf\<close>\<close>

text \<open>
  \<open>h.indexOf(n)\<close> is the least index \<open>i\<close> at which \<open>n\<close> occurs in \<open>h\<close>, or \<open>-1\<close>.
  The search scans \<open>h\<close> from the left, counting the position in \<open>i\<close>; the empty
  needle occurs at the start.
\<close>

fun index_from :: "js_string \<Rightarrow> js_string \<Rightarrow> nat \<Rightarrow> int" where
  "index_from [] n i = (if n = [] then int i else -1)"
| "index_from (c # h) n i = (if prefix n (c # h) then int i else index_from h n (Suc i))"

definition index_of :: "js_string \<Rightarrow> js_string \<Rightarrow> int" where
  "index_of h n = index_from h n 0"

lemma js_or_None [simp, js_simps]: "js_or None d = d"
  by (simp add: js_or_def)

lemma js_or_Some [simp, js_simps]: "js_or (Some s) d = (if s = [] then d else s)"
  by (simp add: js_or_def)

lemma js_or_nonempty: "d \<noteq> [] \<Longrightarrow> js_or v d \<noteq> []"
  by (cases v) simp_all

lemma js_truthy_simps [simp, js_simps]:
  "\<not> js_truthy None" "js_truthy (Some s) \<longleftrightarrow> s \<noteq> []"
  by (simp_all add: js_truthy_def)

lemma set_js_join: "set (js_join sep xs) \<subseteq> set sep \<union> (\<Union>x \<in> set xs. set x)"
  by (induction sep xs rule: js_join.induct) auto

subsection \<open>Characters from their codes\<close>

text \<open>Both orientations of an equation with \<open>char_of\<close>, to evaluate encoders on literals.\<close>

lemma eq_char_of_iff [js_simps]: "c = char_of n \<longleftrightarrow> take_bit 8 n = of_char c"
  by (subst eq_commute) (rule char_of_eq_iff)

lemma index_from_neg_iff: "index_from h n i < 0 \<longleftrightarrow> \<not> sublist n h"
  by (induction h arbitrary: i) (auto simp: sublist_Cons_right)

lemma index_from_ge: "\<not> index_from h n i < 0 \<Longrightarrow> int i \<le> index_from h n i"
proof (induction h arbitrary: i)
  case Nil
  then show ?case by (simp split: if_splits)
next
  case (Cons c h)
  then show ?case by (fastforce split: if_splits)
qed

lemma index_from_eq_iff: "index_from h n i = int i \<longleftrightarrow> prefix n h"
proof (cases h)
  case Nil
  then show ?thesis by simp
next
  case (Cons c t)
  have "\<not> index_from t n (Suc i) = int i"
  proof
    assume eq: "index_from t n (Suc i) = int i"
    then have "\<not> index_from t n (Suc i) < 0" by simp
    then have "int (Suc i) \<le> index_from t n (Suc i)" by (rule index_from_ge)
    with eq show False by simp
  qed
  with Cons show ?thesis by auto
qed

lemma index_of_neg_iff [js_simps]: "index_of h n < 0 \<longleftrightarrow> \<not> sublist n h"
  by (simp add: index_of_def index_from_neg_iff)

lemma index_of_zero_iff [js_simps]: "index_of h n = 0 \<longleftrightarrow> prefix n h"
  using index_from_eq_iff [of h n 0] by (simp add: index_of_def)

lemma index_of_pos_iff [js_simps]: "0 < index_of h n \<longleftrightarrow> sublist n h \<and> \<not> prefix n h"
proof -
  have "0 < index_of h n \<longleftrightarrow> \<not> index_of h n < 0 \<and> index_of h n \<noteq> 0" by arith
  then show ?thesis by (simp only: index_of_neg_iff index_of_zero_iff not_not)
qed

lemma index_of_nonneg_iff [js_simps]: "0 \<le> index_of h n \<longleftrightarrow> sublist n h"
  using index_of_neg_iff [of h n] by arith

subsection \<open>Counting lemmas shared by the decoders\<close>

lemma prefix_filter_length:
  assumes "prefix d (filter P z)" and "\<forall>c \<in> set d. Q c"
  shows "length d \<le> length (filter (\<lambda>c. P c \<and> Q c) z)"
proof -
  from assms(1) obtain zs where "filter P z = d @ zs" by (auto simp: prefix_def)
  then have "filter Q (filter P z) = filter Q d @ filter Q zs" by simp
  then have "prefix (filter Q d) (filter Q (filter P z))" by (simp add: prefix_def)
  then have "length (filter Q d) \<le> length (filter Q (filter P z))" by (rule prefix_length_le)
  moreover have "filter Q d = d" using assms(2) by (simp add: filter_id_conv)
  ultimately show ?thesis by (simp add: conj_commute)
qed

lemma div_3_4_step: "(n :: nat) mod 4 \<noteq> 1 \<Longrightarrow> 0 < n \<Longrightarrow> 3 * (n - 1) div 4 < 3 * n div 4"
proof -
  assume r: "n mod 4 \<noteq> 1" and p: "0 < n"
  define q where "q = n div 4"
  have n: "n = 4 * q + n mod 4" by (simp add: q_def)
  have "n mod 4 < 4" by simp
  then consider "n mod 4 = 0" | "n mod 4 = 2" | "n mod 4 = 3" using r by linarith
  then show ?thesis
  proof cases
    case 1
    with n p have "n = 4 * q" "0 < q" by simp_all
    then show ?thesis by simp
  next
    case 2
    with n have e: "n = 4 * q + 2" by simp
    have "3 * (4 * q + 2 - 1) div 4 = 3 * q" "3 * (4 * q + 2) div 4 = 3 * q + 1" by presburger+
    then show ?thesis unfolding e by simp
  next
    case 3
    with n have e: "n = 4 * q + 3" by simp
    have "3 * (4 * q + 3 - 1) div 4 = 3 * q + 1" "3 * (4 * q + 3) div 4 = 3 * q + 2" by presburger+
    then show ?thesis unfolding e by simp
  qed
qed

lemma div_3_4_strict:
  assumes "(n :: nat) mod 4 \<noteq> 1" and "m < n"
  shows "3 * m div 4 < 3 * n div 4"
proof -
  have "3 * m div 4 \<le> 3 * (n - 1) div 4" using assms(2) by (intro div_le_mono) simp
  also have "\<dots> < 3 * n div 4" using assms by (intro div_3_4_step) simp_all
  finally show ?thesis .
qed

lemma length_filter_conj_less:
  "x \<in> set z \<Longrightarrow> P x \<Longrightarrow> \<not> Q x \<Longrightarrow> length (filter (\<lambda>c. P c \<and> Q c) z) < length (filter P z)"
proof (induction z)
  case (Cons y z)
  have "length (filter (\<lambda>c. P c \<and> Q c) z) \<le> length (filter P z)"
    by (induction z) simp_all
  with Cons show ?case by auto
qed simp

end
