(* ===== verification/Config.thy ===== *)
theory Config
  imports Prelude
begin

text \<open>
  The hook's configuration (\<open>src/hooks/auth.ts\<close>, lines 21--36): the client-visible
  routes and the backend endpoint paths, each read from a \<open>NEXT_PUBLIC_*\<close> environment
  variable with a default, and the landing URL chosen from the page's
  \<open>redirectIfAuthenticated\<close> argument; and the CSRF-priming URL of the HTTP client
  (\<open>src/lib/api.ts\<close>).
\<close>

record auth_config =
  loginUrl :: url
  verifyEmailUrl :: url
  redirectedUrl :: url
  apiPathUser :: url
  apiPathLogin :: url
  apiPathRegister :: url
  apiPathForgotPassword :: url
  apiPathResetPassword :: url
  apiPathVerifyEmail :: url
  apiPathLogout :: url

text \<open>
  The constants at the top of \<open>useAuth\<close>, with the variable names the source reads.
  Note which variable each line reads: \<open>verifyEmailUrl\<close> reads
  \<open>NEXT_PUBLIC_AUTH_LOGIN\<close> and \<open>apiPathLogout\<close> reads \<open>NEXT_PUBLIC_API_PATH_LOGIN\<close>.
\<close>

definition useAuth_config :: "env \<Rightarrow> auth_config" where
  "useAuth_config env =
     \<lparr>loginUrl = js_or (env ''NEXT_PUBLIC_AUTH_PAGE_LOGIN'') ''/example/login'',
      verifyEmailUrl = js_or (env ''NEXT_PUBLIC_AUTH_LOGIN'') ''/example/verify-email'',
      redirectedUrl = js_or (env ''NEXT_PUBLIC_AUTH_REDIRECTED'') ''/example'',
      apiPathUser = js_or (env ''NEXT_PUBLIC_API_PATH_USER'') ''/api/user'',
      apiPathLogin = js_or (env ''NEXT_PUBLIC_API_PATH_LOGIN'') ''/login'',
      apiPathRegister = js_or (env ''NEXT_PUBLIC_API_PATH_REGISTER'') ''/register'',
      apiPathForgotPassword = js_or (env ''NEXT_PUBLIC_API_PATH_FORGOT_PASSWORD'') ''/forgot-password'',
      apiPathResetPassword = js_or (env ''NEXT_PUBLIC_API_PATH_RESET_PASSWORD'') ''/reset-password'',
      apiPathVerifyEmail = js_or (env ''NEXT_PUBLIC_API_PATH_VERIFY_EMAIL'') ''/email/verification-notification'',
      apiPathLogout = js_or (env ''NEXT_PUBLIC_API_PATH_LOGIN'') ''/logout''\<rparr>"

text \<open>\<open>const redirectIfAuthenticatedUrl = redirectIfAuthenticated || redirectedUrl\<close>.\<close>

definition redirect_if_authenticated_url :: "auth_config \<Rightarrow> url option \<Rightarrow> url" where
  "redirect_if_authenticated_url c r = js_or r (redirectedUrl c)"

text \<open>
  \<open>csrf = () => instance.get(baseURL + '/sanctum/csrf-cookie')\<close>: JavaScript string
  concatenation turns an unset \<open>NEXT_PUBLIC_BACKEND_URL\<close> into the text
  \<open>undefined\<close>.
\<close>

definition csrf_url :: "env \<Rightarrow> url" where
  "csrf_url env =
     (case env ''NEXT_PUBLIC_BACKEND_URL'' of None \<Rightarrow> ''undefined'' | Some b \<Rightarrow> b) @ ''/sanctum/csrf-cookie''"

lemmas config_defs = useAuth_config_def redirect_if_authenticated_url_def

lemma useAuth_config_nonempty:
  "loginUrl (useAuth_config env) \<noteq> []" "verifyEmailUrl (useAuth_config env) \<noteq> []"
  "redirectedUrl (useAuth_config env) \<noteq> []"
  by (simp_all add: useAuth_config_def js_or_nonempty)

text \<open>
  C17: the logout endpoint is read from the variable of the login endpoint. With no
  variable set, the two paths differ (\<open>/logout\<close> and \<open>/login\<close>); once a deployment sets
  \<open>NEXT_PUBLIC_API_PATH_LOGIN\<close>, \<open>logout\<close> posts to the login endpoint.
\<close>

theorem logout_path_follows_login_variable:
  assumes "env ''NEXT_PUBLIC_API_PATH_LOGIN'' = Some p" and "p \<noteq> []"
  shows "apiPathLogout (useAuth_config env) = p \<and> apiPathLogin (useAuth_config env) = p"
  using assms by (simp add: useAuth_config_def)

theorem logout_path_follows_login_variable_witness:
  "apiPathLogout (useAuth_config [''NEXT_PUBLIC_API_PATH_LOGIN'' \<mapsto> ''/api/login'']) = ''/api/login''
   \<and> apiPathLogin (useAuth_config [''NEXT_PUBLIC_API_PATH_LOGIN'' \<mapsto> ''/api/login'']) = ''/api/login''"
  by (rule logout_path_follows_login_variable) simp_all

end
