(* ===== verification/Url.thy ===== *)
theory Url
  imports Prelude
begin

text \<open>
  The URL primitives the hook calls when it builds the logout target
  (\<open>src/hooks/auth.ts\<close>, lines 133--134): \<open>encodeURIComponent\<close> (ECMAScript) and
  \<open>stringify\<close> of the \<open>querystring\<close> module, which a Next.js page in the browser
  gets from the \<open>querystring-es3\<close> polyfill. Both are library code, modelled from their
  specifications. A character is one 8-bit code unit; \<open>encodeURIComponent\<close> writes
  the UTF-8 form of a code unit of 128 or more, two bytes.
\<close>

subsection \<open>\<open>encodeURIComponent\<close>\<close>

definition uri_unreserved :: "char \<Rightarrow> bool" where
  "uri_unreserved c \<longleftrightarrow>
     (let n = (of_char c :: nat) in (48 \<le> n \<and> n \<le> 57) \<or> (65 \<le> n \<and> n \<le> 90) \<or> (97 \<le> n \<and> n \<le> 122))
     \<or> c \<in> set ''-_.!~*()'' \<or> c = CHR 0x27"

definition hex_digit :: "nat \<Rightarrow> char" where
  "hex_digit n = (if n < 10 then char_of (48 + n) else char_of (55 + n))"

definition pct_byte :: "nat \<Rightarrow> js_string" where
  "pct_byte b = [CHR ''%'', hex_digit (b div 16), hex_digit (b mod 16)]"

text \<open>The UTF-8 bytes of a code unit below 256.\<close>

definition utf8_unit :: "nat \<Rightarrow> nat list" where
  "utf8_unit n = (if n < 128 then [n] else [192 + n div 64, 128 + n mod 64])"

definition enc_char :: "char \<Rightarrow> js_string" where
  "enc_char c = (if uri_unreserved c then [c] else concat (map pct_byte (utf8_unit (of_char c))))"

definition encodeURIComponent :: "js_string \<Rightarrow> js_string" where
  "encodeURIComponent s = concat (map enc_char s)"

text \<open>The characters an encoded component may hold.\<close>

definition uri_safe :: "char \<Rightarrow> bool" where
  "uri_safe c \<longleftrightarrow> uri_unreserved c \<or> c = CHR ''%''"

subsection \<open>\<open>querystring.stringify\<close>\<close>

text \<open>
  A Next.js \<open>ParsedUrlQuery\<close> maps each key to a string or an array of strings. It is
  an association list in the object's key order.
\<close>

datatype qval = QStr js_string | QArr "js_string list"

type_synonym query = "(js_string \<times> qval) list"

text \<open>
  \<open>querystring-es3\<close>: every key becomes \<open>k=v\<close>, an array one \<open>k=v\<close> per element joined
  by \<open>&\<close>; the fields are joined by \<open>&\<close>; \<open>stringify(undefined)\<close> is the empty string.
\<close>

fun qs_field :: "js_string \<Rightarrow> qval \<Rightarrow> js_string" where
  "qs_field k (QStr v) = encodeURIComponent k @ ''='' @ encodeURIComponent v"
| "qs_field k (QArr vs) = js_join ''&'' (map (\<lambda>v. encodeURIComponent k @ ''='' @ encodeURIComponent v) vs)"

definition qs_stringify :: "query option \<Rightarrow> js_string" where
  "qs_stringify q = (case q of None \<Rightarrow> [] | Some kvs \<Rightarrow> js_join ''&'' (map (\<lambda>(k, v). qs_field k v) kvs))"

lemma hex_digit_unreserved: "n < 16 \<Longrightarrow> uri_unreserved (hex_digit n)"
  by (auto simp: hex_digit_def uri_unreserved_def Let_def)

lemma set_pct_byte: "b < 256 \<Longrightarrow> set (pct_byte b) \<subseteq> Collect uri_safe"
proof -
  assume "b < 256"
  then have "b div 16 < 16" by simp
  moreover have "b mod 16 < 16" by simp
  ultimately show ?thesis
    by (auto simp: pct_byte_def uri_safe_def hex_digit_unreserved)
qed

lemma utf8_unit_bytes: "n < 256 \<Longrightarrow> b \<in> set (utf8_unit n) \<Longrightarrow> b < 256"
  by (auto simp: utf8_unit_def split: if_splits)

lemma set_enc_char: "set (enc_char c) \<subseteq> Collect uri_safe"
proof (cases "uri_unreserved c")
  case True
  then show ?thesis by (simp add: enc_char_def uri_safe_def)
next
  case False
  have "\<forall>b \<in> set (utf8_unit (of_char c)). set (pct_byte b) \<subseteq> Collect uri_safe"
    using utf8_unit_bytes [OF nat_of_char_less_256] set_pct_byte by blast
  with False show ?thesis by (auto simp: enc_char_def)
qed

lemma set_encodeURIComponent: "set (encodeURIComponent s) \<subseteq> Collect uri_safe"
  using set_enc_char by (fastforce simp: encodeURIComponent_def)

end
