(* ===== verification/Redirect.thy ===== *)
theory Redirect
  imports Config Url
begin

text \<open>
  The two URLs the hook computes for its navigations (\<open>src/hooks/auth.ts\<close>): the
  landing URL a guest page pushes when a session exists (lines 142--144), marked with
  \<open>logged=1\<close>; and the login URL \<open>logout\<close> assigns (lines 130--137), carrying the
  page to return to in \<open>next_to\<close>.
\<close>

subsection \<open>The landing URL of a guest page\<close>

abbreviation logged_marker :: js_string where
  "logged_marker \<equiv> ''logged=1''"

definition logged_redirect_url :: "url \<Rightarrow> url" where
  "logged_redirect_url u =
     u @ (if 0 < index_of u logged_marker then []
          else (if 0 < index_of u ''?'' then ''&'' else ''?'') @ logged_marker)"

subsection \<open>The logout target\<close>

text \<open>
  \<open>wrapNextUrl\<close> is the login URL unless \<open>nextUrl\<close> is truthy; then it is the
  encoded path with its query string. The \<open>next_to\<close> parameter is added only when
  \<open>nextUrl\<close> is truthy and contains neither the login nor the verify-email URL.
\<close>

definition wrap_next_url :: "auth_config \<Rightarrow> url option \<Rightarrow> query option \<Rightarrow> url" where
  "wrap_next_url c nextUrl nextQuery =
     (case nextUrl of
        Some n \<Rightarrow>
          if n \<noteq> [] then
            (let qs = qs_stringify nextQuery
             in encodeURIComponent (n @ (if qs \<noteq> [] then ''?'' @ qs else [])))
          else loginUrl c
      | None \<Rightarrow> loginUrl c)"

definition keeps_next :: "auth_config \<Rightarrow> url option \<Rightarrow> bool" where
  "keeps_next c nextUrl \<longleftrightarrow>
     (case nextUrl of
        Some n \<Rightarrow> n \<noteq> [] \<and> index_of n (loginUrl c) < 0 \<and> index_of n (verifyEmailUrl c) < 0
      | None \<Rightarrow> False)"

definition logout_url :: "auth_config \<Rightarrow> url option \<Rightarrow> query option \<Rightarrow> url" where
  "logout_url c nextUrl nextQuery =
     loginUrl c @ (if keeps_next c nextUrl then ''?next_to='' @ wrap_next_url c nextUrl nextQuery else [])"

lemmas url_eval_simps = logout_url_def keeps_next_def wrap_next_url_def qs_stringify_def
  encodeURIComponent_def enc_char_def uri_unreserved_def pct_byte_def hex_digit_def utf8_unit_def
  char_of_eq_iff eq_char_of_iff index_of_def

subsection \<open>Lemmas on the landing URL\<close>

lemma prefix_append_char_notin:
  assumes "prefix m (u @ c # r)" and "\<not> prefix m u"
  shows "c \<in> set m"
proof -
  from assms obtain us where m: "m = u @ us" and us: "prefix us (c # r)"
    by (auto simp: prefix_append)
  with assms(2) have "us \<noteq> []" by auto
  with us obtain us' where "us = c # us'" by (cases us) auto
  with m show ?thesis by simp
qed

lemma logged_redirect_url_cases:
  "logged_redirect_url u = u \<and> 0 < index_of u logged_marker
   \<or> (\<exists>c \<in> {CHR ''?'', CHR ''&''}. logged_redirect_url u = u @ c # logged_marker)"
proof (cases "0 < index_of u logged_marker")
  case True
  then show ?thesis unfolding logged_redirect_url_def by simp
next
  case False
  show ?thesis
  proof (cases "0 < index_of u ''?''")
    case True
    with False have "logged_redirect_url u = u @ CHR ''&'' # logged_marker"
      unfolding logged_redirect_url_def by simp
    then show ?thesis by blast
  next
    case False2: False
    with False have "logged_redirect_url u = u @ CHR ''?'' # logged_marker"
      unfolding logged_redirect_url_def by simp
    then show ?thesis by blast
  qed
qed

lemma logged_redirect_url_marked:
  assumes "\<not> prefix logged_marker u"
  shows "0 < index_of (logged_redirect_url u) logged_marker"
proof (cases "0 < index_of u logged_marker")
  case True
  then show ?thesis by (simp add: logged_redirect_url_def)
next
  case False
  then obtain c where c: "c \<in> {CHR ''?'', CHR ''&''}"
    and eq: "logged_redirect_url u = u @ c # logged_marker"
    using logged_redirect_url_cases by blast
  have "sublist logged_marker ((u @ [c]) @ logged_marker @ [])"
    by (rule sublist_appendI)
  then have "sublist logged_marker (u @ c # logged_marker)" by simp
  moreover have "\<not> prefix logged_marker (u @ c # logged_marker)"
  proof
    assume "prefix logged_marker (u @ c # logged_marker)"
    then have "c \<in> set logged_marker"
      using assms by (rule prefix_append_char_notin)
    with c show False by auto
  qed
  ultimately show ?thesis by (simp only: eq index_of_pos_iff) simp
qed

lemma logged_redirect_url_fixed:
  "0 < index_of u logged_marker \<Longrightarrow> logged_redirect_url u = u"
  by (simp add: logged_redirect_url_def)

text \<open>
  C3: the guest redirect appends the \<open>logged=1\<close> marker once: pushing the landing
  URL of a landing URL changes nothing, as long as the configured URL does not itself
  start with the marker.
\<close>

theorem logged_redirect_url_idempotent:
  assumes "\<not> prefix logged_marker u"
  shows "logged_redirect_url (logged_redirect_url u) = logged_redirect_url u"
  using logged_redirect_url_marked [OF assms] by (rule logged_redirect_url_fixed)

theorem logged_redirect_url_idempotent_witness:
  "logged_redirect_url (logged_redirect_url ''/example'') = logged_redirect_url ''/example''
   \<and> logged_redirect_url ''/example'' = ''/example?logged=1''"
proof
  have "\<not> prefix logged_marker ''/example''" by simp
  then show "logged_redirect_url (logged_redirect_url ''/example'') = logged_redirect_url ''/example''"
    by (rule logged_redirect_url_idempotent)
  show "logged_redirect_url ''/example'' = ''/example?logged=1''"
    by (simp add: logged_redirect_url_def index_of_def)
qed

lemma logged_redirect_url_at_start:
  assumes "prefix logged_marker u"
  shows "length (logged_redirect_url u) = length u + 9 \<and> prefix logged_marker (logged_redirect_url u)"
proof -
  have "index_of u logged_marker = 0" using assms by (simp add: index_of_zero_iff)
  then show ?thesis
    using assms by (auto simp: logged_redirect_url_def intro: prefix_prefix)
qed

lemma logged_redirect_url_iter_at_start:
  "prefix logged_marker u \<Longrightarrow> prefix logged_marker ((logged_redirect_url ^^ k) u)"
  by (induction k) (simp_all add: logged_redirect_url_at_start)

text \<open>
  C18: the marker test is \<open>indexOf('logged=1') > 0\<close>, so a marker at position 0 is not
  seen: a landing URL that starts with the marker gets the marker (with its \<open>?\<close> or
  \<open>&\<close>, nine characters) appended again on every push, and after \<open>k\<close> pushes it has
  grown by \<open>9 * k\<close> characters.
\<close>

theorem logged_redirect_url_marker_at_start:
  assumes "prefix logged_marker u"
  shows "length ((logged_redirect_url ^^ k) u) = length u + 9 * k"
proof (induction k)
  case 0
  then show ?case by simp
next
  case (Suc k)
  with logged_redirect_url_iter_at_start [OF assms, of k] show ?case
    by (simp add: logged_redirect_url_at_start)
qed

theorem logged_redirect_url_marker_at_start_witness:
  "length ((logged_redirect_url ^^ 3) ''logged=1'') = 35"
proof -
  have "prefix logged_marker ''logged=1''" by simp
  then show ?thesis using logged_redirect_url_marker_at_start [of "''logged=1''" 3] by simp
qed

subsection \<open>Lemmas on the logout target\<close>

lemma logout_url_prefix: "prefix (loginUrl c) (logout_url c nextUrl nextQuery)"
  by (simp add: logout_url_def)

lemma logout_url_plain: "\<not> keeps_next c nextUrl \<Longrightarrow> logout_url c nextUrl nextQuery = loginUrl c"
  by (simp add: logout_url_def)

lemma keeps_next_Some:
  "keeps_next c (Some n) \<longleftrightarrow>
     n \<noteq> [] \<and> \<not> sublist (loginUrl c) n \<and> \<not> sublist (verifyEmailUrl c) n"
  by (simp add: keeps_next_def index_of_neg_iff)

text \<open>
  With a return target, the login URL carries one parameter \<open>next_to\<close>, whose value
  is the encoded path and query: it holds no \<open>&\<close>, \<open>=\<close>, \<open>?\<close> or \<open>#\<close> that could
  end it early.
\<close>

lemma logout_url_next_to:
  assumes "keeps_next c (Some n)"
  shows "logout_url c (Some n) q =
           loginUrl c @ ''?next_to='' @
             encodeURIComponent (n @ (if qs_stringify q \<noteq> [] then ''?'' @ qs_stringify q else []))"
  using assms by (simp add: logout_url_def wrap_next_url_def keeps_next_def Let_def)

lemma uri_safe_delims:
  "\<not> uri_safe CHR ''&''" "\<not> uri_safe CHR ''=''" "\<not> uri_safe CHR ''?''" "\<not> uri_safe CHR ''#''"
  by (simp_all add: uri_safe_def uri_unreserved_def)

text \<open>
  C20: when \<open>logout\<close> keeps a return target, the login URL it builds carries exactly one
  parameter, \<open>next_to\<close>, whose value has no \<open>&\<close>, \<open>=\<close>, \<open>?\<close> or \<open>#\<close>: the
  target's own query cannot leak into the login page's query.
\<close>

theorem logout_url_single_param:
  assumes "keeps_next c (Some n)"
  shows "\<exists>v. logout_url c (Some n) q = loginUrl c @ ''?next_to='' @ v
             \<and> (\<forall>ch \<in> set v. ch \<notin> {CHR ''&'', CHR ''='', CHR ''?'', CHR ''#''})"
proof -
  let ?v = "encodeURIComponent (n @ (if qs_stringify q \<noteq> [] then ''?'' @ qs_stringify q else []))"
  have "\<forall>ch \<in> set ?v. uri_safe ch" using set_encodeURIComponent by blast
  then have "\<forall>ch \<in> set ?v. ch \<notin> {CHR ''&'', CHR ''='', CHR ''?'', CHR ''#''}"
    using uri_safe_delims by blast
  then show ?thesis using logout_url_next_to [OF assms] by blast
qed

theorem logout_url_single_param_witness:
  "keeps_next (useAuth_config Map.empty) (Some ''/example/dashboard'')
   \<and> (\<exists>v. logout_url (useAuth_config Map.empty) (Some ''/example/dashboard'') (Some [(''tab'', QStr ''a&b'')])
          = loginUrl (useAuth_config Map.empty) @ ''?next_to='' @ v
        \<and> (\<forall>ch \<in> set v. ch \<notin> {CHR ''&'', CHR ''='', CHR ''?'', CHR ''#''}))"
proof
  show h: "keeps_next (useAuth_config Map.empty) (Some ''/example/dashboard'')"
    by (simp add: keeps_next_Some useAuth_config_def sublist_code)
  show "\<exists>v. logout_url (useAuth_config Map.empty) (Some ''/example/dashboard'') (Some [(''tab'', QStr ''a&b'')])
          = loginUrl (useAuth_config Map.empty) @ ''?next_to='' @ v
        \<and> (\<forall>ch \<in> set v. ch \<notin> {CHR ''&'', CHR ''='', CHR ''?'', CHR ''#''})"
    by (rule logout_url_single_param [OF h])
qed

end
