(* ===== verification/Http.thy ===== *)
theory Http
  imports Prelude
begin

text \<open>
  The HTTP client as the hook sees it (\<open>src/lib/api.ts\<close>, an axios instance): a
  request either gets a reply with a status and a JSON body, or fails without one
  (network error). Axios resolves a reply with a status in \<open>[200, 300)\<close> and rejects
  every other one with an error that carries \<open>response\<close>; a failed request rejects
  with an error whose \<open>response\<close> is \<open>undefined\<close>. The theory also holds the rejection
  handler the four form actions of \<open>src/hooks/auth.ts\<close> share, and
  \<open>Object.values(...).flat()\<close>, with the key order of a JavaScript object.
\<close>

datatype http_method = GET | POST

text \<open>The user object of \<open>/api/user\<close>; the pages read \<open>email_verified_at\<close>.\<close>

record user =
  user_email :: js_string
  email_verified_at :: "js_string option"

text \<open>
  The JSON bodies the backend sends: nothing, a user, a \<open>{status}\<close> message, or a
  Laravel validation bag \<open>{errors: {field: [message, ...]}}\<close> with its fields in the
  order of the JSON text.
\<close>

datatype body =
    NoBody
  | UserBody user
  | StatusBody js_string
  | ErrorsBody "(js_string \<times> js_string list) list"

datatype reply = Reply nat body | NoReply

text \<open>
  A rejection: an axios error (with the status and body of its response, if any), or a
  \<open>TypeError\<close> thrown by JavaScript itself, such as reading a property of
  \<open>undefined\<close>.
\<close>

datatype js_error = AxiosError "(nat \<times> body) option" | TypeError

definition axios_result :: "reply \<Rightarrow> js_error + body" where
  "axios_result r =
     (case r of
        NoReply \<Rightarrow> Inl (AxiosError None)
      | Reply st b \<Rightarrow> if 200 \<le> st \<and> st < 300 then Inr b else Inl (AxiosError (Some (st, b))))"

subsection \<open>\<open>Object.values\<close> and \<open>flat\<close>\<close>

text \<open>
  A JavaScript object lists its array-index keys (canonical decimal numerals below
  \<open>2^32 - 1\<close>) first, in increasing numeric order, then its other string keys in
  insertion order.
\<close>

definition decimal_val :: "js_string \<Rightarrow> nat" where
  "decimal_val k = foldl (\<lambda>n c. 10 * n + (of_char c - 48)) 0 k"

definition is_array_index :: "js_string \<Rightarrow> bool" where
  "is_array_index k \<longleftrightarrow>
     k \<noteq> [] \<and> (\<forall>c \<in> set k. 48 \<le> (of_char c :: nat) \<and> (of_char c :: nat) \<le> 57)
     \<and> (k = ''0'' \<or> hd k \<noteq> CHR ''0'') \<and> decimal_val k < 4294967295"

definition object_values :: "(js_string \<times> 'a) list \<Rightarrow> 'a list" where
  "object_values kvs =
     map snd (sort_key (\<lambda>kv. decimal_val (fst kv)) (filter (\<lambda>kv. is_array_index (fst kv)) kvs))
     @ map snd (filter (\<lambda>kv. \<not> is_array_index (fst kv)) kvs)"

text \<open>\<open>Object.values(error.response.data.errors).flat()\<close>.\<close>

definition validation_messages :: "(js_string \<times> js_string list) list \<Rightarrow> js_string list" where
  "validation_messages errs = concat (object_values errs)"

subsection \<open>The shared rejection handler\<close>

text \<open>
  \<open>.catch(error => { if (error.response.status !== 422) throw error;
  setErrors(Object.values(error.response.data.errors).flat()) })\<close>: a 422 reply gives
  the messages to show (\<open>Inr\<close>); any other reply is rethrown; an error without a
  \<open>response\<close> makes the handler itself throw a \<open>TypeError\<close>, and so does a 422 whose
  body has no \<open>errors\<close> object.
\<close>

definition catch_422 :: "js_error \<Rightarrow> js_error + js_string list" where
  "catch_422 e =
     (case e of
        AxiosError (Some (st, b)) \<Rightarrow>
          if st \<noteq> 422 then Inl e
          else (case b of ErrorsBody errs \<Rightarrow> Inr (validation_messages errs) | _ \<Rightarrow> Inl TypeError)
      | _ \<Rightarrow> Inl TypeError)"

lemma axios_result_ok [simp]: "200 \<le> st \<Longrightarrow> st < 300 \<Longrightarrow> axios_result (Reply st b) = Inr b"
  by (simp add: axios_result_def)

lemma axios_result_fail [simp]:
  "\<not> (200 \<le> st \<and> st < 300) \<Longrightarrow> axios_result (Reply st b) = Inl (AxiosError (Some (st, b)))"
  "axios_result NoReply = Inl (AxiosError None)"
  by (simp_all add: axios_result_def)

lemma catch_422_Inr:
  assumes "catch_422 e = Inr msgs"
  shows "\<exists>errs. e = AxiosError (Some (422, ErrorsBody errs)) \<and> msgs = validation_messages errs"
  using assms unfolding catch_422_def
  by (simp split: js_error.split_asm option.split_asm body.split_asm if_split_asm prod.split_asm)

end
