(* ===== verification/Base64.thy ===== *)
theory Base64
  imports Prelude
begin

text \<open>
  \<open>btoa\<close> and \<open>atob\<close>, the browser's base64 functions: \<open>resetPassword\<close> encodes the
  backend's status message with \<open>btoa\<close> into the login URL
  (\<open>src/hooks/auth.ts\<close>, line 107), and the login page decodes it with \<open>atob\<close>
  (\<open>src/pages/example/login.tsx\<close>, line 32). Both are library functions, modelled
  from the HTML standard: \<open>btoa\<close> encodes each code unit as a byte, \<open>atob\<close> is the
  forgiving-base64 decode (ASCII whitespace removed, up to two \<open>=\<close> stripped from a
  length divisible by 4, a length of 1 modulo 4 or a character outside the alphabet
  rejected with \<open>InvalidCharacterError\<close>). Characters of the model are 8-bit, so the
  \<open>InvalidCharacterError\<close> of \<open>btoa\<close> on a code unit above 255 is outside it.
\<close>

subsection \<open>The alphabet\<close>

text \<open>The code of the digit of value \<open>n\<close>: \<open>A-Z\<close>, \<open>a-z\<close>, \<open>0-9\<close>, \<open>+\<close>, \<open>/\<close>.\<close>

definition b64_code :: "nat \<Rightarrow> nat" where
  "b64_code n =
     (if n < 26 then 65 + n else if n < 52 then 71 + n else if n < 62 then n - 4
      else if n = 62 then 43 else 47)"

definition b64_digit :: "nat \<Rightarrow> char" where
  "b64_digit n = char_of (b64_code n)"

definition b64_val :: "char \<Rightarrow> nat option" where
  "b64_val c =
     (let n = (of_char c :: nat) in
      if 65 \<le> n \<and> n \<le> 90 then Some (n - 65)
      else if 97 \<le> n \<and> n \<le> 122 then Some (n - 71)
      else if 48 \<le> n \<and> n \<le> 57 then Some (n + 4)
      else if n = 43 then Some 62
      else if n = 47 then Some 63
      else None)"

subsection \<open>Encoding\<close>

text \<open>Three bytes give four digits; one or two left over give a padded group.\<close>

fun b64_encode :: "nat list \<Rightarrow> js_string" where
  "b64_encode (a # b # c # rest) =
     [b64_digit (a div 4), b64_digit (a mod 4 * 16 + b div 16),
      b64_digit (b mod 16 * 4 + c div 64), b64_digit (c mod 64)] @ b64_encode rest"
| "b64_encode [a, b] =
     [b64_digit (a div 4), b64_digit (a mod 4 * 16 + b div 16), b64_digit (b mod 16 * 4), CHR ''='']"
| "b64_encode [a] = [b64_digit (a div 4), b64_digit (a mod 4 * 16), CHR ''='', CHR ''='']"
| "b64_encode [] = []"

definition btoa :: "js_string \<Rightarrow> js_string" where
  "btoa s = b64_encode (map of_char s)"

subsection \<open>Decoding\<close>

fun b64_decode :: "nat list \<Rightarrow> nat list" where
  "b64_decode (a # b # c # d # rest) =
     [a * 4 + b div 16, b mod 16 * 16 + c div 4, c mod 4 * 64 + d] @ b64_decode rest"
| "b64_decode [a, b, c] = [a * 4 + b div 16, b mod 16 * 16 + c div 4]"
| "b64_decode [a, b] = [a * 4 + b div 16]"
| "b64_decode [a] = []"
| "b64_decode [] = []"

definition ascii_whitespace :: "char \<Rightarrow> bool" where
  "ascii_whitespace c \<longleftrightarrow> of_char c \<in> {9, 10, 12, 13, 32 :: nat}"

definition strip_padding :: "js_string \<Rightarrow> js_string" where
  "strip_padding t =
     (if length t mod 4 = 0 then
        (if suffix ''=='' t then take (length t - 2) t
         else if suffix ''='' t then take (length t - 1) t else t)
      else t)"

datatype dom_error = InvalidCharacterError

definition atob :: "js_string \<Rightarrow> dom_error + js_string" where
  "atob s =
     (let t = strip_padding (filter (\<lambda>c. \<not> ascii_whitespace c) s)
      in if length t mod 4 = 1 then Inl InvalidCharacterError
         else (case those (map b64_val t) of
                 None \<Rightarrow> Inl InvalidCharacterError
               | Some vs \<Rightarrow> Inr (map char_of (b64_decode vs))))"

subsection \<open>Decoding inverts encoding\<close>

text \<open>The digit values of an encoding, before the padding.\<close>

fun b64_sextets :: "nat list \<Rightarrow> nat list" where
  "b64_sextets (a # b # c # rest) =
     [a div 4, a mod 4 * 16 + b div 16, b mod 16 * 4 + c div 64, c mod 64] @ b64_sextets rest"
| "b64_sextets [a, b] = [a div 4, a mod 4 * 16 + b div 16, b mod 16 * 4]"
| "b64_sextets [a] = [a div 4, a mod 4 * 16]"
| "b64_sextets [] = []"

definition b64_pad :: "nat \<Rightarrow> js_string" where
  "b64_pad n = (if n mod 3 = 1 then ''=='' else if n mod 3 = 2 then ''='' else [])"

lemma b64_code_lt: "b64_code n < 256"
  by (simp add: b64_code_def) arith

lemma b64_code_not_ws: "b64_code n \<notin> {9, 10, 12, 13, 32}"
  by (simp add: b64_code_def) arith

lemma b64_val_digit [simp]: "n < 64 \<Longrightarrow> b64_val (b64_digit n) = Some n"
  by (auto simp: b64_val_def b64_digit_def b64_code_def Let_def)

lemma b64_digit_not_pad: "n < 64 \<Longrightarrow> b64_digit n \<noteq> CHR ''=''"
  using b64_val_digit [of n] by (auto simp: b64_val_def)

lemma b64_encode_sextets: "b64_encode bs = map b64_digit (b64_sextets bs) @ b64_pad (length bs)"
  by (induction bs rule: b64_encode.induct) (simp_all add: b64_pad_def)

lemma b64_sextets_bound: "\<forall>b \<in> set bs. b < 256 \<Longrightarrow> \<forall>x \<in> set (b64_sextets bs). x < 64"
  by (induction bs rule: b64_sextets.induct) auto

lemma length_b64_sextets: "length (b64_sextets bs) mod 4 \<noteq> 1"
  by (induction bs rule: b64_sextets.induct) simp_all

lemma length_b64_encode: "length (b64_encode bs) mod 4 = 0"
  by (induction bs rule: b64_encode.induct) simp_all

lemma btoa_nonempty: "s \<noteq> [] \<Longrightarrow> btoa s \<noteq> []"
  by (cases "map of_char s :: nat list" rule: b64_encode.cases) (auto simp: btoa_def)

lemma strip_padding_encode:
  assumes "\<forall>b \<in> set bs. b < 256"
  shows "strip_padding (b64_encode bs) = map b64_digit (b64_sextets bs)"
proof -
  let ?d = "map b64_digit (b64_sextets bs)"
  have "\<forall>x \<in> set (b64_sextets bs). b64_digit x \<noteq> CHR ''=''"
    using b64_sextets_bound [OF assms] b64_digit_not_pad by blast
  then have nopad: "CHR ''='' \<notin> set ?d" by auto
  then have nosfx: "\<not> suffix ''='' ?d" "\<not> suffix ''=='' ?d"
    using set_mono_suffix [of "''=''" ?d] set_mono_suffix [of "''==''" ?d] by auto
  have len: "length (b64_encode bs) mod 4 = 0" by (rule length_b64_encode)
  have enc: "b64_encode bs = ?d @ b64_pad (length bs)" by (rule b64_encode_sextets)
  show ?thesis
  proof (cases "length bs mod 3 = 1")
    case True
    have "suffix ''=='' (?d @ ''=='')" by (rule suffix_appendI) simp
    with True show ?thesis using len enc by (simp add: strip_padding_def b64_pad_def)
  next
    case False
    show ?thesis
    proof (cases "length bs mod 3 = 2")
      case True
      from nosfx have "\<not> suffix ([CHR ''=''] @ [CHR ''='']) (?d @ [CHR ''=''])"
        by (simp only: snoc_suffix_snoc) simp
      then have "\<not> suffix ''=='' (?d @ ''='')" by simp
      moreover have "suffix ''='' (?d @ ''='')" by (rule suffix_appendI) simp
      ultimately show ?thesis using True False len enc by (simp add: strip_padding_def b64_pad_def)
    next
      case False2: False
      with False nosfx show ?thesis using len enc by (simp add: strip_padding_def b64_pad_def)
    qed
  qed
qed

lemma mult_add_div_mod:
  fixes x y k :: nat
  assumes "y < k"
  shows "(x * k + y) div k = x" and "(x * k + y) mod k = y"
  using assms by simp_all

lemma b64_decode_sextets: "\<forall>b \<in> set bs. b < 256 \<Longrightarrow> b64_decode (b64_sextets bs) = bs"
proof (induction bs rule: b64_sextets.induct)
  case (1 a b c rest)
  then have "b div 16 < 16" "c div 64 < 4" by auto
  then show ?case using 1 by (simp add: mult_add_div_mod)
next
  case (2 a b)
  then have "b div 16 < 16" by auto
  then show ?case by (simp add: mult_add_div_mod)
qed simp_all

lemma those_map_b64_val: "\<forall>x \<in> set xs. x < 64 \<Longrightarrow> those (map b64_val (map b64_digit xs)) = Some xs"
  by (induction xs) auto

lemma b64_digit_not_ws: "\<not> ascii_whitespace (b64_digit n)"
  using b64_code_not_ws [of n] b64_code_lt [of n] by (simp add: ascii_whitespace_def b64_digit_def)

lemma no_ascii_whitespace_encode: "\<forall>c \<in> set (b64_encode bs). \<not> ascii_whitespace c"
  by (induction bs rule: b64_encode.induct) (simp_all add: b64_digit_not_ws, simp_all add: ascii_whitespace_def)

text \<open>
  \<open>atob\<close> inverts \<open>btoa\<close> on every string of the model: the status that
  \<open>resetPassword\<close> encodes is the one a decoder of the raw parameter gets back.
\<close>

lemma atob_btoa: "atob (btoa s) = Inr s"
proof -
  let ?bs = "map of_char s :: nat list"
  have bound: "\<forall>b \<in> set ?bs. b < 256" by simp
  have "filter (\<lambda>c. \<not> ascii_whitespace c) (b64_encode ?bs) = b64_encode ?bs"
    using no_ascii_whitespace_encode by (simp add: filter_id_conv)
  then have "strip_padding (filter (\<lambda>c. \<not> ascii_whitespace c) (btoa s))
             = map b64_digit (b64_sextets ?bs)"
    by (simp add: btoa_def strip_padding_encode [OF bound])
  moreover have "those (map b64_val (map b64_digit (b64_sextets ?bs))) = Some (b64_sextets ?bs)"
    by (rule those_map_b64_val [OF b64_sextets_bound [OF bound]])
  moreover have "b64_decode (b64_sextets ?bs) = ?bs"
    by (rule b64_decode_sextets [OF bound])
  ultimately show ?thesis
    using length_b64_sextets [of ?bs] by (simp add: atob_def comp_def)
qed

subsection \<open>Lengths of decoded strings\<close>

lemma length_b64_decode: "length (b64_decode vs) = 3 * length vs div 4"
  by (induction vs rule: b64_decode.induct) simp_all

lemma those_length: "those xs = Some vs \<Longrightarrow> length vs = length xs"
  by (induction xs arbitrary: vs) (auto split: option.splits)

lemma those_b64_val_no_pad: "those (map b64_val xs) = Some vs \<Longrightarrow> CHR ''='' \<notin> set xs"
  by (induction xs arbitrary: vs) (auto simp: b64_val_def split: option.splits)

lemma strip_padding_prefix: "prefix (strip_padding t) t"
  by (simp add: strip_padding_def take_is_prefix)

text \<open>What \<open>atob\<close> returns has three bytes per four digits left after padding is stripped.\<close>

lemma atob_Inr_length:
  assumes "atob s = Inr r"
  shows "\<exists>d. prefix d (filter (\<lambda>c. \<not> ascii_whitespace c) s) \<and> CHR ''='' \<notin> set d
             \<and> length r = 3 * length d div 4"
proof -
  let ?d = "strip_padding (filter (\<lambda>c. \<not> ascii_whitespace c) s)"
  from assms obtain vs where vs: "those (map b64_val ?d) = Some vs" and r: "r = map char_of (b64_decode vs)"
    by (auto simp: atob_def Let_def split: if_splits option.splits)
  have "length r = 3 * length ?d div 4"
    using r those_length [OF vs] by (simp add: length_b64_decode)
  with those_b64_val_no_pad [OF vs] strip_padding_prefix show ?thesis by blast
qed

lemma length_btoa_digits: "length (filter (\<lambda>c. c \<noteq> CHR ''='') (btoa t)) = length (b64_sextets (map of_char t))"
proof -
  let ?bs = "map of_char t :: nat list"
  have "\<forall>x \<in> set (b64_sextets ?bs). b64_digit x \<noteq> CHR ''=''"
    using b64_sextets_bound [of ?bs] b64_digit_not_pad by simp
  then have "filter (\<lambda>c. c \<noteq> CHR ''='') (map b64_digit (b64_sextets ?bs)) = map b64_digit (b64_sextets ?bs)"
    by (auto simp: filter_id_conv)
  moreover have "filter (\<lambda>c. c \<noteq> CHR ''='') (b64_pad n) = []" for n
    by (simp add: b64_pad_def)
  ultimately show ?thesis by (simp add: btoa_def b64_encode_sextets)
qed

lemma length_btoa_decoded: "length t = 3 * length (b64_sextets (map of_char t)) div 4"
proof -
  have "b64_decode (b64_sextets (map of_char t)) = (map of_char t :: nat list)"
    by (rule b64_decode_sextets) simp
  then show ?thesis by (metis length_b64_decode length_map)
qed

end
