(* ===== verification/Hook.thy ===== *)
theory Hook
  imports Redirect Http Base64
begin

text \<open>
  The authentication hook \<open>useAuth\<close> (\<open>src/hooks/auth.ts\<close>) as explicit state passing.
  One instance of the hook, on one page, is a state of type \<open>hook_state\<close>: the SWR
  cache entry of the user endpoint (\<open>data\<close>, \<open>error\<close>), the \<open>loading\<close> flag, the
  page's \<open>errors\<close> and \<open>status\<close> (which the actions write through \<open>setErrors\<close> and
  \<open>setStatus\<close>), the promises still waiting for a reply, and the log of what the
  hook has done to the outside world: requests sent, \<open>router.push\<close>,
  \<open>window.location.assign\<close>, and rejections nobody handles.

  Each handler is cut at its \<open>await\<close> and \<open>.then\<close> points: \<open>invoke\<close> is the part of
  an action that runs when the page calls it, and the continuation that runs when a
  reply arrives is named by a \<open>cont\<close> in \<open>pending\<close>. Replies may arrive in any order:
  a step settles any pending promise with any reply. The context \<open>hook_ctx\<close> holds
  what the hook reads from its arguments, the environment and the router.
\<close>

datatype middleware = Auth | Guest

datatype action = Register | Login | ForgotPassword | ResetPassword | ResendVerification

datatype effect =
    Request http_method url
  | RouterPush url "url option"
  | LocationAssign url
  | Unhandled js_error

text \<open>What a pending promise resumes when it settles.\<close>

datatype cont =
    KUser \<comment> \<open>the SWR fetcher of \<open>apiPathUser\<close>\<close>
  | KCsrf action \<comment> \<open>an action at \<open>await csrf()\<close>\<close>
  | KPost action \<comment> \<open>an action's \<open>api.post(...).then(...).catch(...)\<close>\<close>
  | KLogout "url option" "query option" \<comment> \<open>\<open>logout\<close> at \<open>await api.post(apiPathLogout)\<close>\<close>

record hook_ctx =
  cfg :: auth_config
  csrf_target :: url
  middleware :: middleware
  redirect_target :: url
  route_path :: url
  route_query :: query

text \<open>\<open>useAuth({middleware, redirectIfAuthenticated})\<close> on a route.\<close>

definition use_auth :: "env \<Rightarrow> middleware \<Rightarrow> url option \<Rightarrow> url \<Rightarrow> query \<Rightarrow> hook_ctx" where
  "use_auth env m r path q =
     \<lparr>cfg = useAuth_config env, csrf_target = csrf_url env, middleware = m,
      redirect_target = redirect_if_authenticated_url (useAuth_config env) r,
      route_path = path, route_query = q\<rparr>"

record hook_state =
  swr_data :: "user option"
  swr_error :: "js_error option"
  loading :: bool
  form_errors :: "js_string list"
  form_status :: js_value
  pending :: "cont list"
  effects :: "effect list"

text \<open>On mount: \<open>loading\<close> is \<open>true\<close> and SWR has sent its first fetch.\<close>

definition init_state :: "hook_ctx \<Rightarrow> hook_state" where
  "init_state ctx =
     \<lparr>swr_data = None, swr_error = None, loading = True, form_errors = [], form_status = JNull,
      pending = [KUser], effects = [Request GET (apiPathUser (cfg ctx))]\<rparr>"

subsection \<open>Primitive effects\<close>

definition emit :: "effect \<Rightarrow> hook_state \<Rightarrow> hook_state" where
  "emit e s = s\<lparr>effects := effects s @ [e]\<rparr>"

definition send :: "cont \<Rightarrow> http_method \<Rightarrow> url \<Rightarrow> hook_state \<Rightarrow> hook_state" where
  "send k m p s = s\<lparr>pending := pending s @ [k], effects := effects s @ [Request m p]\<rparr>"

text \<open>SWR's bound \<open>mutate()\<close>: revalidate, that is, fetch the user again.\<close>

definition mutate :: "hook_ctx \<Rightarrow> hook_state \<Rightarrow> hook_state" where
  "mutate ctx s = send KUser GET (apiPathUser (cfg ctx)) s"

subsection \<open>The session fetcher (lines 41--50)\<close>

definition verify_target :: "hook_ctx \<Rightarrow> url" where
  "verify_target ctx =
     (if index_of (redirect_target ctx) ''verify-email'' < 0 then verifyEmailUrl (cfg ctx)
      else redirect_target ctx)"

definition body_user :: "body \<Rightarrow> user option" where
  "body_user b = (case b of UserBody u \<Rightarrow> Some u | _ \<Rightarrow> None)"

text \<open>
  The fetcher resolves with \<open>res.data\<close>; on a 409 it pushes the verify-email page and
  resolves with \<open>undefined\<close>; on any other status it rethrows; without a response,
  \<open>error.response.status\<close> throws a \<open>TypeError\<close>. SWR stores a resolved value as
  \<open>data\<close> and clears \<open>error\<close>; it stores a rejection as \<open>error\<close> and keeps \<open>data\<close>.
\<close>

definition user_fetched :: "hook_ctx \<Rightarrow> reply \<Rightarrow> hook_state \<Rightarrow> hook_state" where
  "user_fetched ctx r s =
     (case axios_result r of
        Inr b \<Rightarrow> s\<lparr>swr_data := body_user b, swr_error := None\<rparr>
      | Inl (AxiosError (Some (st, b))) \<Rightarrow>
          if st \<noteq> 409 then s\<lparr>swr_error := Some (AxiosError (Some (st, b)))\<rparr>
          else (emit (RouterPush (verify_target ctx) None) s)\<lparr>swr_data := None, swr_error := None\<rparr>
      | Inl _ \<Rightarrow> s\<lparr>swr_error := Some TypeError\<rparr>)"

subsection \<open>The form actions (lines 52--121)\<close>

fun action_path :: "auth_config \<Rightarrow> action \<Rightarrow> url" where
  "action_path c Register = apiPathRegister c"
| "action_path c Login = apiPathLogin c"
| "action_path c ForgotPassword = apiPathForgotPassword c"
| "action_path c ResetPassword = apiPathResetPassword c"
| "action_path c ResendVerification = apiPathVerifyEmail c"

text \<open>
  Calling an action: \<open>resendEmailVerification\<close> posts at once; the four others start
  with \<open>await csrf()\<close> and return to the page there.
\<close>

definition invoke :: "hook_ctx \<Rightarrow> action \<Rightarrow> hook_state \<Rightarrow> hook_state" where
  "invoke ctx a s =
     (if a = ResendVerification then send (KPost a) POST (action_path (cfg ctx) a) s
      else send (KCsrf a) GET (csrf_target ctx) s)"

text \<open>
  After \<open>csrf()\<close>: a failed CSRF request rejects the action's promise, which no page
  handles. Otherwise the action clears \<open>errors\<close> (and \<open>status\<close>, except in
  \<open>register\<close>) and posts; the post is not awaited.
\<close>

definition csrf_resumed :: "hook_ctx \<Rightarrow> action \<Rightarrow> reply \<Rightarrow> hook_state \<Rightarrow> hook_state" where
  "csrf_resumed ctx a r s =
     (case axios_result r of
        Inl e \<Rightarrow> emit (Unhandled e) s
      | Inr _ \<Rightarrow>
          (let s1 = s\<lparr>form_errors := []\<rparr>;
               s2 = (if a = Register then s1 else s1\<lparr>form_status := JNull\<rparr>)
           in send (KPost a) POST (action_path (cfg ctx) a) s2))"

text \<open>The \<open>.catch\<close> of the four form actions.\<close>

definition reject_form :: "js_error \<Rightarrow> hook_state \<Rightarrow> hook_state" where
  "reject_form e s =
     (case catch_422 e of Inl e' \<Rightarrow> emit (Unhandled e') s | Inr msgs \<Rightarrow> s\<lparr>form_errors := msgs\<rparr>)"

text \<open>\<open>response.data.status\<close>: the message, or \<open>undefined\<close> when the body has none.\<close>

definition body_status :: "body \<Rightarrow> js_value" where
  "body_status b = (case b of StatusBody t \<Rightarrow> JStr t | _ \<Rightarrow> JUndefined)"

text \<open>\<open>loginUrl + '?reset=' + btoa(response.data.status)\<close>; \<open>btoa(undefined)\<close> encodes the text \<open>undefined\<close>.\<close>

definition reset_redirect_url :: "auth_config \<Rightarrow> body \<Rightarrow> url" where
  "reset_redirect_url c b =
     loginUrl c @ ''?reset='' @ btoa (case b of StatusBody t \<Rightarrow> t | _ \<Rightarrow> ''undefined'')"

text \<open>
  The reply to an action's post. \<open>register\<close> and \<open>login\<close> revalidate the session,
  \<open>forgotPassword\<close> and \<open>resendEmailVerification\<close> show the returned status,
  \<open>resetPassword\<close> navigates to the login page with the encoded status. A rejection
  goes through the shared \<open>.catch\<close>, except for \<open>resendEmailVerification\<close>, which has
  none.
\<close>

definition post_resolved :: "hook_ctx \<Rightarrow> action \<Rightarrow> reply \<Rightarrow> hook_state \<Rightarrow> hook_state" where
  "post_resolved ctx a r s =
     (case axios_result r of
        Inl e \<Rightarrow> (if a = ResendVerification then emit (Unhandled e) s else reject_form e s)
      | Inr b \<Rightarrow>
          (case a of
             Register \<Rightarrow> mutate ctx s
           | Login \<Rightarrow> mutate ctx s
           | ForgotPassword \<Rightarrow> s\<lparr>form_status := body_status b\<rparr>
           | ResetPassword \<Rightarrow> emit (RouterPush (reset_redirect_url (cfg ctx) b) None) s
           | ResendVerification \<Rightarrow> s\<lparr>form_status := body_status b\<rparr>))"

subsection \<open>Logout (lines 123--138)\<close>

text \<open>
  With no fetch error, \<open>logout\<close> posts to \<open>apiPathLogout\<close> and waits; with one, it
  navigates at once. After a successful post it revalidates and navigates; if the
  post fails, the \<open>await\<close> throws and the navigation never happens.
\<close>

definition logout :: "hook_ctx \<Rightarrow> url option \<Rightarrow> query option \<Rightarrow> hook_state \<Rightarrow> hook_state" where
  "logout ctx n q s =
     (if swr_error s = None then send (KLogout n q) POST (apiPathLogout (cfg ctx)) s
      else emit (LocationAssign (logout_url (cfg ctx) n q)) s)"

definition logout_resumed ::
  "hook_ctx \<Rightarrow> url option \<Rightarrow> query option \<Rightarrow> reply \<Rightarrow> hook_state \<Rightarrow> hook_state" where
  "logout_resumed ctx n q r s =
     (case axios_result r of
        Inl e \<Rightarrow> emit (Unhandled e) s
      | Inr _ \<Rightarrow> emit (LocationAssign (logout_url (cfg ctx) n q)) (mutate ctx s))"

subsection \<open>The redirect effect (lines 140--153)\<close>

definition auth_effect :: "hook_ctx \<Rightarrow> hook_state \<Rightarrow> hook_state" where
  "auth_effect ctx s =
     (let s1 = (if middleware ctx = Guest \<and> swr_data s \<noteq> None
                then emit (RouterPush (logged_redirect_url (redirect_target ctx))
                                      (Some (redirect_target ctx))) s
                else s);
          s2 = (if middleware ctx = Auth \<and> swr_error s1 \<noteq> None
                then logout ctx (Some (route_path ctx)) (Some (route_query ctx)) s1
                else s1)
      in s2\<lparr>loading := False\<rparr>)"

subsection \<open>Steps and runs\<close>

definition resume :: "hook_ctx \<Rightarrow> cont \<Rightarrow> reply \<Rightarrow> hook_state \<Rightarrow> hook_state" where
  "resume ctx k r s =
     (case k of
        KUser \<Rightarrow> user_fetched ctx r s
      | KCsrf a \<Rightarrow> csrf_resumed ctx a r s
      | KPost a \<Rightarrow> post_resolved ctx a r s
      | KLogout n q \<Rightarrow> logout_resumed ctx n q r s)"

definition settle :: "hook_ctx \<Rightarrow> nat \<Rightarrow> reply \<Rightarrow> hook_state \<Rightarrow> hook_state" where
  "settle ctx i r s =
     resume ctx (pending s ! i) r (s\<lparr>pending := take i (pending s) @ drop (Suc i) (pending s)\<rparr>)"

text \<open>
  What can happen next: the page calls an action or \<open>logout\<close>, React runs the effect,
  or the \<open>i\<close>-th pending promise settles with a reply. Settling a promise that does
  not exist is no step.
\<close>

datatype event = Call action | CallLogout "url option" "query option" | Effect | Settle nat reply

fun hook_step :: "hook_ctx \<Rightarrow> event \<Rightarrow> hook_state \<Rightarrow> hook_state option" where
  "hook_step ctx (Call a) s = Some (invoke ctx a s)"
| "hook_step ctx (CallLogout n q) s = Some (logout ctx n q s)"
| "hook_step ctx Effect s = Some (auth_effect ctx s)"
| "hook_step ctx (Settle i r) s = (if i < length (pending s) then Some (settle ctx i r s) else None)"

fun hook_run :: "hook_ctx \<Rightarrow> event list \<Rightarrow> hook_state \<Rightarrow> hook_state option" where
  "hook_run ctx [] s = Some s"
| "hook_run ctx (e # es) s = (case hook_step ctx e s of None \<Rightarrow> None | Some t \<Rightarrow> hook_run ctx es t)"

inductive reachable :: "hook_ctx \<Rightarrow> hook_state \<Rightarrow> bool" for ctx where
  init: "reachable ctx (init_state ctx)"
| step: "reachable ctx s \<Longrightarrow> hook_step ctx e s = Some t \<Longrightarrow> reachable ctx t"

subsection \<open>The contract: what the hook may do to the outside world\<close>

text \<open>
  The hook only requests its configured endpoints, pushes one of three targets (the
  verify-email page, the marked landing URL, the login page with a reset status), and
  assigns only logout targets.
\<close>

definition allowed_effects :: "hook_ctx \<Rightarrow> effect set" where
  "allowed_effects ctx =
     {Request GET (apiPathUser (cfg ctx)), Request GET (csrf_target ctx),
      Request POST (apiPathLogout (cfg ctx)),
      RouterPush (verify_target ctx) None,
      RouterPush (logged_redirect_url (redirect_target ctx)) (Some (redirect_target ctx))}
     \<union> {Request POST (action_path (cfg ctx) a) | a. True}
     \<union> {RouterPush (reset_redirect_url (cfg ctx) b) None | b. True}
     \<union> {LocationAssign (logout_url (cfg ctx) n q) | n q. True}
     \<union> range Unhandled"

definition effects_ok :: "hook_ctx \<Rightarrow> hook_state \<Rightarrow> bool" where
  "effects_ok ctx s \<longleftrightarrow> set (effects s) \<subseteq> allowed_effects ctx"

definition no_409_error :: "hook_state \<Rightarrow> bool" where
  "no_409_error s \<longleftrightarrow> (case swr_error s of Some (AxiosError (Some (st, b))) \<Rightarrow> st \<noteq> 409 | _ \<Rightarrow> True)"

declare emit_def [hook_defs] send_def [hook_defs] mutate_def [hook_defs]

declare user_fetched_def [hook_defs] invoke_def [hook_defs] csrf_resumed_def [hook_defs]
  reject_form_def [hook_defs] post_resolved_def [hook_defs] logout_def [hook_defs]
  logout_resumed_def [hook_defs] auth_effect_def [hook_defs] resume_def [hook_defs] settle_def [hook_defs]
  init_state_def [hook_defs] verify_target_def [hook_defs] body_user_def [hook_defs]
  body_status_def [hook_defs] reset_redirect_url_def [hook_defs]

lemmas hook_eval = hook_defs use_auth_def useAuth_config_def csrf_url_def
  redirect_if_authenticated_url_def logged_redirect_url_def url_eval_simps


lemma effects_ok_emit [simp]:
  "effects_ok ctx (emit e s) \<longleftrightarrow> effects_ok ctx s \<and> e \<in> allowed_effects ctx"
  by (auto simp: effects_ok_def emit_def)

lemma effects_ok_send [simp]:
  "effects_ok ctx (send k m p s) \<longleftrightarrow> effects_ok ctx s \<and> Request m p \<in> allowed_effects ctx"
  by (auto simp: effects_ok_def send_def)

lemma effects_ok_update [simp]:
  "effects_ok ctx (s\<lparr>swr_data := d\<rparr>) = effects_ok ctx s"
  "effects_ok ctx (s\<lparr>swr_error := err\<rparr>) = effects_ok ctx s"
  "effects_ok ctx (s\<lparr>loading := l\<rparr>) = effects_ok ctx s"
  "effects_ok ctx (s\<lparr>form_errors := fe\<rparr>) = effects_ok ctx s"
  "effects_ok ctx (s\<lparr>form_status := fs\<rparr>) = effects_ok ctx s"
  "effects_ok ctx (s\<lparr>pending := ps\<rparr>) = effects_ok ctx s"
  by (simp_all add: effects_ok_def)

lemma allowed_basic [simp]:
  "Request GET (apiPathUser (cfg ctx)) \<in> allowed_effects ctx"
  "Request GET (csrf_target ctx) \<in> allowed_effects ctx"
  "Request POST (apiPathLogout (cfg ctx)) \<in> allowed_effects ctx"
  "Request POST (action_path (cfg ctx) a) \<in> allowed_effects ctx"
  "RouterPush (verify_target ctx) None \<in> allowed_effects ctx"
  "RouterPush (logged_redirect_url (redirect_target ctx)) (Some (redirect_target ctx)) \<in> allowed_effects ctx"
  "RouterPush (reset_redirect_url (cfg ctx) b) None \<in> allowed_effects ctx"
  "LocationAssign (logout_url (cfg ctx) n q) \<in> allowed_effects ctx"
  "Unhandled e \<in> allowed_effects ctx"
  by (auto simp: allowed_effects_def)

lemma allowed_action_paths [simp]:
  "Request POST (apiPathRegister (cfg ctx)) \<in> allowed_effects ctx"
  "Request POST (apiPathLogin (cfg ctx)) \<in> allowed_effects ctx"
  "Request POST (apiPathForgotPassword (cfg ctx)) \<in> allowed_effects ctx"
  "Request POST (apiPathResetPassword (cfg ctx)) \<in> allowed_effects ctx"
  "Request POST (apiPathVerifyEmail (cfg ctx)) \<in> allowed_effects ctx"
  using allowed_basic(4) [of ctx Register] allowed_basic(4) [of ctx Login]
    allowed_basic(4) [of ctx ForgotPassword] allowed_basic(4) [of ctx ResetPassword]
    allowed_basic(4) [of ctx ResendVerification]
  by simp_all

lemma effects_ok_mutate: "effects_ok ctx s \<Longrightarrow> effects_ok ctx (mutate ctx s)"
  by (simp add: mutate_def)

lemma effects_ok_user_fetched: "effects_ok ctx s \<Longrightarrow> effects_ok ctx (user_fetched ctx r s)"
  by (simp add: user_fetched_def split: sum.split js_error.split option.split prod.split)

lemma effects_ok_invoke: "effects_ok ctx s \<Longrightarrow> effects_ok ctx (invoke ctx a s)"
  by (simp add: invoke_def)

lemma effects_ok_csrf_resumed: "effects_ok ctx s \<Longrightarrow> effects_ok ctx (csrf_resumed ctx a r s)"
  by (simp add: csrf_resumed_def Let_def split: sum.split)

lemma effects_ok_reject_form: "effects_ok ctx s \<Longrightarrow> effects_ok ctx (reject_form e s)"
  by (simp add: reject_form_def split: sum.split)

lemma effects_ok_post_resolved: "effects_ok ctx s \<Longrightarrow> effects_ok ctx (post_resolved ctx a r s)"
  by (simp add: post_resolved_def effects_ok_reject_form effects_ok_mutate split: sum.split action.split)

lemma effects_ok_logout: "effects_ok ctx s \<Longrightarrow> effects_ok ctx (logout ctx n q s)"
  by (simp add: logout_def)

lemma effects_ok_logout_resumed: "effects_ok ctx s \<Longrightarrow> effects_ok ctx (logout_resumed ctx n q r s)"
  by (simp add: logout_resumed_def effects_ok_mutate split: sum.split)

lemma effects_ok_auth_effect: "effects_ok ctx s \<Longrightarrow> effects_ok ctx (auth_effect ctx s)"
  by (simp add: auth_effect_def Let_def effects_ok_logout)

lemma effects_ok_settle: "effects_ok ctx s \<Longrightarrow> effects_ok ctx (settle ctx i r s)"
  by (simp add: settle_def resume_def effects_ok_user_fetched effects_ok_csrf_resumed
      effects_ok_post_resolved effects_ok_logout_resumed split: cont.split)

lemma effects_ok_step: "hook_step ctx e s = Some t \<Longrightarrow> effects_ok ctx s \<Longrightarrow> effects_ok ctx t"
  by (cases e) (auto simp: effects_ok_invoke effects_ok_logout effects_ok_auth_effect
      effects_ok_settle split: if_splits)

lemma effects_ok_init: "effects_ok ctx (init_state ctx)"
  by (simp add: effects_ok_def init_state_def)

lemma reachable_effects_ok: "reachable ctx s \<Longrightarrow> effects_ok ctx s"
proof (induction rule: reachable.induct)
  case init
  show ?case by (rule effects_ok_init)
next
  case (step s e t)
  then show ?case by (blast intro: effects_ok_step)
qed

subsection \<open>Runs reach reachable states\<close>

lemma reachable_run: "hook_run ctx es s = Some t \<Longrightarrow> reachable ctx s \<Longrightarrow> reachable ctx t"
proof (induction es arbitrary: s)
  case Nil
  then show ?case by simp
next
  case (Cons e es)
  then obtain s' where s': "hook_step ctx e s = Some s'" and run: "hook_run ctx es s' = Some t"
    by (auto split: option.splits)
  from Cons.prems(2) s' have "reachable ctx s'" by (rule reachable.step)
  with run show ?case by (rule Cons.IH)
qed

lemma hook_run_append:
  "hook_run ctx (es @ fs) s = (case hook_run ctx es s of None \<Rightarrow> None | Some t \<Rightarrow> hook_run ctx fs t)"
  by (induction es arbitrary: s) (auto split: option.split)

subsection \<open>Frame lemmas: what an operation leaves alone\<close>

lemma session_frame_basic [simp]:
  "swr_data (emit e s) = swr_data s" "swr_error (emit e s) = swr_error s"
  "swr_data (send k m p s) = swr_data s" "swr_error (send k m p s) = swr_error s"
  "form_errors (emit e s) = form_errors s" "form_status (emit e s) = form_status s"
  "form_errors (send k m p s) = form_errors s" "form_status (send k m p s) = form_status s"
  "pending (emit e s) = pending s" "loading (send k m p s) = loading s" "loading (emit e s) = loading s"
  by (simp_all add: emit_def send_def)

lemma logout_frame [simp]:
  "swr_data (logout ctx n q s) = swr_data s" "swr_error (logout ctx n q s) = swr_error s"
  "form_errors (logout ctx n q s) = form_errors s" "form_status (logout ctx n q s) = form_status s"
  by (simp_all add: logout_def)

lemma session_frame_ops:
  "swr_data (invoke ctx a s) = swr_data s" "swr_error (invoke ctx a s) = swr_error s"
  "swr_data (csrf_resumed ctx a r s) = swr_data s" "swr_error (csrf_resumed ctx a r s) = swr_error s"
  "swr_data (post_resolved ctx a r s) = swr_data s" "swr_error (post_resolved ctx a r s) = swr_error s"
  "swr_data (logout_resumed ctx n q r s) = swr_data s"
  "swr_error (logout_resumed ctx n q r s) = swr_error s"
  by (simp_all add: invoke_def csrf_resumed_def Let_def post_resolved_def reject_form_def mutate_def
      logout_resumed_def split: sum.split action.split)

subsection \<open>Claims about single operations\<close>

text \<open>
  C1: a 422 reply to \<open>register\<close>, \<open>login\<close>, \<open>forgotPassword\<close> or \<open>resetPassword\<close>
  writes the flattened validation messages (\<open>Object.values(errors).flat()\<close>) into the
  page's errors and changes nothing else.
\<close>

lemma post_resolved_422:
  assumes "a \<noteq> ResendVerification"
  shows "post_resolved ctx a (Reply 422 (ErrorsBody errs)) s = s\<lparr>form_errors := validation_messages errs\<rparr>"
  using assms by (simp add: post_resolved_def reject_form_def catch_422_def)

theorem post_resolved_422_witness:
  "Login \<noteq> ResendVerification
   \<and> post_resolved (use_auth Map.empty Guest None ''/example/login'' []) Login
       (Reply 422 (ErrorsBody [(''email'', [''required''])]))
       (init_state (use_auth Map.empty Guest None ''/example/login'' []))
     = (init_state (use_auth Map.empty Guest None ''/example/login'' []))
         \<lparr>form_errors := validation_messages [(''email'', [''required''])]\<rparr>
   \<and> validation_messages [(''email'', [''required''])] = [''required'']"
proof -
  have a: "Login \<noteq> ResendVerification" by simp
  have v: "validation_messages [(''email'', [''required''])] = [''required'']"
    by (simp add: validation_messages_def object_values_def is_array_index_def)
  show ?thesis using a post_resolved_422 [OF a] v by blast
qed

text \<open>
  C4: on an auth page whose session fetch failed, the effect logs out with the current
  path and query as the return target; since the fetch failed, \<open>logout\<close> navigates at
  once, to the login URL built from them, and \<open>loading\<close> becomes false.
\<close>

lemma auth_effect_logout_target:
  assumes "middleware ctx = Auth" and "swr_error s \<noteq> None"
  shows "auth_effect ctx s =
           (emit (LocationAssign (logout_url (cfg ctx) (Some (route_path ctx)) (Some (route_query ctx)))) s)
             \<lparr>loading := False\<rparr>"
proof -
  from assms(2) obtain err where "swr_error s = Some err" by auto
  with assms(1) show ?thesis by (simp add: auth_effect_def logout_def)
qed

theorem auth_effect_logout_target_witness:
  "middleware (use_auth Map.empty Auth None ''/example/cards'' [(''tab'', QStr ''1'')]) = Auth
   \<and> swr_error ((init_state (use_auth Map.empty Auth None ''/example/cards'' [(''tab'', QStr ''1'')]))
       \<lparr>swr_error := Some TypeError\<rparr>) \<noteq> None
   \<and> auth_effect (use_auth Map.empty Auth None ''/example/cards'' [(''tab'', QStr ''1'')])
       ((init_state (use_auth Map.empty Auth None ''/example/cards'' [(''tab'', QStr ''1'')]))\<lparr>swr_error := Some TypeError\<rparr>)
     = (emit (LocationAssign ''/example/login?next_to=%2Fexample%2Fcards%3Ftab%3D1'')
         ((init_state (use_auth Map.empty Auth None ''/example/cards'' [(''tab'', QStr ''1'')]))\<lparr>swr_error := Some TypeError\<rparr>))
         \<lparr>loading := False\<rparr>"
proof -
  let ?ctx = "use_auth Map.empty Auth None ''/example/cards'' [(''tab'', QStr ''1'')]"
  let ?s = "(init_state ?ctx)\<lparr>swr_error := Some TypeError\<rparr>"
  have m: "middleware ?ctx = Auth" by (simp add: use_auth_def)
  have e: "swr_error ?s \<noteq> None" by simp
  have u: "logout_url (cfg ?ctx) (Some (route_path ?ctx)) (Some (route_query ?ctx))
           = ''/example/login?next_to=%2Fexample%2Fcards%3Ftab%3D1''"
    by (simp add: hook_eval)
  show ?thesis using m e auth_effect_logout_target [OF m e] u by simp
qed

text \<open>
  C5: a 409 reply to the user fetch, with a redirect target that does not contain
  \<open>verify-email\<close>, pushes the verify-email page and leaves the cache with neither data
  nor error.
\<close>

lemma user_fetched_409:
  assumes "\<not> sublist ''verify-email'' (redirect_target ctx)"
  shows "user_fetched ctx (Reply 409 b) s =
           (emit (RouterPush (verifyEmailUrl (cfg ctx)) None) s)\<lparr>swr_data := None, swr_error := None\<rparr>"
  using assms by (simp add: user_fetched_def verify_target_def index_of_neg_iff)

theorem user_fetched_409_witness:
  "\<not> sublist ''verify-email'' (redirect_target (use_auth Map.empty Guest None ''/example/login'' []))
   \<and> user_fetched (use_auth Map.empty Guest None ''/example/login'' []) (Reply 409 NoBody)
       (init_state (use_auth Map.empty Guest None ''/example/login'' []))
     = (emit (RouterPush ''/example/verify-email'' None)
         (init_state (use_auth Map.empty Guest None ''/example/login'' [])))
         \<lparr>swr_data := None, swr_error := None\<rparr>"
proof -
  let ?ctx = "use_auth Map.empty Guest None ''/example/login'' []"
  have n: "\<not> sublist ''verify-email'' (redirect_target ?ctx)"
    by (simp add: use_auth_def useAuth_config_def redirect_if_authenticated_url_def sublist_code)
  have v: "verifyEmailUrl (cfg ?ctx) = ''/example/verify-email''"
    by (simp add: use_auth_def useAuth_config_def)
  show ?thesis using n user_fetched_409 [OF n, of NoBody "init_state ?ctx"] v by simp
qed

text \<open>
  C12: once the CSRF cookie request succeeds, an action clears the page's errors (and its
  status, except in \<open>register\<close>) and posts to its endpoint.
\<close>

lemma csrf_resumed_clears:
  assumes "axios_result r = Inr b"
  shows "csrf_resumed ctx a r s =
           send (KPost a) POST (action_path (cfg ctx) a)
             (s\<lparr>form_errors := [], form_status := (if a = Register then form_status s else JNull)\<rparr>)"
  using assms by (simp add: csrf_resumed_def Let_def)

theorem csrf_resumed_clears_witness:
  "axios_result (Reply 204 NoBody) = Inr NoBody
   \<and> csrf_resumed (use_auth Map.empty Guest None ''/example/login'' []) Login (Reply 204 NoBody)
       ((init_state (use_auth Map.empty Guest None ''/example/login'' []))\<lparr>form_errors := [''old''], form_status := JStr ''s''\<rparr>)
     = send (KPost Login) POST ''/login''
         ((init_state (use_auth Map.empty Guest None ''/example/login'' []))\<lparr>form_errors := [], form_status := JNull\<rparr>)"
proof -
  let ?ctx = "use_auth Map.empty Guest None ''/example/login'' []"
  let ?s = "(init_state ?ctx)\<lparr>form_errors := [''old''], form_status := JStr ''s''\<rparr>"
  have r: "axios_result (Reply 204 NoBody) = Inr NoBody" by simp
  have p: "action_path (cfg ?ctx) Login = ''/login''" by (simp add: use_auth_def useAuth_config_def)
  show ?thesis using r csrf_resumed_clears [OF r, of ?ctx Login ?s] p by simp
qed

text \<open>
  C13: any other rejection of a form action propagates unhandled: an HTTP error as it
  came, a request without a response as the \<open>TypeError\<close> the handler throws when it
  reads \<open>error.response.status\<close>.
\<close>

lemma post_resolved_rethrow:
  assumes "a \<noteq> ResendVerification" and "\<not> (200 \<le> st \<and> st < 300)" and "st \<noteq> 422"
  shows "post_resolved ctx a (Reply st b) s = emit (Unhandled (AxiosError (Some (st, b)))) s
         \<and> post_resolved ctx a NoReply s = emit (Unhandled TypeError) s"
  using assms by (simp add: post_resolved_def reject_form_def catch_422_def)

theorem post_resolved_rethrow_witness:
  "post_resolved (use_auth Map.empty Guest None ''/example/login'' []) Login (Reply 500 NoBody) (init_state (use_auth Map.empty Guest None ''/example/login'' []))
     = emit (Unhandled (AxiosError (Some (500, NoBody)))) (init_state (use_auth Map.empty Guest None ''/example/login'' []))
   \<and> post_resolved (use_auth Map.empty Guest None ''/example/login'' []) Login NoReply (init_state (use_auth Map.empty Guest None ''/example/login'' []))
     = emit (Unhandled TypeError) (init_state (use_auth Map.empty Guest None ''/example/login'' []))"
  by (rule post_resolved_rethrow) simp_all

text \<open>
  C7: a successful reset-password reply navigates to the login page with the returned
  status, encoded by \<open>btoa\<close>, in the \<open>reset\<close> parameter.
\<close>

lemma post_resolved_reset:
  assumes "200 \<le> st" and "st < 300"
  shows "post_resolved ctx ResetPassword (Reply st (StatusBody t)) s =
           emit (RouterPush (loginUrl (cfg ctx) @ ''?reset='' @ btoa t) None) s"
  using assms by (simp add: post_resolved_def reset_redirect_url_def)

theorem post_resolved_reset_witness:
  "post_resolved (use_auth Map.empty Guest None ''/example/reset-password'' []) ResetPassword
      (Reply 200 (StatusBody ''ok'')) (init_state (use_auth Map.empty Guest None ''/example/reset-password'' [])) =
   emit (RouterPush ''/example/login?reset=b2s='' None) (init_state (use_auth Map.empty Guest None ''/example/reset-password'' []))"
proof -
  have "post_resolved (use_auth Map.empty Guest None ''/example/reset-password'' []) ResetPassword
      (Reply 200 (StatusBody ''ok'')) (init_state (use_auth Map.empty Guest None ''/example/reset-password'' [])) =
    emit (RouterPush (loginUrl (cfg (use_auth Map.empty Guest None ''/example/reset-password'' []))
      @ ''?reset='' @ btoa ''ok'') None) (init_state (use_auth Map.empty Guest None ''/example/reset-password'' []))"
    by (rule post_resolved_reset) simp_all
  also have "loginUrl (cfg (use_auth Map.empty Guest None ''/example/reset-password'' []))
      @ ''?reset='' @ btoa ''ok'' = ''/example/login?reset=b2s=''"
    by (simp add: use_auth_def useAuth_config_def btoa_def b64_digit_def b64_code_def char_of_eq_iff)
  finally show ?thesis .
qed

subsection \<open>Claims about reachable states\<close>

lemma allowed_location_assign:
  "LocationAssign u \<in> allowed_effects ctx \<Longrightarrow> \<exists>n q. u = logout_url (cfg ctx) n q"
  by (auto simp: allowed_effects_def)

lemma allowed_router_push_as:
  "RouterPush u (Some a) \<in> allowed_effects ctx \<Longrightarrow>
     u = logged_redirect_url (redirect_target ctx) \<and> a = redirect_target ctx"
  by (auto simp: allowed_effects_def)

text \<open>
  C8: in every reachable state, every full-page navigation the hook has made goes to a
  URL that starts with the login URL.
\<close>

theorem location_assign_login:
  assumes "reachable ctx s" and "LocationAssign u \<in> set (effects s)"
  shows "prefix (loginUrl (cfg ctx)) u"
proof -
  from assms have "LocationAssign u \<in> allowed_effects ctx"
    using reachable_effects_ok by (auto simp: effects_ok_def)
  then obtain n q where "u = logout_url (cfg ctx) n q" by (blast dest: allowed_location_assign)
  then show ?thesis by (simp add: logout_url_prefix)
qed

theorem location_assign_login_witness:
  "\<exists>t. hook_run (use_auth Map.empty Auth None ''/example/cards'' [])
         [Settle 0 (Reply 401 NoBody), Effect]
         (init_state (use_auth Map.empty Auth None ''/example/cards'' [])) = Some t
     \<and> LocationAssign ''/example/login?next_to=%2Fexample%2Fcards'' \<in> set (effects t)
     \<and> prefix (loginUrl (cfg (use_auth Map.empty Auth None ''/example/cards'' [])))
         ''/example/login?next_to=%2Fexample%2Fcards''"
proof -
  let ?ctx = "use_auth Map.empty Auth None ''/example/cards'' []"
  have "\<exists>t. hook_run ?ctx [Settle 0 (Reply 401 NoBody), Effect] (init_state ?ctx) = Some t
     \<and> LocationAssign ''/example/login?next_to=%2Fexample%2Fcards'' \<in> set (effects t)"
    by (simp add: hook_eval)
  then obtain t where run: "hook_run ?ctx [Settle 0 (Reply 401 NoBody), Effect] (init_state ?ctx) = Some t"
    and mem: "LocationAssign ''/example/login?next_to=%2Fexample%2Fcards'' \<in> set (effects t)"
    by blast
  have "reachable ?ctx t" using run reachable.init by (rule reachable_run)
  then have "prefix (loginUrl (cfg ?ctx)) ''/example/login?next_to=%2Fexample%2Fcards''"
    using mem by (rule location_assign_login)
  with run mem show ?thesis by blast
qed

text \<open>
  C9: every router push the hook makes with an \<open>as\<close> URL is the guest redirect: the
  marked landing URL, shown as the configured landing URL.
\<close>

theorem guest_push_target:
  assumes "reachable ctx s" and "RouterPush u (Some a) \<in> set (effects s)"
  shows "u = logged_redirect_url (redirect_target ctx) \<and> a = redirect_target ctx"
proof -
  from assms have "RouterPush u (Some a) \<in> allowed_effects ctx"
    using reachable_effects_ok by (auto simp: effects_ok_def)
  then show ?thesis by (rule allowed_router_push_as)
qed

theorem guest_push_target_witness:
  "\<exists>t. hook_run (use_auth Map.empty Guest None ''/example/login'' [])
         [Settle 0 (Reply 200 (UserBody \<lparr>user_email = ''a@b.c'', email_verified_at = None\<rparr>)), Effect, Effect]
         (init_state (use_auth Map.empty Guest None ''/example/login'' [])) = Some t
     \<and> RouterPush ''/example?logged=1'' (Some ''/example'') \<in> set (effects t)
     \<and> ''/example?logged=1'' = logged_redirect_url (redirect_target (use_auth Map.empty Guest None ''/example/login'' []))
     \<and> ''/example'' = redirect_target (use_auth Map.empty Guest None ''/example/login'' [])"
proof -
  let ?ctx = "use_auth Map.empty Guest None ''/example/login'' []"
  let ?es = "[Settle 0 (Reply 200 (UserBody \<lparr>user_email = ''a@b.c'', email_verified_at = None\<rparr>)), Effect, Effect]"
  have "\<exists>t. hook_run ?ctx ?es (init_state ?ctx) = Some t
     \<and> RouterPush ''/example?logged=1'' (Some ''/example'') \<in> set (effects t)"
    by (simp add: hook_eval)
  then obtain t where run: "hook_run ?ctx ?es (init_state ?ctx) = Some t"
    and mem: "RouterPush ''/example?logged=1'' (Some ''/example'') \<in> set (effects t)"
    by blast
  have "reachable ?ctx t" using run reachable.init by (rule reachable_run)
  then have "''/example?logged=1'' = logged_redirect_url (redirect_target ?ctx) \<and> ''/example'' = redirect_target ?ctx"
    using mem by (rule guest_push_target)
  with run mem show ?thesis by blast
qed

lemma auth_effect_session:
  "swr_data (auth_effect ctx s) = swr_data s" "swr_error (auth_effect ctx s) = swr_error s"
  by (simp_all add: auth_effect_def Let_def)

lemma no_409_user_fetched: "no_409_error s \<Longrightarrow> no_409_error (user_fetched ctx r s)"
  by (simp add: no_409_error_def user_fetched_def split: sum.split js_error.split option.split prod.split)

lemma no_409_resume: "no_409_error s \<Longrightarrow> no_409_error (resume ctx k r s)"
proof (cases k)
  case KUser
  moreover assume "no_409_error s"
  ultimately show ?thesis by (simp add: resume_def no_409_user_fetched)
next
  case (KCsrf a)
  then have "swr_error (resume ctx k r s) = swr_error s" by (simp add: resume_def session_frame_ops)
  moreover assume "no_409_error s"
  ultimately show ?thesis by (simp add: no_409_error_def)
next
  case (KPost a)
  then have "swr_error (resume ctx k r s) = swr_error s" by (simp add: resume_def session_frame_ops)
  moreover assume "no_409_error s"
  ultimately show ?thesis by (simp add: no_409_error_def)
next
  case (KLogout n q)
  then have "swr_error (resume ctx k r s) = swr_error s" by (simp add: resume_def session_frame_ops)
  moreover assume "no_409_error s"
  ultimately show ?thesis by (simp add: no_409_error_def)
qed

lemma swr_error_step:
  "hook_step ctx e s = Some t \<Longrightarrow> (\<forall>i r. e \<noteq> Settle i r) \<Longrightarrow> swr_error t = swr_error s"
  by (cases e) (auto simp: session_frame_ops auth_effect_session)

lemma no_409_step: "hook_step ctx e s = Some t \<Longrightarrow> no_409_error s \<Longrightarrow> no_409_error t"
proof (cases "\<exists>i r. e = Settle i r")
  case True
  then obtain i r where e: "e = Settle i r" by blast
  assume step: "hook_step ctx e s = Some t" and inv: "no_409_error s"
  from step e have t: "t = settle ctx i r s" by (simp split: if_splits)
  have "no_409_error (s\<lparr>pending := take i (pending s) @ drop (Suc i) (pending s)\<rparr>)"
    using inv by (simp add: no_409_error_def)
  then show ?thesis unfolding t settle_def by (rule no_409_resume)
next
  case False
  assume step: "hook_step ctx e s = Some t" and inv: "no_409_error s"
  from step False have "swr_error t = swr_error s" by (blast intro: swr_error_step)
  with inv show ?thesis by (simp add: no_409_error_def)
qed

text \<open>
  C10: in every reachable state the cached fetch error is never a 409 reply: that status
  is turned into a navigation, not surfaced as an error.
\<close>

theorem swr_error_never_409:
  assumes "reachable ctx s"
  shows "swr_error s \<noteq> Some (AxiosError (Some (409, b)))"
proof -
  from assms have "no_409_error s"
  proof (induction rule: reachable.induct)
    case init
    show ?case by (simp add: no_409_error_def init_state_def)
  next
    case (step s e t)
    then show ?case by (blast intro: no_409_step)
  qed
  then show ?thesis by (auto simp: no_409_error_def)
qed

theorem swr_error_never_409_witness:
  "\<exists>t. hook_run (use_auth Map.empty Auth None ''/example/verify-email'' []) [Settle 0 (Reply 409 NoBody)]
         (init_state (use_auth Map.empty Auth None ''/example/verify-email'' [])) = Some t
     \<and> swr_error t \<noteq> Some (AxiosError (Some (409, NoBody)))"
proof -
  let ?ctx = "use_auth Map.empty Auth None ''/example/verify-email'' []"
  have "\<exists>t. hook_run ?ctx [Settle 0 (Reply 409 NoBody)] (init_state ?ctx) = Some t"
    by (simp add: hook_eval)
  then obtain t where run: "hook_run ?ctx [Settle 0 (Reply 409 NoBody)] (init_state ?ctx) = Some t"
    by blast
  have "reachable ?ctx t" using run reachable.init by (rule reachable_run)
  then have "swr_error t \<noteq> Some (AxiosError (Some (409, NoBody)))" by (rule swr_error_never_409)
  with run show ?thesis by blast
qed

subsection \<open>Claims about runs\<close>

text \<open>
  C2: a successful login reply revalidates the session. Settling the login's post with a
  2xx reply leaves a user fetch as the newest pending promise; when that fetch returns a
  user, the user is the hook's data, the cached error is cleared, and the only request the
  two steps sent is the \<open>GET\<close> of \<open>apiPathUser\<close>.
\<close>

theorem login_success_revalidates:
  assumes "i < length (pending s)" and "pending s ! i = KPost Login"
    and "200 \<le> st" and "st < 300"
  shows "\<exists>t. hook_run ctx [Settle i (Reply st b), Settle (length (pending s) - 1) (Reply 200 (UserBody u))] s = Some t
           \<and> swr_data t = Some u \<and> swr_error t = None
           \<and> effects t = effects s @ [Request GET (apiPathUser (cfg ctx))]"
proof -
  let ?ps = "take i (pending s) @ drop (Suc i) (pending s)"
  let ?s1 = "mutate ctx (s\<lparr>pending := ?ps\<rparr>)"
  have s1: "settle ctx i (Reply st b) s = ?s1"
    using assms(2-4) by (simp add: settle_def resume_def post_resolved_def)
  have p1: "pending ?s1 = ?ps @ [KUser]" by (simp add: mutate_def send_def)
  have len: "length ?ps = length (pending s) - 1" using assms(1) by simp
  have "pending ?s1 ! length ?ps = KUser" unfolding p1 by (rule nth_append_length)
  moreover have "length ?ps < length (pending ?s1)" unfolding p1 by simp
  ultimately have idx: "length (pending s) - 1 < length (pending ?s1) \<and> pending ?s1 ! (length (pending s) - 1) = KUser"
    by (simp only: len)
  let ?t = "settle ctx (length (pending s) - 1) (Reply 200 (UserBody u)) ?s1"
  have "hook_run ctx [Settle i (Reply st b), Settle (length (pending s) - 1) (Reply 200 (UserBody u))] s = Some ?t"
    using assms(1) s1 idx by simp
  moreover have "swr_data ?t = Some u \<and> swr_error ?t = None \<and> effects ?t = effects s @ [Request GET (apiPathUser (cfg ctx))]"
    using idx by (simp add: settle_def resume_def user_fetched_def body_user_def mutate_def send_def)
  ultimately show ?thesis by blast
qed

theorem login_success_revalidates_witness:
  "\<exists>t. hook_run (use_auth Map.empty Guest None ''/example/login'' [])
         [Settle 1 (Reply 204 NoBody), Settle 1 (Reply 200 (UserBody \<lparr>user_email = ''a@b.c'', email_verified_at = None\<rparr>))]
         (settle (use_auth Map.empty Guest None ''/example/login'' []) 1 (Reply 204 NoBody)
            (invoke (use_auth Map.empty Guest None ''/example/login'' []) Login
               (init_state (use_auth Map.empty Guest None ''/example/login'' [])))) = Some t
     \<and> swr_data t = Some \<lparr>user_email = ''a@b.c'', email_verified_at = None\<rparr> \<and> swr_error t = None"
proof -
  let ?ctx = "use_auth Map.empty Guest None ''/example/login'' []"
  let ?s = "settle ?ctx 1 (Reply 204 NoBody) (invoke ?ctx Login (init_state ?ctx))"
  have i: "1 < length (pending ?s)" and k: "pending ?s ! 1 = KPost Login" and n: "length (pending ?s) - 1 = 1"
    by (simp_all add: hook_eval)
  have c: "200 \<le> (204::nat)" "(204::nat) < 300" by simp_all
  show ?thesis
    using login_success_revalidates [OF i k c, where b = NoBody and ctx = ?ctx
        and u = "\<lparr>user_email = ''a@b.c'', email_verified_at = None\<rparr>"]
    unfolding n by blast
qed

text \<open>
  C11: a logout whose post succeeds first revalidates the session and then leaves the
  page: calling \<open>logout\<close> with no cached error and settling its post with a 2xx reply
  sends the post, then the user fetch of \<open>mutate()\<close>, then assigns the login URL with
  the return target, in that order, and leaves the user fetch pending.
\<close>

theorem logout_success_revalidates_then_navigates:
  assumes "swr_error s = None" and "axios_result r = Inr b"
  shows "\<exists>t. hook_run ctx [CallLogout n q, Settle (length (pending s)) r] s = Some t
           \<and> effects t = effects s @ [Request POST (apiPathLogout (cfg ctx)), Request GET (apiPathUser (cfg ctx)),
                                     LocationAssign (logout_url (cfg ctx) n q)]
           \<and> pending t = pending s @ [KUser]"
  using assms by (simp add: logout_def send_def settle_def resume_def logout_resumed_def mutate_def emit_def)

theorem logout_success_revalidates_then_navigates_witness:
  "\<exists>t. hook_run (use_auth Map.empty Auth None ''/example/dashboard'' []) [CallLogout (Some ''/example/cards'') None, Settle 1 (Reply 204 NoBody)]
         (init_state (use_auth Map.empty Auth None ''/example/dashboard'' [])) = Some t
     \<and> effects t = [Request GET ''/api/user'', Request POST ''/logout'', Request GET ''/api/user'',
                    LocationAssign ''/example/login?next_to=%2Fexample%2Fcards'']"
proof -
  let ?ctx = "use_auth Map.empty Auth None ''/example/dashboard'' []"
  have e: "swr_error (init_state ?ctx) = None" and r: "axios_result (Reply 204 NoBody) = Inr NoBody"
    and l: "length (pending (init_state ?ctx)) = 1" by (simp_all add: init_state_def axios_result_def)
  obtain t where run: "hook_run ?ctx [CallLogout (Some ''/example/cards'') None, Settle 1 (Reply 204 NoBody)]
         (init_state ?ctx) = Some t"
    and eff: "effects t = effects (init_state ?ctx) @ [Request POST (apiPathLogout (cfg ?ctx)),
         Request GET (apiPathUser (cfg ?ctx)), LocationAssign (logout_url (cfg ?ctx) (Some ''/example/cards'') None)]"
    using logout_success_revalidates_then_navigates [OF e r, where ctx = ?ctx and n = "Some ''/example/cards''" and q = None]
    unfolding l by blast
  have "effects t = [Request GET ''/api/user'', Request POST ''/logout'', Request GET ''/api/user'',
                    LocationAssign ''/example/login?next_to=%2Fexample%2Fcards'']"
    unfolding eff by (simp add: hook_eval)
  with run show ?thesis by blast
qed

text \<open>
  C14: \<open>logout\<close> awaits its post before it navigates. Calling it with no cached error
  and settling the post with a failure sends the post and rejects with the failure:
  there is no navigation, no revalidation, and nothing is left pending.
\<close>

theorem logout_failure_no_navigation:
  assumes "swr_error s = None" and "axios_result r = Inl e"
  shows "\<exists>t. hook_run ctx [CallLogout n q, Settle (length (pending s)) r] s = Some t
           \<and> effects t = effects s @ [Request POST (apiPathLogout (cfg ctx)), Unhandled e]
           \<and> pending t = pending s \<and> swr_data t = swr_data s"
  using assms by (simp add: logout_def send_def settle_def resume_def logout_resumed_def emit_def)

theorem logout_failure_no_navigation_witness:
  "\<exists>t. hook_run (use_auth Map.empty Auth None ''/example/dashboard'' []) [CallLogout (Some ''/example/cards'') None, Settle 1 (Reply 419 NoBody)]
         (init_state (use_auth Map.empty Auth None ''/example/dashboard'' [])) = Some t
     \<and> effects t = [Request GET ''/api/user'', Request POST ''/logout'', Unhandled (AxiosError (Some (419, NoBody)))]"
proof -
  let ?ctx = "use_auth Map.empty Auth None ''/example/dashboard'' []"
  have e: "swr_error (init_state ?ctx) = None"
    and r: "axios_result (Reply 419 NoBody) = Inl (AxiosError (Some (419, NoBody)))"
    and l: "length (pending (init_state ?ctx)) = 1" by (simp_all add: init_state_def axios_result_def)
  obtain t where run: "hook_run ?ctx [CallLogout (Some ''/example/cards'') None, Settle 1 (Reply 419 NoBody)]
         (init_state ?ctx) = Some t"
    and eff: "effects t = effects (init_state ?ctx) @ [Request POST (apiPathLogout (cfg ?ctx)),
         Unhandled (AxiosError (Some (419, NoBody)))]"
    using logout_failure_no_navigation [OF e r, where ctx = ?ctx and n = "Some ''/example/cards''" and q = None]
    unfolding l by blast
  have "effects t = [Request GET ''/api/user'', Request POST ''/logout'', Unhandled (AxiosError (Some (419, NoBody)))]"
    unfolding eff by (simp add: hook_eval)
  with run show ?thesis by blast
qed

text \<open>
  C15: the form actions clear the page's errors only after \<open>await csrf()\<close>. Calling
  one and settling the CSRF request with a failure sends only the CSRF request and
  rejects: the errors and status of the previous attempt stay on screen.
\<close>

theorem csrf_failure_keeps_errors:
  assumes "a \<noteq> ResendVerification" and "axios_result r = Inl e"
  shows "\<exists>t. hook_run ctx [Call a, Settle (length (pending s)) r] s = Some t
           \<and> form_errors t = form_errors s \<and> form_status t = form_status s
           \<and> effects t = effects s @ [Request GET (csrf_target ctx), Unhandled e]
           \<and> pending t = pending s"
  using assms by (simp add: invoke_def send_def settle_def resume_def csrf_resumed_def emit_def)

theorem csrf_failure_keeps_errors_witness:
  "\<exists>t. hook_run (use_auth Map.empty Guest None ''/example/login'' []) [Call Login, Settle 1 NoReply]
         ((init_state (use_auth Map.empty Guest None ''/example/login'' []))\<lparr>form_errors := [''These credentials do not match our records.'']\<rparr>) = Some t
     \<and> form_errors t = [''These credentials do not match our records.'']"
proof -
  let ?s = "(init_state (use_auth Map.empty Guest None ''/example/login'' []))\<lparr>form_errors := [''These credentials do not match our records.'']\<rparr>"
  have a: "Login \<noteq> ResendVerification" and r: "axios_result NoReply = Inl (AxiosError None)"
    by (simp_all add: axios_result_def)
  have l: "length (pending ?s) = 1" by (simp add: init_state_def)
  obtain t where run: "hook_run (use_auth Map.empty Guest None ''/example/login'' []) [Call Login, Settle 1 NoReply] ?s = Some t"
    and e: "form_errors t = form_errors ?s"
    using csrf_failure_keeps_errors [OF a r, where ctx = "use_auth Map.empty Guest None ''/example/login'' []" and s = ?s]
    unfolding l by blast
  have "form_errors t = [''These credentials do not match our records.'']" unfolding e by simp
  with run show ?thesis by blast
qed

text \<open>
  C16: replies are applied in the order they arrive, not the order of the submissions.
  From any state, two forgot-password submissions whose posts are answered in reverse
  order (the second with success, then the first with a 422) leave the page with the
  second one's status and the first one's validation messages side by side.
\<close>

theorem forgot_password_stale_errors:
  assumes "axios_result r1 = Inr b1" and "axios_result r2 = Inr b2" and "axios_result r = Inr b"
  shows "\<exists>t. hook_run ctx
           [Call ForgotPassword, Call ForgotPassword,
            Settle (length (pending s)) r1, Settle (length (pending s)) r2,
            Settle (Suc (length (pending s))) r, Settle (length (pending s)) (Reply 422 (ErrorsBody errs))] s = Some t
           \<and> form_errors t = validation_messages errs \<and> form_status t = body_status b"
  using assms by (simp add: invoke_def send_def settle_def resume_def csrf_resumed_def post_resolved_def
      reject_form_def catch_422_def axios_result_def nth_append)

theorem forgot_password_stale_errors_witness:
  "\<exists>t. hook_run (use_auth Map.empty Guest None ''/example/forgot-password'' [])
         [Call ForgotPassword, Call ForgotPassword, Settle 1 (Reply 204 NoBody), Settle 1 (Reply 204 NoBody),
          Settle 2 (Reply 200 (StatusBody ''We have emailed your password reset link!'')),
          Settle 1 (Reply 422 (ErrorsBody [(''email'', [''Please wait before retrying.''])]))]
         (init_state (use_auth Map.empty Guest None ''/example/forgot-password'' [])) = Some t
     \<and> form_errors t = [''Please wait before retrying.'']
     \<and> form_status t = JStr ''We have emailed your password reset link!''"
proof -
  let ?ctx = "use_auth Map.empty Guest None ''/example/forgot-password'' []"
  have r: "axios_result (Reply 204 NoBody) = Inr NoBody"
    "axios_result (Reply 200 (StatusBody ''We have emailed your password reset link!''))
       = Inr (StatusBody ''We have emailed your password reset link!'')"
    by (simp_all add: axios_result_def)
  have l: "length (pending (init_state ?ctx)) = 1" by (simp add: init_state_def)
  obtain t where run: "hook_run ?ctx
         [Call ForgotPassword, Call ForgotPassword, Settle 1 (Reply 204 NoBody), Settle 1 (Reply 204 NoBody),
          Settle (Suc 1) (Reply 200 (StatusBody ''We have emailed your password reset link!'')),
          Settle 1 (Reply 422 (ErrorsBody [(''email'', [''Please wait before retrying.''])]))]
         (init_state ?ctx) = Some t"
    and e: "form_errors t = validation_messages [(''email'', [''Please wait before retrying.''])]"
    and st: "form_status t = body_status (StatusBody ''We have emailed your password reset link!'')"
    using forgot_password_stale_errors [OF r(1) r(1) r(2), where ctx = ?ctx and s = "init_state ?ctx"
        and errs = "[(''email'', [''Please wait before retrying.''])]"]
    unfolding l by blast
  have "form_errors t = [''Please wait before retrying.'']"
    unfolding e by (simp add: validation_messages_def object_values_def is_array_index_def)
  moreover have "form_status t = JStr ''We have emailed your password reset link!''"
    unfolding st by (simp add: body_status_def)
  moreover have two: "Suc 1 = (2::nat)" by simp
  ultimately show ?thesis using run [unfolded two] by blast
qed

text \<open>
  C30: \<open>resendEmailVerification\<close> has no \<open>.catch\<close>. Calling it posts to the
  verification endpoint at once, and a rejected post (a 422 included) propagates
  unhandled: the page's errors and status are not touched and nothing is left pending.
\<close>

theorem resend_rejection_unhandled:
  assumes "axios_result r = Inl e"
  shows "\<exists>t. hook_run ctx [Call ResendVerification, Settle (length (pending s)) r] s = Some t
           \<and> effects t = effects s @ [Request POST (apiPathVerifyEmail (cfg ctx)), Unhandled e]
           \<and> form_errors t = form_errors s \<and> form_status t = form_status s \<and> pending t = pending s"
  using assms by (simp add: invoke_def send_def settle_def resume_def post_resolved_def emit_def)

theorem resend_rejection_unhandled_witness:
  "\<exists>t. hook_run (use_auth Map.empty Auth None ''/example/verify-email'' [])
         [Call ResendVerification, Settle 1 (Reply 422 (ErrorsBody [(''email'', [''Too many attempts.''])]))]
         (init_state (use_auth Map.empty Auth None ''/example/verify-email'' [])) = Some t
     \<and> effects t = [Request GET ''/api/user'', Request POST ''/email/verification-notification'',
                    Unhandled (AxiosError (Some (422, ErrorsBody [(''email'', [''Too many attempts.''])])))]
     \<and> form_errors t = []"
proof -
  let ?ctx = "use_auth Map.empty Auth None ''/example/verify-email'' []"
  let ?r = "Reply 422 (ErrorsBody [(''email'', [''Too many attempts.''])])"
  have r: "axios_result ?r = Inl (AxiosError (Some (422, ErrorsBody [(''email'', [''Too many attempts.''])])))"
    by (simp add: axios_result_def)
  have l: "length (pending (init_state ?ctx)) = 1" by (simp add: init_state_def)
  obtain t where run: "hook_run ?ctx [Call ResendVerification, Settle 1 ?r] (init_state ?ctx) = Some t"
    and eff: "effects t = effects (init_state ?ctx) @ [Request POST (apiPathVerifyEmail (cfg ?ctx)),
         Unhandled (AxiosError (Some (422, ErrorsBody [(''email'', [''Too many attempts.''])])))]"
    and e: "form_errors t = form_errors (init_state ?ctx)"
    using resend_rejection_unhandled [OF r, where ctx = ?ctx and s = "init_state ?ctx"]
    unfolding l by blast
  have "effects t = [Request GET ''/api/user'', Request POST ''/email/verification-notification'',
                    Unhandled (AxiosError (Some (422, ErrorsBody [(''email'', [''Too many attempts.''])])))]"
    unfolding eff by (simp add: hook_eval)
  moreover have "form_errors t = []" unfolding e by (simp add: init_state_def)
  ultimately show ?thesis using run by blast
qed

text \<open>
  C19: the hook keeps to its contract: in every reachable state, everything it has done
  to the outside world is one of the \<open>allowed_effects\<close>.
\<close>

theorem hook_contract:
  assumes "reachable ctx s"
  shows "set (effects s) \<subseteq> allowed_effects ctx"
  using reachable_effects_ok [OF assms] by (simp add: effects_ok_def)

theorem hook_contract_witness:
  "set (effects (init_state (use_auth Map.empty Guest None ''/example/login'' [])))
     \<subseteq> allowed_effects (use_auth Map.empty Guest None ''/example/login'' [])"
  using reachable.init by (rule hook_contract)

end
