(* ===== verification/Pages.thy ===== *)
theory Pages
  imports Hook
begin

text \<open>
  The pages and components that use the hook (\<open>src/pages/example/*.tsx\<close>,
  \<open>src/example/*\<close>). A page's state is a record holding the hook's state (whose
  \<open>form_errors\<close> and \<open>form_status\<close> are the page's \<open>errors\<close> and \<open>status\<close>, written by
  the hook through \<open>setErrors\<close> and \<open>setStatus\<close>) and the page's own \<open>useState\<close>
  fields. Each \<open>useEffect\<close> is a function on that record, each event handler a
  function that calls the hook, and each render a function to a datatype of what is on
  screen: the loader, or the form with its error banner, status banner and button state.
  React batches the state updates of one event handler, so a handler's \<open>setX(true)\<close>
  followed by \<open>setX(false)\<close> leaves \<open>false\<close>, and the hook's \<open>await\<close> returns to the
  handler before any reply arrives.
\<close>

subsection \<open>Shared pieces\<close>

text \<open>\<open>router.query[k]\<close>.\<close>

definition query_get :: "query \<Rightarrow> js_string \<Rightarrow> qval option" where
  "query_get q k = map_of q k"

text \<open>\<open>errors.length && !submitting ? <h6>{errors[0]}</h6> : ''\<close>\<close>

definition error_banner :: "js_string list \<Rightarrow> bool \<Rightarrow> js_string option" where
  "error_banner errs submitting = (if errs \<noteq> [] \<and> \<not> submitting then Some (hd errs) else None)"

text \<open>\<open>{status && <div>{status}</div>}\<close>\<close>

definition status_banner :: "js_value \<Rightarrow> js_string option" where
  "status_banner v = (case v of JStr t \<Rightarrow> if t \<noteq> [] then Some t else None | _ \<Rightarrow> None)"

subsection \<open>The login page (\<open>login.tsx\<close>)\<close>

record login_page =
  lp_hook :: hook_state
  show_loader :: bool
  submitting :: bool
  email :: js_string
  password :: js_string

definition login_page_init :: "hook_ctx \<Rightarrow> login_page" where
  "login_page_init ctx =
     \<lparr>lp_hook = init_state ctx, show_loader = True, submitting = False, email = [], password = []\<rparr>"

definition set_lp_status :: "js_value \<Rightarrow> login_page \<Rightarrow> login_page" where
  "set_lp_status v p = p\<lparr>lp_hook := (lp_hook p)\<lparr>form_status := v\<rparr>\<rparr>"

text \<open>
  The reset-status effect (lines 29--36): \<open>reset\<close> is the query parameter, or \<open>''\<close>
  when it is missing or empty. With a non-empty \<open>reset\<close> and no errors, the status is
  \<open>atob(reset)\<close>; \<open>atob\<close> throwing inside the effect is an uncaught error of the page
  (\<open>Inl\<close>). An array parameter (\<open>?reset=a&reset=b\<close>) is truthy; its \<open>length\<close> is the
  number of values and \<open>atob\<close> reads it joined by commas.
\<close>

definition login_reset_effect :: "query \<Rightarrow> login_page \<Rightarrow> dom_error + login_page" where
  "login_reset_effect q p =
     (let arg = (case query_get q ''reset'' of
                   Some (QStr r) \<Rightarrow> if r \<noteq> [] then Some r else None
                 | Some (QArr rs) \<Rightarrow> if rs \<noteq> [] then Some (js_join '','' rs) else None
                 | None \<Rightarrow> None)
      in case arg of
           Some r \<Rightarrow>
             if form_errors (lp_hook p) = [] then
               (case atob r of Inl e \<Rightarrow> Inl e | Inr t \<Rightarrow> Inr (set_lp_status (JStr t) p))
             else Inr (set_lp_status JNull p)
         | None \<Rightarrow> Inr (set_lp_status JNull p))"

text \<open>
  The loader effect (lines 38--46): its cleanup sets \<open>showLoader\<close> back to \<open>true\<close>
  before each re-run, and the run clears it when the session is loaded and absent.
\<close>

definition login_loader_effect :: "login_page \<Rightarrow> login_page" where
  "login_loader_effect p =
     p\<lparr>show_loader := \<not> (\<not> loading (lp_hook p) \<and> swr_data (lp_hook p) = None)\<rparr>"

text \<open>\<open>submitForm\<close> (lines 48--54): \<open>login(...)\<close> is not awaited.\<close>

definition login_submit :: "hook_ctx \<Rightarrow> login_page \<Rightarrow> login_page" where
  "login_submit ctx p =
     (let p1 = p\<lparr>submitting := True\<rparr>;
          p2 = p1\<lparr>lp_hook := invoke ctx Login (lp_hook p1)\<rparr>
      in p2\<lparr>submitting := False\<rparr>)"

datatype login_view =
    LoginLoader
  | LoginForm "js_string option" "js_string option" bool js_string
    \<comment> \<open>error banner, status banner, submit button disabled, office image\<close>

definition login_render :: "bool \<Rightarrow> login_page \<Rightarrow> login_view" where
  "login_render dark p =
     (if show_loader p then LoginLoader
      else LoginForm (error_banner (form_errors (lp_hook p)) (submitting p))
                     (status_banner (form_status (lp_hook p)))
                     (submitting p)
                     (if dark then ''/assets/img/login-office-dark.jpeg''
                      else ''/assets/img/login-office.jpeg''))"

subsection \<open>The forgot-password page (\<open>forgot-password.tsx\<close>)\<close>

record forgot_page =
  fp_hook :: hook_state
  fp_submitting :: bool
  fp_email :: js_string

definition forgot_submit :: "hook_ctx \<Rightarrow> forgot_page \<Rightarrow> forgot_page" where
  "forgot_submit ctx p =
     (let p1 = p\<lparr>fp_submitting := True\<rparr>;
          p2 = p1\<lparr>fp_hook := invoke ctx ForgotPassword (fp_hook p1)\<rparr>
      in p2\<lparr>fp_submitting := False\<rparr>)"

datatype forgot_view = ForgotForm "js_string option" "js_string option" bool js_string
  \<comment> \<open>error banner, status banner, recover button disabled, office image\<close>

text \<open>The button: \<open>disabled={submitting || (status !== null && errors.length === 0)}\<close>.\<close>

definition forgot_render :: "bool \<Rightarrow> forgot_page \<Rightarrow> forgot_view" where
  "forgot_render dark p =
     ForgotForm (error_banner (form_errors (fp_hook p)) (fp_submitting p))
                (status_banner (form_status (fp_hook p)))
                (fp_submitting p \<or> (form_status (fp_hook p) \<noteq> JNull \<and> form_errors (fp_hook p) = []))
                (if dark then ''/assets/img/forgot-password-office-dark.jpeg''
                 else ''/assets/img/forgot-password-office.jpeg'')"

subsection \<open>The verify-email page (\<open>verify-email.tsx\<close>)\<close>

record verify_page =
  vp_hook :: hook_state
  vp_submitting :: bool

text \<open>
  The effect without dependencies (lines 23--27) runs after every render: a user with a
  truthy \<open>email_verified_at\<close> and no errors is sent to \<open>redirectedUrl\<close>.
\<close>

definition verify_effect :: "hook_ctx \<Rightarrow> verify_page \<Rightarrow> verify_page" where
  "verify_effect ctx p =
     (if form_errors (vp_hook p) = []
         \<and> (case swr_data (vp_hook p) of Some u \<Rightarrow> js_truthy (email_verified_at u) | None \<Rightarrow> False)
      then p\<lparr>vp_hook := emit (RouterPush (redirectedUrl (cfg ctx)) None) (vp_hook p)\<rparr>
      else p)"

definition verify_resend_click :: "hook_ctx \<Rightarrow> verify_page \<Rightarrow> verify_page" where
  "verify_resend_click ctx p =
     (let p1 = p\<lparr>vp_submitting := True\<rparr>;
          p2 = p1\<lparr>vp_hook := invoke ctx ResendVerification (vp_hook p1)\<rparr>
      in p2\<lparr>vp_submitting := False\<rparr>)"

text \<open>The logout button: \<open>onClick={() => logout()}\<close>, with no return target.\<close>

definition verify_logout_click :: "hook_ctx \<Rightarrow> verify_page \<Rightarrow> verify_page" where
  "verify_logout_click ctx p = p\<lparr>vp_hook := logout ctx None None (vp_hook p)\<rparr>"

datatype verify_view = VerifyLoader | VerifyPanel "js_string option" bool bool
  \<comment> \<open>error banner, link-sent notice shown, resend button disabled\<close>

definition verify_render :: "verify_page \<Rightarrow> verify_view" where
  "verify_render p =
     (if loading (vp_hook p) \<or> swr_data (vp_hook p) \<noteq> None then VerifyLoader
      else VerifyPanel (error_banner (form_errors (vp_hook p)) (vp_submitting p))
                       (form_status (vp_hook p) = JStr ''verification-link-sent'')
                       (vp_submitting p \<or> form_status (vp_hook p) = JStr ''verification-link-sent''))"

subsection \<open>The layout of the dashboard pages (\<open>Layout.tsx\<close>)\<close>

record layout_page =
  ly_hook :: hook_state
  ly_show_loader :: bool

definition layout_effect :: "layout_page \<Rightarrow> layout_page" where
  "layout_effect p =
     p\<lparr>ly_show_loader := \<not> (\<not> loading (ly_hook p) \<and> swr_data (ly_hook p) \<noteq> None)\<rparr>"

datatype layout_view = LayoutLoader | LayoutContent "user option"
  \<comment> \<open>the header's \<open>user\<close> prop; the code renders the content whatever it holds\<close>

definition layout_render :: "layout_page \<Rightarrow> layout_view" where
  "layout_render p =
     (if ly_show_loader p then LayoutLoader else LayoutContent (swr_data (ly_hook p)))"

subsection \<open>The modals page (\<open>modals.tsx\<close>)\<close>

record modals_page =
  is_modal_open :: bool

definition openModal :: "modals_page \<Rightarrow> modals_page" where
  "openModal p = p\<lparr>is_modal_open := True\<rparr>"

definition closeModal :: "modals_page \<Rightarrow> modals_page" where
  "closeModal p = p\<lparr>is_modal_open := False\<rparr>"

subsection \<open>The call-to-action banner (\<open>CTA.tsx\<close>)\<close>

datatype cta_view = CtaView bool js_string "js_string option"
  \<comment> \<open>icon shown, message, link text when there is a URL\<close>

definition cta_render :: "js_string option \<Rightarrow> bool \<Rightarrow> js_string \<Rightarrow> js_string option \<Rightarrow> cta_view" where
  "cta_render url icon message text =
     CtaView icon message (if js_truthy url then Some (js_or text ''View more'') else None)"

text \<open>The banner the cards and modals pages put above their content.\<close>

definition star_cta :: cta_view where
  "star_cta = cta_render (Some ''https://github.com/roketid/windmill-nextjs-laravel-breeze'') True
                ''Star this project on GitHub'' None"

subsection \<open>The cards page (\<open>cards.tsx\<close>)\<close>

text \<open>
  The page is static content inside the dashboard layout: the loader until the layout
  shows its content, then the header's user, the banner, four info cards (title and
  value) and two cards with a title.
\<close>

datatype info_card = InfoCard js_string js_string

datatype cards_view =
    CardsLoader
  | CardsPage "user option" cta_view "info_card list" "js_string list"

definition cards_render :: "layout_page \<Rightarrow> cards_view" where
  "cards_render ly =
     (case layout_render ly of
        LayoutLoader \<Rightarrow> CardsLoader
      | LayoutContent u \<Rightarrow>
          CardsPage u star_cta
            [InfoCard ''Total clients'' ''6389'', InfoCard ''Account balance'' ''$ 46,760.89'',
             InfoCard ''New sales'' ''376'', InfoCard ''Pending contacts'' ''35'']
            [''Revenue'', ''Colored card''])"

subsection \<open>The modals page inside the layout\<close>

text \<open>
  The buttons of \<open>modals.tsx\<close>: \<open>Open modal\<close> calls \<open>openModal\<close>, both \<open>Cancel\<close> buttons
  and the modal's \<open>onClose\<close> call \<open>closeModal\<close>, and both \<open>Accept\<close> buttons have no handler.
\<close>

datatype modal_button = OpenButton | CancelButton | AcceptButton | ModalClose

definition modals_click :: "modal_button \<Rightarrow> modals_page \<Rightarrow> modals_page" where
  "modals_click b p =
     (case b of
        OpenButton \<Rightarrow> openModal p
      | CancelButton \<Rightarrow> closeModal p
      | AcceptButton \<Rightarrow> p
      | ModalClose \<Rightarrow> closeModal p)"

datatype modals_view = ModalsLoader | ModalsPage "user option" cta_view bool
  \<comment> \<open>header user, banner, modal open\<close>

definition modals_render :: "layout_page \<Rightarrow> modals_page \<Rightarrow> modals_view" where
  "modals_render ly p =
     (case layout_render ly of
        LayoutLoader \<Rightarrow> ModalsLoader
      | LayoutContent u \<Rightarrow> ModalsPage u star_cta (is_modal_open p))"

subsection \<open>Properties of the pages\<close>

text \<open>
  C6: the reset status survives its trip through the URL: when the login page's \<open>reset\<close>
  parameter holds \<open>btoa(t)\<close> of a non-empty status \<open>t\<close> (what \<open>resetPassword\<close> pushes) and
  there are no errors, the reset effect shows \<open>t\<close> as the page's status.
\<close>

theorem login_reset_status_roundtrip:
  assumes "query_get q ''reset'' = Some (QStr (btoa t))" and "t \<noteq> []"
    and "form_errors (lp_hook p) = []"
  shows "login_reset_effect q p = Inr (set_lp_status (JStr t) p)"
proof -
  have "btoa t \<noteq> []" using assms(2) by (rule btoa_nonempty)
  then show ?thesis using assms by (simp add: login_reset_effect_def atob_btoa)
qed

theorem login_reset_status_roundtrip_witness:
  "login_reset_effect [(''reset'', QStr ''b2s='')] (login_page_init (use_auth Map.empty Guest None ''/example/login'' []))
     = Inr (set_lp_status (JStr ''ok'') (login_page_init (use_auth Map.empty Guest None ''/example/login'' [])))"
proof -
  have b: "btoa ''ok'' = ''b2s=''" by (simp add: btoa_def b64_digit_def b64_code_def char_of_eq_iff)
  have "login_reset_effect [(''reset'', QStr (btoa ''ok''))] (login_page_init (use_auth Map.empty Guest None ''/example/login'' []))
     = Inr (set_lp_status (JStr ''ok'') (login_page_init (use_auth Map.empty Guest None ''/example/login'' [])))"
    by (rule login_reset_status_roundtrip) (simp_all add: query_get_def login_page_init_def init_state_def)
  then show ?thesis by (simp only: b)
qed

text \<open>
  C21: \<open>submitForm\<close> does not await \<open>login\<close>, so right after a submission the CSRF
  request is pending and the submit button is enabled again: a second click submits again.
\<close>

theorem login_submit_leaves_form_enabled:
  assumes "\<not> show_loader p"
  shows "pending (lp_hook (login_submit ctx p)) = pending (lp_hook p) @ [KCsrf Login]
         \<and> (\<exists>eb sb img. login_render dark (login_submit ctx p) = LoginForm eb sb False img)"
  using assms by (simp add: login_submit_def login_render_def invoke_def send_def)

theorem login_submit_leaves_form_enabled_witness:
  "pending (lp_hook (login_submit (use_auth Map.empty Guest None ''/example/login'' [])
      ((login_page_init (use_auth Map.empty Guest None ''/example/login'' []))\<lparr>show_loader := False\<rparr>)))
     = [KUser, KCsrf Login]
   \<and> (\<exists>eb sb img. login_render False (login_submit (use_auth Map.empty Guest None ''/example/login'' [])
      ((login_page_init (use_auth Map.empty Guest None ''/example/login'' []))\<lparr>show_loader := False\<rparr>))
        = LoginForm eb sb False img)"
proof -
  let ?ctx = "use_auth Map.empty Guest None ''/example/login'' []"
  let ?p = "(login_page_init ?ctx)\<lparr>show_loader := False\<rparr>"
  have "\<not> show_loader ?p" by simp
  note th = login_submit_leaves_form_enabled [OF this, of ?ctx False]
  have "pending (lp_hook ?p) = [KUser]" by (simp add: login_page_init_def init_state_def)
  with th show ?thesis by simp
qed

text \<open>
  C22: after a 422 reply to a login, the login page shows the first validation message
  in its error banner, with the button enabled.
\<close>

theorem login_422_first_message:
  assumes "\<not> show_loader p" and "\<not> submitting p" and "validation_messages errs = m # ms"
  shows "\<exists>sb img. login_render dark (p\<lparr>lp_hook := post_resolved ctx Login (Reply 422 (ErrorsBody errs)) (lp_hook p)\<rparr>)
           = LoginForm (Some m) sb False img"
  using assms
  by (simp add: login_render_def post_resolved_def reject_form_def catch_422_def error_banner_def)

theorem login_422_first_message_witness:
  "\<exists>sb img. login_render False
      (((login_page_init (use_auth Map.empty Guest None ''/example/login'' []))\<lparr>show_loader := False\<rparr>)
        \<lparr>lp_hook := post_resolved (use_auth Map.empty Guest None ''/example/login'' []) Login
           (Reply 422 (ErrorsBody [(''email'', [''The email field is required.''])]))
           (lp_hook ((login_page_init (use_auth Map.empty Guest None ''/example/login'' []))\<lparr>show_loader := False\<rparr>))\<rparr>)
      = LoginForm (Some ''The email field is required.'') sb False img"
proof (rule login_422_first_message)
  show "validation_messages [(''email'', [''The email field is required.''])] = ''The email field is required.'' # []"
    by (simp add: validation_messages_def object_values_def is_array_index_def)
qed (simp_all add: login_page_init_def)

text \<open>
  C23: after a successful forgot-password reply, the recover button is disabled for good,
  whatever the reply's body: a reply without a \<open>status\<close> field disables it with no message.
\<close>

theorem forgot_success_disables_button:
  assumes "200 \<le> st" and "st < 300" and "form_errors (fp_hook p) = []"
  shows "forgot_render dark (p\<lparr>fp_hook := post_resolved ctx ForgotPassword (Reply st b) (fp_hook p)\<rparr>)
           = ForgotForm None (status_banner (body_status b)) True
               (if dark then ''/assets/img/forgot-password-office-dark.jpeg''
                else ''/assets/img/forgot-password-office.jpeg'')"
proof -
  have "body_status b \<noteq> JNull" by (simp add: body_status_def split: body.split)
  then show ?thesis using assms by (simp add: forgot_render_def post_resolved_def error_banner_def)
qed

theorem forgot_success_disables_button_witness:
  "forgot_render False (\<lparr>fp_hook = init_state (use_auth Map.empty Guest None ''/example/forgot-password'' []),
       fp_submitting = False, fp_email = ''a@b.c''\<rparr>
     \<lparr>fp_hook := post_resolved (use_auth Map.empty Guest None ''/example/forgot-password'' []) ForgotPassword
        (Reply 200 NoBody) (init_state (use_auth Map.empty Guest None ''/example/forgot-password'' []))\<rparr>)
   = ForgotForm None None True ''/assets/img/forgot-password-office.jpeg''"
proof -
  have "forgot_render False (\<lparr>fp_hook = init_state (use_auth Map.empty Guest None ''/example/forgot-password'' []),
       fp_submitting = False, fp_email = ''a@b.c''\<rparr>
     \<lparr>fp_hook := post_resolved (use_auth Map.empty Guest None ''/example/forgot-password'' []) ForgotPassword
        (Reply 200 NoBody) (fp_hook \<lparr>fp_hook = init_state (use_auth Map.empty Guest None ''/example/forgot-password'' []),
       fp_submitting = False, fp_email = ''a@b.c''\<rparr>)\<rparr>)
   = ForgotForm None (status_banner (body_status NoBody)) True
        (if False then ''/assets/img/forgot-password-office-dark.jpeg'' else ''/assets/img/forgot-password-office.jpeg'')"
    by (rule forgot_success_disables_button) (simp_all add: init_state_def)
  then show ?thesis by (simp add: body_status_def status_banner_def)
qed

text \<open>
  C25: the resend button posts to the verification endpoint at once, without priming the
  CSRF cookie as the other actions do, and its \<open>submitting\<close> flag is already false again.
\<close>

theorem verify_resend_skips_csrf:
  "effects (vp_hook (verify_resend_click ctx p))
     = effects (vp_hook p) @ [Request POST (apiPathVerifyEmail (cfg ctx))]
   \<and> \<not> vp_submitting (verify_resend_click ctx p)"
  by (simp add: verify_resend_click_def invoke_def send_def)

text \<open>
  Once its effect has run, the dashboard layout shows its content, with header user
  \<open>u\<close>, exactly when the session has loaded and the cached user is \<open>u\<close>, a user;
  otherwise it shows the loader.
\<close>

theorem layout_content_iff:
  "layout_render (layout_effect p) = LayoutContent u \<longleftrightarrow>
     \<not> loading (ly_hook p) \<and> u \<noteq> None \<and> swr_data (ly_hook p) = u"
  by (auto simp: layout_render_def layout_effect_def)

end
