(* ===== verification/Query.thy ===== *)
theory Query
  imports Pages
begin

text \<open>
  How a page reads the URL it was navigated to: Next's \<open>router.query\<close> for a pushed URL.
  Next takes the search part of the URL (after the first \<open>?\<close>, before the fragment),
  parses it with \<open>URLSearchParams\<close> (the \<open>application/x-www-form-urlencoded\<close> parser:
  split on \<open>&\<close>, skip empty pieces, split each at its first \<open>=\<close>, turn \<open>+\<close> into a space,
  then percent-decode), and gathers repeated keys into arrays
  (\<open>searchParamsToUrlQuery\<close>). Percent-decoded bytes are read as 8-bit characters, so
  the decoding agrees with the browser on ASCII text, which is what the theorems use.
  With this the two URLs the hook builds for another page can be followed to that page:
  \<open>?reset=\<close> to the login page's reset effect, and \<open>?next_to=\<close> to the login page's
  redirect target.
\<close>

definition url_search :: "url \<Rightarrow> js_string" where
  "url_search u =
     (let u' = takeWhile (\<lambda>c. c \<noteq> CHR ''#'') u in drop 1 (dropWhile (\<lambda>c. c \<noteq> CHR ''?'') u'))"

text \<open>\<open>s.split(d)\<close>: the pieces between the delimiters, empty ones included.\<close>

fun js_split :: "char \<Rightarrow> js_string \<Rightarrow> js_string list" where
  "js_split d [] = [[]]"
| "js_split d (c # cs) =
     (if c = d then [] # js_split d cs else (let ws = js_split d cs in (c # hd ws) # tl ws))"

definition hex_val :: "char \<Rightarrow> nat option" where
  "hex_val c =
     (let n = (of_char c :: nat) in
      if 48 \<le> n \<and> n \<le> 57 then Some (n - 48)
      else if 65 \<le> n \<and> n \<le> 70 then Some (n - 55)
      else if 97 \<le> n \<and> n \<le> 102 then Some (n - 87)
      else None)"

text \<open>Percent-decoding: \<open>%\<close> and two hex digits give the byte; anything else stays.\<close>

fun percent_decode :: "js_string \<Rightarrow> js_string" where
  "percent_decode (c # h1 # h2 # rest) =
     (case (hex_val h1, hex_val h2) of
        (Some a, Some b) \<Rightarrow>
          if c = CHR ''%'' then char_of (16 * a + b) # percent_decode rest
          else c # percent_decode (h1 # h2 # rest)
      | _ \<Rightarrow> c # percent_decode (h1 # h2 # rest))"
| "percent_decode cs = cs"

definition plus_to_space :: "char \<Rightarrow> char" where
  "plus_to_space c = (if c = CHR ''+'' then CHR '' '' else c)"

definition form_decode :: "js_string \<Rightarrow> js_string" where
  "form_decode s = percent_decode (map plus_to_space s)"

text \<open>One \<open>name=value\<close> piece: split at the first \<open>=\<close>; without one the value is empty.\<close>

definition form_pair :: "js_string \<Rightarrow> js_string \<times> js_string" where
  "form_pair w =
     (form_decode (takeWhile (\<lambda>c. c \<noteq> CHR ''='') w),
      form_decode (drop 1 (dropWhile (\<lambda>c. c \<noteq> CHR ''='') w)))"

definition parse_search :: "js_string \<Rightarrow> (js_string \<times> js_string) list" where
  "parse_search q = map form_pair (filter (\<lambda>w. w \<noteq> []) (js_split CHR ''&'' q))"

text \<open>
  \<open>searchParamsToUrlQuery\<close>: the first value of a key is stored as a string, a second
  one turns it into an array \<open>[first, value]\<close>, and later ones are pushed onto the array.
\<close>

fun push_val :: "qval option \<Rightarrow> js_string \<Rightarrow> qval" where
  "push_val None v = QStr v"
| "push_val (Some (QStr a)) v = QArr [a, v]"
| "push_val (Some (QArr as)) v = QArr (as @ [v])"

fun add_param :: "query \<Rightarrow> js_string \<times> js_string \<Rightarrow> query" where
  "add_param [] (k, v) = [(k, push_val None v)]"
| "add_param ((k', x) # q) (k, v) =
     (if k' = k then (k, push_val (Some x) v) # q else (k', x) # add_param q (k, v))"

definition router_query :: "url \<Rightarrow> query" where
  "router_query u = foldl add_param [] (parse_search (url_search u))"

text \<open>
  The login page's hook (\<open>login.tsx\<close> lines 17--21): \<open>useAuth({middleware: 'guest',
  redirectIfAuthenticated: query.next_to as string})\<close>. The cast is unchecked: when the URL
  repeats \<open>next_to\<close>, \<open>query.next_to\<close> is an array, and the hook then runs its string
  operations (\<open>indexOf\<close>, concatenation) on an array. That case is outside the string
  model and is \<open>None\<close>.
\<close>

definition login_ctx :: "env \<Rightarrow> url \<Rightarrow> query \<Rightarrow> hook_ctx option" where
  "login_ctx env path q =
     (case query_get q ''next_to'' of
        None \<Rightarrow> Some (use_auth env Guest None path q)
      | Some (QStr t) \<Rightarrow> Some (use_auth env Guest (Some t) path q)
      | Some (QArr ts) \<Rightarrow> None)"

lemma takeWhile_upto: "c \<notin> set k \<Longrightarrow> takeWhile (\<lambda>x. x \<noteq> c) (k @ c # v) = k"
  by (induction k) auto

lemma dropWhile_upto: "c \<notin> set k \<Longrightarrow> dropWhile (\<lambda>x. x \<noteq> c) (k @ c # v) = c # v"
  by (induction k) auto

lemma url_search_append:
  assumes "CHR ''?'' \<notin> set l" and "CHR ''#'' \<notin> set l" and "CHR ''#'' \<notin> set q"
  shows "url_search (l @ ''?'' @ q) = q"
proof -
  have t: "takeWhile (\<lambda>c. c \<noteq> CHR ''#'') (l @ ''?'' @ q) = l @ ''?'' @ q"
    using assms by (auto simp: takeWhile_eq_all_conv)
  have d: "dropWhile (\<lambda>c. c \<noteq> CHR ''?'') (l @ ''?'' @ q) = ''?'' @ q"
    using assms(1) by (simp add: dropWhile_upto)
  show ?thesis by (simp only: url_search_def Let_def t d) simp
qed

lemma js_split_no_delim: "d \<notin> set s \<Longrightarrow> js_split d s = [s]"
  by (induction s) (auto simp: Let_def)

lemma percent_decode_no_pct: "CHR ''%'' \<notin> set s \<Longrightarrow> percent_decode s = s"
  by (induction s rule: percent_decode.induct) (auto split: option.split)

lemma form_decode_plain: "CHR ''+'' \<notin> set s \<Longrightarrow> CHR ''%'' \<notin> set s \<Longrightarrow> form_decode s = s"
proof -
  assume "CHR ''+'' \<notin> set s" and pct: "CHR ''%'' \<notin> set s"
  then have "map plus_to_space s = s" by (auto simp: plus_to_space_def intro: map_idI)
  with pct show ?thesis by (simp add: form_decode_def percent_decode_no_pct)
qed

text \<open>A URL whose search is one \<open>key=value\<close> pair with a plain value gives that pair.\<close>

lemma router_query_single:
  assumes "CHR ''?'' \<notin> set l" and "CHR ''#'' \<notin> set l"
    and "set k \<inter> set ''=&#+%'' = {}" and "k \<noteq> []" and "set v \<inter> set ''&#'' = {}"
  shows "router_query (l @ ''?'' @ k @ ''='' @ v) = [(k, QStr (form_decode v))]"
proof -
  have s: "url_search (l @ ''?'' @ k @ ''='' @ v) = k @ ''='' @ v"
    using assms by (intro url_search_append) auto
  have "js_split CHR ''&'' (k @ ''='' @ v) = [k @ ''='' @ v]"
    using assms by (intro js_split_no_delim) auto
  moreover have "form_pair (k @ ''='' @ v) = (k, form_decode v)"
    using assms by (auto simp: form_pair_def takeWhile_upto dropWhile_upto form_decode_plain)
  ultimately show ?thesis using assms(4) s by (simp add: router_query_def parse_search_def)
qed

lemma b64_code_url_plain: "b64_code n \<notin> {35, 37, 38}"
  by (simp add: b64_code_def) arith

lemma b64_digit_url_plain:
  "b64_digit n \<noteq> CHR ''#''" "b64_digit n \<noteq> CHR ''%''" "b64_digit n \<noteq> CHR ''&''"
proof -
  have tb: "take_bit 8 (b64_code n) = b64_code n"
    by (rule take_bit_nat_eq_self) (simp add: b64_code_lt)
  show "b64_digit n \<noteq> CHR ''#''" "b64_digit n \<noteq> CHR ''%''" "b64_digit n \<noteq> CHR ''&''"
    using b64_code_url_plain [of n] by (auto simp: b64_digit_def char_of_eq_iff tb)
qed

lemma b64_encode_url_plain:
  "CHR ''#'' \<notin> set (b64_encode bs) \<and> CHR ''%'' \<notin> set (b64_encode bs) \<and> CHR ''&'' \<notin> set (b64_encode bs)"
  by (induction bs rule: b64_encode.induct) (auto simp: b64_digit_url_plain dest: sym)

lemma btoa_url_plain:
  "CHR ''#'' \<notin> set (btoa t) \<and> CHR ''%'' \<notin> set (btoa t) \<and> CHR ''&'' \<notin> set (btoa t)"
  by (simp add: btoa_def b64_encode_url_plain)

lemma uri_safe_ascii: "uri_safe c \<Longrightarrow> of_char c < (128::nat)"
  by (auto simp: uri_safe_def uri_unreserved_def Let_def)

lemma percent_decode_Cons: "c \<noteq> CHR ''%'' \<Longrightarrow> percent_decode (c # xs) = c # percent_decode xs"
  by (cases xs rule: percent_decode.cases) (auto split: option.split)

lemma hex_val_digit: "n < 16 \<Longrightarrow> hex_val (hex_digit n) = Some n"
  by (auto simp: hex_val_def hex_digit_def Let_def take_bit_nat_eq_self)

lemma plus_not_uri_safe: "\<not> uri_safe CHR ''+''"
  by (simp add: uri_safe_def uri_unreserved_def)

lemma percent_decode_encodeURIComponent:
  "\<forall>x \<in> set s. of_char x < (128::nat) \<Longrightarrow> percent_decode (encodeURIComponent s) = s"
proof (induction s)
  case Nil
  then show ?case by (simp add: encodeURIComponent_def)
next
  case (Cons c s)
  then have IH: "percent_decode (encodeURIComponent s) = s" and c: "of_char c < (128::nat)" by simp_all
  show ?case
  proof (cases "uri_unreserved c")
    case True
    then have "c \<noteq> CHR ''%''" by (auto simp: uri_unreserved_def)
    with True IH show ?thesis
      by (simp add: encodeURIComponent_def enc_char_def percent_decode_Cons)
  next
    case False
    let ?n = "of_char c :: nat"
    have h: "hex_val (hex_digit (?n div 16)) = Some (?n div 16)" "hex_val (hex_digit (?n mod 16)) = Some (?n mod 16)"
      using c by (simp_all add: hex_val_digit)
    have "16 * (?n div 16) + ?n mod 16 = ?n" by simp
    with False c h IH show ?thesis
      by (simp add: encodeURIComponent_def enc_char_def utf8_unit_def pct_byte_def)
  qed
qed

lemma form_decode_encodeURIComponent:
  "\<forall>x \<in> set s. of_char x < (128::nat) \<Longrightarrow> form_decode (encodeURIComponent s) = s"
proof -
  assume a: "\<forall>x \<in> set s. of_char x < (128::nat)"
  have "CHR ''+'' \<notin> set (encodeURIComponent s)"
    using set_encodeURIComponent [of s] plus_not_uri_safe by blast
  then have "map plus_to_space (encodeURIComponent s) = encodeURIComponent s"
    by (auto simp: plus_to_space_def intro: map_idI)
  with a show ?thesis by (simp add: form_decode_def percent_decode_encodeURIComponent)
qed

lemma set_js_join_subset:
  "set sep \<subseteq> S \<Longrightarrow> \<forall>x \<in> set xs. set x \<subseteq> S \<Longrightarrow> set (js_join sep xs) \<subseteq> S"
  by (induction sep xs rule: js_join.induct) auto

lemma set_qs_pair:
  "set (encodeURIComponent k @ ''='' @ encodeURIComponent v) \<subseteq> Collect uri_safe \<union> {CHR ''&'', CHR ''=''}"
  using set_encodeURIComponent [of k] set_encodeURIComponent [of v] by auto

lemma set_qs_field: "set (qs_field k v) \<subseteq> Collect uri_safe \<union> {CHR ''&'', CHR ''=''}"
proof (cases v)
  case (QStr x)
  then show ?thesis using set_qs_pair [of k x] by simp
next
  case (QArr xs)
  show ?thesis unfolding QArr qs_field.simps
  proof (rule set_js_join_subset)
    show "\<forall>x \<in> set (map (\<lambda>v. encodeURIComponent k @ ''='' @ encodeURIComponent v) xs).
            set x \<subseteq> Collect uri_safe \<union> {CHR ''&'', CHR ''=''}"
      using set_qs_pair [of k] by auto
  qed simp
qed

lemma set_qs_stringify: "set (qs_stringify q) \<subseteq> Collect uri_safe \<union> {CHR ''&'', CHR ''=''}"
proof (cases q)
  case (Some kvs)
  have "set (js_join ''&'' (map (\<lambda>(k, v). qs_field k v) kvs)) \<subseteq> Collect uri_safe \<union> {CHR ''&'', CHR ''=''}"
  proof (rule set_js_join_subset)
    show "\<forall>x \<in> set (map (\<lambda>(k, v). qs_field k v) kvs). set x \<subseteq> Collect uri_safe \<union> {CHR ''&'', CHR ''=''}"
      using set_qs_field by auto
  qed simp
  with Some show ?thesis by (simp add: qs_stringify_def)
qed (simp add: qs_stringify_def)

lemma map_of_add_param:
  "map_of (add_param q (k, v)) k' = (if k' = k then Some (push_val (map_of q k) v) else map_of q k')"
  by (induction q) auto

lemma map_of_foldl_add_param:
  "map_of (foldl add_param q kvs) k
     = foldl (\<lambda>acc v. Some (push_val acc v)) (map_of q k) (map snd (filter (\<lambda>kv. fst kv = k) kvs))"
  by (induction kvs arbitrary: q) (auto simp: map_of_add_param)

lemma foldl_push_QArr: "foldl (\<lambda>acc v. Some (push_val acc v)) (Some (QArr as)) vs = Some (QArr (as @ vs))"
  by (induction vs arbitrary: as) simp_all

lemma foldl_push_shape:
  "foldl (\<lambda>acc v. Some (push_val acc v)) None vs =
     (case vs of [] \<Rightarrow> None | [v] \<Rightarrow> Some (QStr v) | v # w # ws \<Rightarrow> Some (QArr (v # w # ws)))"
  by (cases vs rule: remdups_adj.cases) (simp_all add: foldl_push_QArr)

lemma router_query_logout_url:
  assumes keep: "keeps_next c (Some n)" and ascii: "\<forall>x \<in> set n. of_char x < (128::nat)"
    and l: "CHR ''?'' \<notin> set (loginUrl c)" "CHR ''#'' \<notin> set (loginUrl c)"
  shows "router_query (logout_url c (Some n) q)
           = [(''next_to'', QStr (n @ (if qs_stringify q \<noteq> [] then ''?'' @ qs_stringify q else [])))]"
proof -
  let ?w = "n @ (if qs_stringify q \<noteq> [] then ''?'' @ qs_stringify q else [])"
  have aw: "\<forall>x \<in> set ?w. of_char x < (128::nat)"
    using ascii set_qs_stringify [of q] uri_safe_ascii by (auto split: if_splits)
  have safe: "set (encodeURIComponent ?w) \<inter> set ''&#'' = {}"
    using set_encodeURIComponent [of ?w] uri_safe_delims by auto
  have eq: "logout_url c (Some n) q = loginUrl c @ ''?'' @ ''next_to'' @ ''='' @ encodeURIComponent ?w"
    using logout_url_next_to [OF keep] by simp
  have "router_query (logout_url c (Some n) q)
        = [(''next_to'', QStr (form_decode (encodeURIComponent ?w)))]"
    unfolding eq using l safe by (intro router_query_single) auto
  then show ?thesis by (simp only: form_decode_encodeURIComponent [OF aw])
qed

subsection \<open>Following the hook's URLs to the login page\<close>

text \<open>
  C35: the reset status reaches the login page intact when its base64 form has no \<open>+\<close>:
  following \<open>router.push(loginUrl + '?reset=' + btoa(status))\<close> to the login page, its
  reset effect shows the status.
\<close>

theorem reset_status_through_url:
  assumes plus: "CHR ''+'' \<notin> set (btoa t)" and t: "t \<noteq> []"
    and l: "CHR ''?'' \<notin> set (loginUrl c)" "CHR ''#'' \<notin> set (loginUrl c)"
    and e: "form_errors (lp_hook p) = []"
  shows "login_reset_effect (router_query (reset_redirect_url c (StatusBody t))) p
           = Inr (set_lp_status (JStr t) p)"
proof -
  have url: "reset_redirect_url c (StatusBody t) = loginUrl c @ ''?'' @ ''reset'' @ ''='' @ btoa t"
    by (simp add: reset_redirect_url_def)
  have "router_query (reset_redirect_url c (StatusBody t)) = [(''reset'', QStr (form_decode (btoa t)))]"
    unfolding url using l btoa_url_plain [of t] by (intro router_query_single) auto
  also have "form_decode (btoa t) = btoa t"
    using plus btoa_url_plain [of t] by (intro form_decode_plain) auto
  finally show ?thesis
    using btoa_nonempty [OF t] e by (simp add: login_reset_effect_def query_get_def atob_btoa)
qed

theorem reset_status_through_url_witness:
  "login_reset_effect (router_query (reset_redirect_url (useAuth_config Map.empty) (StatusBody ''ok'')))
      (login_page_init (use_auth Map.empty Guest None ''/example/login'' []))
   = Inr (set_lp_status (JStr ''ok'') (login_page_init (use_auth Map.empty Guest None ''/example/login'' [])))"
proof (rule reset_status_through_url)
  show "CHR ''+'' \<notin> set (btoa ''ok'')"
    by (simp add: btoa_def b64_digit_def b64_code_def char_of_eq_iff eq_char_of_iff)
qed (simp_all add: useAuth_config_def login_page_init_def init_state_def)

lemma filter_plus_to_space:
  "\<forall>c \<in> set z. \<not> ascii_whitespace c \<Longrightarrow>
   filter (\<lambda>c. \<not> ascii_whitespace c) (map plus_to_space z) = filter (\<lambda>c. c \<noteq> CHR ''+'') z"
  by (induction z) (auto simp: plus_to_space_def ascii_whitespace_def)

lemma set_lp_status_inj: "set_lp_status v p = set_lp_status w p \<Longrightarrow> v = w"
  by (drule arg_cong [where f = "\<lambda>p. form_status (lp_hook p)"]) (simp add: set_lp_status_def)

lemma form_decode_btoa: "form_decode (btoa t) = map plus_to_space (btoa t)"
proof -
  have "CHR ''%'' \<notin> set (map plus_to_space (btoa t))"
    using btoa_url_plain [of t] by (auto simp: plus_to_space_def)
  then show ?thesis by (simp add: form_decode_def percent_decode_no_pct)
qed

text \<open>
  C36: the status is put into the URL without \<open>encodeURIComponent\<close>, so a \<open>+\<close> of its
  base64 form reaches the login page as a space, which \<open>atob\<close> skips. For every status
  whose base64 form has a \<open>+\<close>, the login page never shows that status: it shows a
  shorter string, throws, or shows nothing.
\<close>

theorem reset_plus_corrupted:
  assumes plus: "CHR ''+'' \<in> set (btoa t)"
    and l: "CHR ''?'' \<notin> set (loginUrl c)" "CHR ''#'' \<notin> set (loginUrl c)"
  shows "login_reset_effect (router_query (reset_redirect_url c (StatusBody t))) p
           \<noteq> Inr (set_lp_status (JStr t) p)"
proof
  let ?v = "map plus_to_space (btoa t)"
  assume eff: "login_reset_effect (router_query (reset_redirect_url c (StatusBody t))) p
           = Inr (set_lp_status (JStr t) p)"
  have url: "reset_redirect_url c (StatusBody t) = loginUrl c @ ''?'' @ ''reset'' @ ''='' @ btoa t"
    by (simp add: reset_redirect_url_def)
  have "router_query (reset_redirect_url c (StatusBody t)) = [(''reset'', QStr ?v)]"
    unfolding url form_decode_btoa [symmetric] using l btoa_url_plain [of t]
    by (intro router_query_single) auto
  moreover have "?v \<noteq> []" using plus by auto
  ultimately have e: "form_errors (lp_hook p) = []" and a: "atob ?v = Inr t"
    using eff by (auto simp: login_reset_effect_def query_get_def dest: set_lp_status_inj
        split: if_splits sum.splits)
  obtain d where d: "prefix d (filter (\<lambda>c. \<not> ascii_whitespace c) ?v)" "CHR ''='' \<notin> set d"
    and len: "length t = 3 * length d div 4"
    using atob_Inr_length [OF a] by blast
  have "filter (\<lambda>c. \<not> ascii_whitespace c) ?v = filter (\<lambda>c. c \<noteq> CHR ''+'') (btoa t)"
    using no_ascii_whitespace_encode by (simp add: filter_plus_to_space btoa_def)
  with d have "length d \<le> length (filter (\<lambda>c. c \<noteq> CHR ''+'' \<and> c \<noteq> CHR ''='') (btoa t))"
    by (intro prefix_filter_length) auto
  also have "\<dots> = length (filter (\<lambda>c. c \<noteq> CHR ''='' \<and> c \<noteq> CHR ''+'') (btoa t))"
    by (simp add: conj_commute)
  also have "\<dots> < length (filter (\<lambda>c. c \<noteq> CHR ''='') (btoa t))"
    using plus by (intro length_filter_conj_less) auto
  finally have "length d < length (b64_sextets (map of_char t))" by (simp only: length_btoa_digits)
  then have "3 * length d div 4 < 3 * length (b64_sextets (map of_char t)) div 4"
    using length_b64_sextets by (intro div_3_4_strict) auto
  with len length_btoa_decoded [of t] show False by simp
qed

theorem reset_plus_corrupted_witness:
  "btoa ''ab>'' = ''YWI+''
   \<and> login_reset_effect (router_query (reset_redirect_url (useAuth_config Map.empty) (StatusBody ''ab>'')))
       (login_page_init (use_auth Map.empty Guest None ''/example/login'' []))
     \<noteq> Inr (set_lp_status (JStr ''ab>'') (login_page_init (use_auth Map.empty Guest None ''/example/login'' [])))"
proof
  show b: "btoa ''ab>'' = ''YWI+''"
    by (simp add: btoa_def b64_digit_def b64_code_def char_of_eq_iff eq_char_of_iff)
  have "CHR ''+'' \<in> set (btoa ''ab>'')" unfolding b by simp
  moreover have "CHR ''?'' \<notin> set (loginUrl (useAuth_config Map.empty))"
    "CHR ''#'' \<notin> set (loginUrl (useAuth_config Map.empty))" by (simp_all add: useAuth_config_def)
  ultimately show "login_reset_effect (router_query (reset_redirect_url (useAuth_config Map.empty) (StatusBody ''ab>'')))
       (login_page_init (use_auth Map.empty Guest None ''/example/login'' []))
     \<noteq> Inr (set_lp_status (JStr ''ab>'') (login_page_init (use_auth Map.empty Guest None ''/example/login'' [])))"
    by (rule reset_plus_corrupted)
qed

subsection \<open>The login page's view of \<open>next_to\<close>\<close>

text \<open>
  C24: \<open>query.next_to as string\<close> is a string exactly when the URL has at most one
  \<open>next_to\<close> parameter. With two or more, Next hands the login page an array, which the
  hook then treats as a string.
\<close>

theorem next_to_type:
  "login_ctx env path (router_query u) \<noteq> None \<longleftrightarrow>
     length (filter (\<lambda>kv. fst kv = ''next_to'') (parse_search (url_search u))) \<le> 1"
proof -
  let ?vs = "map snd (filter (\<lambda>kv. fst kv = ''next_to'') (parse_search (url_search u)))"
  have "query_get (router_query u) ''next_to''
        = (case ?vs of [] \<Rightarrow> None | [v] \<Rightarrow> Some (QStr v) | v # w # ws \<Rightarrow> Some (QArr (v # w # ws)))"
    by (simp add: query_get_def router_query_def map_of_foldl_add_param foldl_push_shape)
  then show ?thesis
    by (cases ?vs rule: remdups_adj.cases) (auto simp: login_ctx_def length_Suc_conv)
qed

theorem next_to_type_witness:
  "login_ctx Map.empty ''/example/login'' (router_query ''/example/login?next_to=/a&next_to=/b'') = None"
proof -
  have "length (filter (\<lambda>kv. fst kv = ''next_to'')
          (parse_search (url_search ''/example/login?next_to=/a&next_to=/b''))) = 2"
    by (simp add: url_search_def parse_search_def form_pair_def form_decode_def plus_to_space_def
        hex_val_def)
  with next_to_type [of Map.empty "''/example/login''" "''/example/login?next_to=/a&next_to=/b''"]
  show ?thesis by simp
qed

text \<open>
  C37: the return target survives the whole trip. Suppose the forced logout (or \<open>logout\<close>
  with a return target) assigns the login URL with \<open>next_to\<close> for an ASCII path \<open>n\<close> and
  query \<open>q\<close>. Then the login page opened at that URL builds its hook with \<open>n?q\<close> as the
  target, and once a user is cached its redirect effect pushes the marked \<open>n?q\<close>: the
  user lands back where they were sent away from.
\<close>

theorem return_to_origin:
  assumes keep: "keeps_next (useAuth_config env) (Some n)" and ascii: "\<forall>x \<in> set n. of_char x < (128::nat)"
    and l: "CHR ''?'' \<notin> set (loginUrl (useAuth_config env))" "CHR ''#'' \<notin> set (loginUrl (useAuth_config env))"
    and user: "swr_data s \<noteq> None"
  shows "\<exists>ctx. login_ctx env path (router_query (logout_url (useAuth_config env) (Some n) q)) = Some ctx
           \<and> effects (auth_effect ctx s)
               = effects s @ [RouterPush (logged_redirect_url (n @ (if qs_stringify q \<noteq> [] then ''?'' @ qs_stringify q else [])))
                                         (Some (n @ (if qs_stringify q \<noteq> [] then ''?'' @ qs_stringify q else [])))]"
proof -
  let ?w = "n @ (if qs_stringify q \<noteq> [] then ''?'' @ qs_stringify q else [])"
  let ?ctx = "use_auth env Guest (Some ?w) path [(''next_to'', QStr ?w)]"
  have n: "n \<noteq> []" using keep by (simp add: keeps_next_def)
  have "login_ctx env path (router_query (logout_url (useAuth_config env) (Some n) q)) = Some ?ctx"
    using router_query_logout_url [OF keep ascii l] by (simp add: login_ctx_def query_get_def)
  moreover have "redirect_target ?ctx = ?w"
    using n by (simp add: use_auth_def redirect_if_authenticated_url_def)
  moreover have "effects (auth_effect ctx' s) =
      effects s @ [RouterPush (logged_redirect_url (redirect_target ctx')) (Some (redirect_target ctx'))]"
    if "middleware ctx' = Guest" for ctx'
    using that user by (simp add: auth_effect_def Let_def emit_def)
  ultimately show ?thesis by (auto simp: use_auth_def)
qed

theorem return_to_origin_witness:
  "\<exists>ctx. login_ctx Map.empty ''/example/login''
          (router_query (logout_url (useAuth_config Map.empty) (Some ''/example/cards'') (Some [])))
          = Some ctx
     \<and> effects (auth_effect ctx ((init_state (use_auth Map.empty Guest None ''/example/login'' []))
                  \<lparr>swr_data := Some \<lparr>user_email = ''a@b.c'', email_verified_at = None\<rparr>\<rparr>))
       = effects ((init_state (use_auth Map.empty Guest None ''/example/login'' []))
                  \<lparr>swr_data := Some \<lparr>user_email = ''a@b.c'', email_verified_at = None\<rparr>\<rparr>)
         @ [RouterPush (logged_redirect_url (''/example/cards'' @ (if qs_stringify (Some []) \<noteq> [] then ''?'' @ qs_stringify (Some []) else [])))
                       (Some (''/example/cards'' @ (if qs_stringify (Some []) \<noteq> [] then ''?'' @ qs_stringify (Some []) else [])))]"
  by (rule return_to_origin) (simp_all add: keeps_next_Some useAuth_config_def sublist_code)

end
