(* ===== verification/Api.thy ===== *)
theory Api
  imports Config
begin

text \<open>
  The HTTP client of \<open>src/lib/api.ts\<close>: the axios instance (credentials, the
  \<open>X-Requested-With\<close> header, \<open>baseURL\<close> from \<open>NEXT_PUBLIC_BACKEND_URL\<close>) and the URL a
  request through it goes to. Axios resolves a request URL against \<open>baseURL\<close> with
  \<open>buildFullPath\<close>: an absolute URL (\<open>scheme://\<close> or \<open>//\<close>) is kept, any other one is
  joined to the base by \<open>combineURLs\<close>. The hook names its endpoints by path, so the
  base decides where they go; \<open>csrf()\<close> instead passes \<open>baseURL + path\<close>, which the
  instance resolves a second time.
\<close>

record api_instance =
  with_credentials :: bool
  headers :: "(js_string \<times> js_string) list"
  base_url :: "url option"

text \<open>\<open>axios.create({withCredentials: true, headers: {...}, baseURL})\<close> (lines 3--11).\<close>

definition api_create :: "env \<Rightarrow> api_instance" where
  "api_create env =
     \<lparr>with_credentials = True, headers = [(''X-Requested-With'', ''XMLHttpRequest'')],
      base_url = env ''NEXT_PUBLIC_BACKEND_URL''\<rparr>"

subsection \<open>Resolution of a request URL (axios \<open>buildFullPath\<close>)\<close>

definition ascii_letter :: "char \<Rightarrow> bool" where
  "ascii_letter c \<longleftrightarrow>
     (65 \<le> (of_char c :: nat) \<and> (of_char c :: nat) \<le> 90) \<or> (97 \<le> (of_char c :: nat) \<and> (of_char c :: nat) \<le> 122)"

definition ascii_digit :: "char \<Rightarrow> bool" where
  "ascii_digit c \<longleftrightarrow> 48 \<le> (of_char c :: nat) \<and> (of_char c :: nat) \<le> 57"

definition scheme_char :: "char \<Rightarrow> bool" where
  "scheme_char c \<longleftrightarrow> ascii_letter c \<or> ascii_digit c \<or> c \<in> set ''+-.''"

text \<open>
  \<open>isAbsoluteURL\<close>: \<open>/^([a-z][a-z\d+\-.]*:)?\/\//i\<close>. The scheme's characters exclude
  \<open>:\<close>, so the longest run of them is the only candidate scheme.
\<close>

definition is_absolute_url :: "url \<Rightarrow> bool" where
  "is_absolute_url u \<longleftrightarrow>
     prefix ''//'' u
     \<or> (u \<noteq> [] \<and> ascii_letter (hd u) \<and> prefix ''://'' (dropWhile scheme_char (tl u)))"

text \<open>\<open>baseURL.replace(/\/?\/$/, '')\<close>: one or two trailing slashes go.\<close>

definition strip_end_slashes :: "url \<Rightarrow> url" where
  "strip_end_slashes b =
     (if suffix ''//'' b then take (length b - 2) b else if suffix ''/'' b then butlast b else b)"

text \<open>\<open>combineURLs(base, rel)\<close>: \<open>rel ? base' + '/' + rel.replace(/^\/+/, '') : base\<close>.\<close>

definition combine_urls :: "url \<Rightarrow> url \<Rightarrow> url" where
  "combine_urls b r =
     (if r = [] then b else strip_end_slashes b @ ''/'' @ dropWhile (\<lambda>c. c = CHR ''/'') r)"

text \<open>\<open>buildFullPath(baseURL, url)\<close>: a falsy base leaves the URL as it is.\<close>

definition build_full_path :: "url option \<Rightarrow> url \<Rightarrow> url" where
  "build_full_path base u =
     (if js_truthy base \<and> \<not> is_absolute_url u then combine_urls (the base) u else u)"

text \<open>The URL \<open>instance.get(u)\<close> and \<open>instance.post(u)\<close> request.\<close>

definition request_url :: "api_instance \<Rightarrow> url \<Rightarrow> url" where
  "request_url api u = build_full_path (base_url api) u"

text \<open>\<open>csrf()\<close> (line 13): \<open>instance.get(baseURL + '/sanctum/csrf-cookie')\<close>.\<close>

definition csrf_request_url :: "env \<Rightarrow> url" where
  "csrf_request_url env = request_url (api_create env) (csrf_url env)"

lemma dropWhile_slash_Cons:
  "c \<noteq> CHR ''/'' \<Longrightarrow> dropWhile (\<lambda>x. x = CHR ''/'') (CHR ''/'' # c # r) = c # r"
  by simp

lemma strip_end_slashes_id: "\<not> suffix ''/'' b \<Longrightarrow> strip_end_slashes b = b"
proof -
  assume nosl: "\<not> suffix ''/'' b"
  have "suffix ''/'' ''//''" by (simp add: suffix_def)
  then have "\<not> suffix ''//'' b" using nosl suffix_order.trans by blast
  with nosl show ?thesis by (simp add: strip_end_slashes_def)
qed

lemma is_absolute_url_append:
  "is_absolute_url b \<Longrightarrow> is_absolute_url (b @ r)"
proof -
  assume "is_absolute_url b"
  then consider "prefix ''//'' b"
    | "b \<noteq> [] \<and> ascii_letter (hd b) \<and> prefix ''://'' (dropWhile scheme_char (tl b))"
    unfolding is_absolute_url_def by blast
  then show ?thesis
  proof cases
    case 1
    then show ?thesis by (auto simp: is_absolute_url_def intro: prefix_prefix)
  next
    case 2
    then obtain c t where b: "b = c # t" by (cases b) auto
    have "\<exists>x\<in>set t. \<not> scheme_char x"
    proof (rule ccontr)
      assume "\<not> ?thesis"
      then have "dropWhile scheme_char t = []" by simp
      with 2 b show False by simp
    qed
    then obtain x where "x \<in> set t" "\<not> scheme_char x" by blast
    then have "dropWhile scheme_char (t @ r) = dropWhile scheme_char t @ r"
      by (rule dropWhile_append1)
    with 2 b show ?thesis by (auto simp: is_absolute_url_def intro: prefix_prefix)
  qed
qed

lemma slash_path_not_absolute: "c \<noteq> CHR ''/'' \<Longrightarrow> \<not> is_absolute_url (CHR ''/'' # c # r)"
  by (simp add: is_absolute_url_def ascii_letter_def)

lemma combine_slash_path:
  "\<not> suffix ''/'' b \<Longrightarrow> c \<noteq> CHR ''/'' \<Longrightarrow> combine_urls b (CHR ''/'' # c # r) = b @ CHR ''/'' # c # r"
  by (simp add: combine_urls_def strip_end_slashes_id)

subsection \<open>Where the requests go\<close>

text \<open>
  C28: with an absolute \<open>NEXT_PUBLIC_BACKEND_URL\<close> without a trailing slash, a request
  for a path \<open>/p\<close> goes to the backend's \<open>/p\<close>, and \<open>csrf()\<close> fetches the backend's
  \<open>/sanctum/csrf-cookie\<close>: the cookie and the API share one origin.
\<close>

theorem api_same_origin:
  assumes base: "env ''NEXT_PUBLIC_BACKEND_URL'' = Some b" and abs: "is_absolute_url b"
    and nosl: "\<not> suffix ''/'' b" and c: "c \<noteq> CHR ''/''"
  shows "request_url (api_create env) (CHR ''/'' # c # r) = b @ CHR ''/'' # c # r
         \<and> csrf_request_url env = b @ ''/sanctum/csrf-cookie''"
proof
  have "b \<noteq> []" using abs by (auto simp: is_absolute_url_def)
  then show "request_url (api_create env) (CHR ''/'' # c # r) = b @ CHR ''/'' # c # r"
    using base nosl c slash_path_not_absolute [OF c]
    by (simp add: request_url_def api_create_def build_full_path_def combine_slash_path)
  have "is_absolute_url (b @ ''/sanctum/csrf-cookie'')" using abs by (rule is_absolute_url_append)
  then show "csrf_request_url env = b @ ''/sanctum/csrf-cookie''"
    using base by (simp add: csrf_request_url_def request_url_def csrf_url_def build_full_path_def)
qed

theorem api_same_origin_witness:
  "request_url (api_create [''NEXT_PUBLIC_BACKEND_URL'' \<mapsto> ''http://localhost:8000'']) ''/api/user''
     = ''http://localhost:8000/api/user''
   \<and> csrf_request_url [''NEXT_PUBLIC_BACKEND_URL'' \<mapsto> ''http://localhost:8000'']
     = ''http://localhost:8000/sanctum/csrf-cookie''"
proof -
  have abs: "is_absolute_url ''http://localhost:8000''"
    by (simp add: is_absolute_url_def ascii_letter_def scheme_char_def ascii_digit_def)
  have "\<not> suffix ''/'' ''http://localhost:8000''" by (simp add: suffix_def)
  from api_same_origin [of "[''NEXT_PUBLIC_BACKEND_URL'' \<mapsto> ''http://localhost:8000'']", OF _ abs this,
      of "CHR ''a''" "''pi/user''"]
  show ?thesis by simp
qed

text \<open>
  C29: with a relative base such as \<open>/backend\<close>, the instance joins the base to the
  already prefixed URL of \<open>csrf()\<close>: the CSRF cookie is fetched from
  \<open>/backend/backend/sanctum/csrf-cookie\<close>, while the API paths go to \<open>/backend/...\<close>.
\<close>

theorem csrf_relative_base_doubled:
  assumes base: "env ''NEXT_PUBLIC_BACKEND_URL'' = Some b" and b: "b = CHR ''/'' # c # r"
    and c: "c \<noteq> CHR ''/''" and nosl: "\<not> suffix ''/'' b"
  shows "csrf_request_url env = b @ b @ ''/sanctum/csrf-cookie''
         \<and> request_url (api_create env) ''/api/user'' = b @ ''/api/user''"
proof -
  have "\<not> is_absolute_url (b @ ''/sanctum/csrf-cookie'')"
    using b c by (simp add: is_absolute_url_def ascii_letter_def)
  then have "csrf_request_url env = combine_urls b (CHR ''/'' # c # r @ ''/sanctum/csrf-cookie'')"
    using base b by (simp add: csrf_request_url_def request_url_def csrf_url_def build_full_path_def api_create_def)
  also have "\<dots> = b @ b @ ''/sanctum/csrf-cookie''"
    using combine_slash_path [OF nosl c] b by simp
  finally show ?thesis
    using base b nosl combine_slash_path [OF nosl, of "CHR ''a''" "''pi/user''"]
    by (simp add: request_url_def api_create_def build_full_path_def is_absolute_url_def ascii_letter_def)
qed

theorem csrf_relative_base_doubled_witness:
  "csrf_request_url [''NEXT_PUBLIC_BACKEND_URL'' \<mapsto> ''/backend'']
     = ''/backend/backend/sanctum/csrf-cookie''
   \<and> request_url (api_create [''NEXT_PUBLIC_BACKEND_URL'' \<mapsto> ''/backend'']) ''/api/user''
     = ''/backend/api/user''"
  using csrf_relative_base_doubled [of "[''NEXT_PUBLIC_BACKEND_URL'' \<mapsto> ''/backend'']" "''/backend''"
      "CHR ''b''" "''ackend''"]
  by (simp add: suffix_def)

end
