(* ===== verification/Queue.thy ===== *)
theory Queue
  imports Hook "HOL-Library.Multiset"
begin

text \<open>
  The requests the hook has in flight. Every pending promise of the model belongs to a
  request the hook has sent: the multiset of the requests the pending continuations
  stand for is contained in the multiset of the requests in the effect log. A weight on
  the continuations (a CSRF request may still lead to a post, a post or a logout to a
  user refetch, a user fetch to nothing) decreases with every settled promise, so the
  hook cannot keep itself busy: settling promises without new calls from the page ends,
  and \<open>drain\<close> (theory \<open>Quiescence\<close>), which answers the oldest promise until none
  is left, is total.
\<close>

definition cont_request :: "hook_ctx \<Rightarrow> cont \<Rightarrow> effect" where
  "cont_request ctx k =
     (case k of
        KUser \<Rightarrow> Request GET (apiPathUser (cfg ctx))
      | KCsrf a \<Rightarrow> Request GET (csrf_target ctx)
      | KPost a \<Rightarrow> Request POST (action_path (cfg ctx) a)
      | KLogout n q \<Rightarrow> Request POST (apiPathLogout (cfg ctx)))"

definition is_request :: "effect \<Rightarrow> bool" where
  "is_request e \<longleftrightarrow> (case e of Request m u \<Rightarrow> True | _ \<Rightarrow> False)"

definition sent_requests :: "effect list \<Rightarrow> effect multiset" where
  "sent_requests es = mset (filter is_request es)"

definition in_flight_ok :: "hook_ctx \<Rightarrow> hook_state \<Rightarrow> bool" where
  "in_flight_ok ctx s \<longleftrightarrow> mset (map (cont_request ctx) (pending s)) \<subseteq># sent_requests (effects s)"

text \<open>
  \<open>t\<close> extends \<open>s\<close>: both logs only grow, and every continuation added is matched by a
  request added.
\<close>

definition appends :: "hook_ctx \<Rightarrow> hook_state \<Rightarrow> hook_state \<Rightarrow> bool" where
  "appends ctx s t \<longleftrightarrow>
     prefix (pending s) (pending t) \<and> prefix (effects s) (effects t)
     \<and> mset (map (cont_request ctx) (drop (length (pending s)) (pending t)))
         \<subseteq># sent_requests (drop (length (effects s)) (effects t))"

fun cont_weight :: "cont \<Rightarrow> nat" where
  "cont_weight KUser = 1"
| "cont_weight (KCsrf a) = 3"
| "cont_weight (KPost a) = 2"
| "cont_weight (KLogout n q) = 2"

definition queue_weight :: "hook_state \<Rightarrow> nat" where
  "queue_weight s = sum_list (map cont_weight (pending s))"

fun is_settle :: "event \<Rightarrow> bool" where
  "is_settle (Settle i r) = True"
| "is_settle _ = False"

lemma appendsI:
  "pending t = pending s @ ks \<Longrightarrow> effects t = effects s @ es
   \<Longrightarrow> mset (map (cont_request ctx) ks) \<subseteq># sent_requests es \<Longrightarrow> appends ctx s t"
  by (simp add: appends_def)

lemma appendsE:
  assumes "appends ctx s t"
  obtains ks es where "pending t = pending s @ ks" "effects t = effects s @ es"
    "mset (map (cont_request ctx) ks) \<subseteq># sent_requests es"
  using assms by (auto simp: appends_def prefix_def)

lemma sent_requests_append [simp]: "sent_requests (xs @ ys) = sent_requests xs + sent_requests ys"
  by (simp add: sent_requests_def)

lemma appends_refl [simp]: "appends ctx s s"
  by (rule appendsI [where ks = "[]" and es = "[]"]) (simp_all add: sent_requests_def)

lemma appends_trans:
  assumes "appends ctx s t" and "appends ctx t u"
  shows "appends ctx s u"
proof -
  obtain ks es where 1: "pending t = pending s @ ks" "effects t = effects s @ es"
    "mset (map (cont_request ctx) ks) \<subseteq># sent_requests es"
    using assms(1) by (rule appendsE)
  obtain ks' es' where 2: "pending u = pending t @ ks'" "effects u = effects t @ es'"
    "mset (map (cont_request ctx) ks') \<subseteq># sent_requests es'"
    using assms(2) by (rule appendsE)
  show ?thesis
    by (rule appendsI [where ks = "ks @ ks'" and es = "es @ es'"])
      (use 1 2 in \<open>simp_all add: subset_mset.add_mono\<close>)
qed

lemma appends_emit [simp]:
  assumes "appends ctx s t"
  shows "appends ctx s (emit e t)"
proof -
  obtain ks es where "pending t = pending s @ ks" "effects t = effects s @ es"
    "mset (map (cont_request ctx) ks) \<subseteq># sent_requests es"
    using assms by (rule appendsE)
  then show ?thesis
    by (intro appendsI [where ks = ks and es = "es @ [e]"])
      (auto simp: emit_def intro: subset_mset.order_trans)
qed

lemma appends_send [simp]:
  assumes "appends ctx s t" and "cont_request ctx k = Request m p"
  shows "appends ctx s (send k m p t)"
proof -
  obtain ks es where "pending t = pending s @ ks" "effects t = effects s @ es"
    "mset (map (cont_request ctx) ks) \<subseteq># sent_requests es"
    using assms(1) by (rule appendsE)
  with assms(2) show ?thesis
    by (intro appendsI [where ks = "ks @ [k]" and es = "es @ [Request m p]"])
      (auto simp: send_def sent_requests_def is_request_def)
qed

lemma appends_update [simp]:
  "appends ctx s (t\<lparr>swr_data := d\<rparr>) = appends ctx s t"
  "appends ctx s (t\<lparr>swr_error := err\<rparr>) = appends ctx s t"
  "appends ctx s (t\<lparr>loading := l\<rparr>) = appends ctx s t"
  "appends ctx s (t\<lparr>form_errors := fe\<rparr>) = appends ctx s t"
  "appends ctx s (t\<lparr>form_status := fs\<rparr>) = appends ctx s t"
  by (simp_all add: appends_def)

lemma cont_request_simps [simp]:
  "cont_request ctx KUser = Request GET (apiPathUser (cfg ctx))"
  "cont_request ctx (KCsrf a) = Request GET (csrf_target ctx)"
  "cont_request ctx (KPost a) = Request POST (action_path (cfg ctx) a)"
  "cont_request ctx (KLogout n q) = Request POST (apiPathLogout (cfg ctx))"
  by (simp_all add: cont_request_def)

lemma appends_mutate [simp]: "appends ctx s t \<Longrightarrow> appends ctx s (mutate ctx t)"
  by (simp add: mutate_def)

lemma appends_logout [simp]: "appends ctx s t \<Longrightarrow> appends ctx s (logout ctx n q t)"
  by (simp add: logout_def)

lemma appends_user_fetched: "appends ctx s (user_fetched ctx r s)"
  by (simp add: user_fetched_def split: sum.split js_error.split option.split prod.split)

lemma appends_invoke: "appends ctx s (invoke ctx a s)"
  by (simp add: invoke_def)

lemma appends_csrf_resumed: "appends ctx s (csrf_resumed ctx a r s)"
  by (simp add: csrf_resumed_def Let_def split: sum.split)

lemma appends_post_resolved: "appends ctx s (post_resolved ctx a r s)"
  by (simp add: post_resolved_def reject_form_def split: sum.split action.split)

lemma appends_logout_resumed: "appends ctx s (logout_resumed ctx n q r s)"
  by (simp add: logout_resumed_def split: sum.split)

lemma appends_auth_effect: "appends ctx s (auth_effect ctx s)"
  by (simp add: auth_effect_def Let_def)

lemma appends_resume: "appends ctx s (resume ctx k r s)"
  by (simp add: resume_def appends_user_fetched appends_csrf_resumed appends_post_resolved
      appends_logout_resumed split: cont.split)

lemma in_flight_ok_appends: "in_flight_ok ctx s \<Longrightarrow> appends ctx s t \<Longrightarrow> in_flight_ok ctx t"
  by (auto simp: in_flight_ok_def elim!: appendsE intro: subset_mset.add_mono)

lemma mset_take_drop_nth:
  "i < length xs \<Longrightarrow> mset xs = mset (take i xs @ drop (Suc i) xs) + {#xs ! i#}"
proof -
  assume "i < length xs"
  then have "xs = take i xs @ xs ! i # drop (Suc i) xs" by (rule id_take_nth_drop)
  then have "mset xs = mset (take i xs @ xs ! i # drop (Suc i) xs)" by simp
  then show ?thesis by simp
qed

lemma in_flight_ok_remove:
  assumes "in_flight_ok ctx s" and "i < length (pending s)"
  shows "in_flight_ok ctx (s\<lparr>pending := take i (pending s) @ drop (Suc i) (pending s)\<rparr>)"
proof -
  let ?P = "pending s" and ?f = "cont_request ctx"
  have "mset (take i ?P @ drop (Suc i) ?P) \<subseteq># mset ?P"
    using mset_take_drop_nth [OF assms(2)] by simp
  then have "mset (map ?f (take i ?P @ drop (Suc i) ?P)) \<subseteq># mset (map ?f ?P)"
    by (simp only: mset_map image_mset_subseteq_mono)
  with assms(1) show ?thesis by (auto simp: in_flight_ok_def)
qed

lemma in_flight_ok_step: "hook_step ctx e s = Some t \<Longrightarrow> in_flight_ok ctx s \<Longrightarrow> in_flight_ok ctx t"
proof (cases e)
  case (Settle i r)
  assume step: "hook_step ctx e s = Some t" and ok: "in_flight_ok ctx s"
  with Settle have i: "i < length (pending s)" and t: "t = settle ctx i r s"
    by (simp_all split: if_splits)
  show ?thesis
    using in_flight_ok_appends [OF in_flight_ok_remove [OF ok i] appends_resume] t
    by (simp add: settle_def)
qed (auto intro: in_flight_ok_appends appends_invoke appends_auth_effect appends_logout)

lemma in_flight_ok_init: "in_flight_ok ctx (init_state ctx)"
  by (simp add: in_flight_ok_def init_state_def sent_requests_def is_request_def)

subsection \<open>The weight of the queue\<close>

lemma queue_weight_update [simp]:
  "queue_weight (s\<lparr>swr_data := d\<rparr>) = queue_weight s"
  "queue_weight (s\<lparr>swr_error := err\<rparr>) = queue_weight s"
  "queue_weight (s\<lparr>form_errors := fe\<rparr>) = queue_weight s"
  "queue_weight (s\<lparr>form_status := fs\<rparr>) = queue_weight s"
  "queue_weight (emit e s) = queue_weight s"
  "queue_weight (send k m p s) = queue_weight s + cont_weight k"
  by (simp_all add: queue_weight_def emit_def send_def)

lemma queue_weight_user_fetched [simp]: "queue_weight (user_fetched ctx r s) = queue_weight s"
  by (simp add: user_fetched_def split: sum.split js_error.split option.split prod.split)

lemma queue_weight_csrf_resumed: "queue_weight (csrf_resumed ctx a r s) \<le> queue_weight s + 2"
  by (simp add: csrf_resumed_def Let_def split: sum.split)

lemma queue_weight_post_resolved: "queue_weight (post_resolved ctx a r s) \<le> queue_weight s + 1"
  by (simp add: post_resolved_def reject_form_def mutate_def split: sum.split action.split)

lemma queue_weight_logout_resumed: "queue_weight (logout_resumed ctx n q r s) \<le> queue_weight s + 1"
  by (simp add: logout_resumed_def mutate_def split: sum.split)

lemma queue_weight_resume: "queue_weight (resume ctx k r s) < queue_weight s + cont_weight k"
proof (cases k)
  case (KCsrf a)
  then show ?thesis using queue_weight_csrf_resumed [of ctx a r s] by (simp add: resume_def)
next
  case (KPost a)
  then show ?thesis using queue_weight_post_resolved [of ctx a r s] by (simp add: resume_def)
next
  case (KLogout n q)
  then show ?thesis using queue_weight_logout_resumed [of ctx n q r s] by (simp add: resume_def)
qed (simp add: resume_def)

lemma sum_list_take_drop_nth:
  "i < length xs \<Longrightarrow>
   sum_list (map (f :: 'a \<Rightarrow> nat) xs) = sum_list (map f (take i xs @ drop (Suc i) xs)) + f (xs ! i)"
proof -
  assume "i < length xs"
  then have "xs = take i xs @ xs ! i # drop (Suc i) xs" by (rule id_take_nth_drop)
  then have "sum_list (map f xs) = sum_list (map f (take i xs @ xs ! i # drop (Suc i) xs))" by simp
  then show ?thesis by (simp add: ac_simps)
qed

lemma queue_weight_settle:
  assumes "i < length (pending s)"
  shows "queue_weight (settle ctx i r s) < queue_weight s"
proof -
  let ?s' = "s\<lparr>pending := take i (pending s) @ drop (Suc i) (pending s)\<rparr>"
  have "queue_weight s = queue_weight ?s' + cont_weight (pending s ! i)"
    using sum_list_take_drop_nth [OF assms] by (simp add: queue_weight_def)
  then show ?thesis using queue_weight_resume [of ctx "pending s ! i" r ?s'] by (simp add: settle_def)
qed

subsection \<open>Properties of the queue\<close>

text \<open>
  In every reachable state, each pending promise stands for a request the hook has
  sent, and no two pending promises share one request: the multiset of the requests of
  the pending continuations is contained in the multiset of requests in the effect log.
\<close>

lemma pending_requests_sent:
  assumes "reachable ctx s"
  shows "mset (map (cont_request ctx) (pending s)) \<subseteq># sent_requests (effects s)"
proof -
  have "in_flight_ok ctx s"
    using assms by (induction rule: reachable.induct) (auto intro: in_flight_ok_init in_flight_ok_step)
  then show ?thesis by (simp add: in_flight_ok_def)
qed

text \<open>
  C31: the hook cannot keep itself busy. A run made only of settled promises has at most as
  many steps as the weight of the queue it started from, whatever the replies: each
  settlement lowers the weight, even when it sends a new request (a post after the CSRF
  cookie, a user refetch after a login or a logout).
\<close>

theorem settles_bounded:
  assumes "hook_run ctx es s = Some t" and "list_all is_settle es"
  shows "length es + queue_weight t \<le> queue_weight s"
  using assms
proof (induction es arbitrary: s)
  case Nil
  then show ?case by simp
next
  case (Cons e es)
  then obtain i r where e: "e = Settle i r" by (cases e) auto
  with Cons.prems have i: "i < length (pending s)"
    and run: "hook_run ctx es (settle ctx i r s) = Some t"
    by (simp_all split: if_splits)
  have "length es + queue_weight t \<le> queue_weight (settle ctx i r s)"
    using Cons.IH [OF run] Cons.prems(2) by simp
  with queue_weight_settle [OF i, of ctx r] show ?case by simp
qed

theorem settles_bounded_witness:
  "hook_run (use_auth Map.empty Guest None ''/example/login'' [])
      [Settle 0 (Reply 204 NoBody)] (init_state (use_auth Map.empty Guest None ''/example/login'' []))
     = Some ((init_state (use_auth Map.empty Guest None ''/example/login'' []))
              \<lparr>pending := [], swr_data := None, swr_error := None\<rparr>)
   \<and> length [Settle 0 (Reply 204 NoBody)]
     + queue_weight ((init_state (use_auth Map.empty Guest None ''/example/login'' []))
              \<lparr>pending := [], swr_data := None, swr_error := None\<rparr>)
     \<le> queue_weight (init_state (use_auth Map.empty Guest None ''/example/login'' []))"
proof -
  let ?ctx = "use_auth Map.empty Guest None ''/example/login'' []"
  have run: "hook_run ?ctx [Settle 0 (Reply 204 NoBody)] (init_state ?ctx)
     = Some ((init_state ?ctx)\<lparr>pending := [], swr_data := None, swr_error := None\<rparr>)"
    by (simp add: init_state_def settle_def resume_def user_fetched_def body_user_def)
  have "list_all is_settle [Settle 0 (Reply 204 NoBody)]" by simp
  with run show ?thesis using settles_bounded [OF run] by simp
qed

end
