(* ===== verification/Quiescence.thy ===== *)
theory Quiescence
  imports Queue
begin

text \<open>
  Quiescence of the hook: \<open>drain\<close> plays the environment that answers the oldest pending
  promise, with the reply \<open>rf k\<close> chosen for its continuation \<open>k\<close>, until none is
  left. Its termination is the decrease of \<open>queue_weight\<close> under \<open>settle\<close>.
\<close>

function drain :: "hook_ctx \<Rightarrow> (cont \<Rightarrow> reply) \<Rightarrow> hook_state \<Rightarrow> hook_state" where
  "drain ctx rf s = (case pending s of [] \<Rightarrow> s | k # ks \<Rightarrow> drain ctx rf (settle ctx 0 (rf k) s))"
  by pat_completeness auto
termination
  by (relation "measure (\<lambda>(ctx, rf, s). queue_weight s)") (auto intro: queue_weight_settle)

text \<open>
  The back end of a session that is accepted: the user fetch returns the user \<open>u\<close>, and
  the CSRF cookie, the form posts and the logout post succeed with \<open>204\<close>, as Laravel
  Breeze answers them. A continuation \<open>revalidates\<close> when its success path fetches the
  user again (the user fetch itself, the login and register steps, logout).
\<close>

definition accept_session :: "user \<Rightarrow> cont \<Rightarrow> reply" where
  "accept_session u k = (case k of KUser \<Rightarrow> Reply 200 (UserBody u) | _ \<Rightarrow> Reply 204 NoBody)"

fun revalidates :: "cont \<Rightarrow> bool" where
  "revalidates KUser = True"
| "revalidates (KCsrf a) = (a = Login \<or> a = Register)"
| "revalidates (KPost a) = (a = Login \<or> a = Register)"
| "revalidates (KLogout n q) = True"

definition user_due :: "user \<Rightarrow> hook_state \<Rightarrow> bool" where
  "user_due u s \<longleftrightarrow> (swr_data s = Some u \<and> swr_error s = None) \<or> (\<exists>k \<in> set (pending s). revalidates k)"

text \<open>
  Answering the oldest promise until none is left is a run of settled promises that ends
  with nothing pending.
\<close>

lemma drain_quiescent:
  "pending (drain ctx rf s) = [] \<and> (\<exists>es. list_all is_settle es \<and> hook_run ctx es s = Some (drain ctx rf s))"
proof (induction ctx rf s rule: drain.induct)
  case (1 ctx rf s)
  show ?case
  proof (cases "pending s")
    case Nil
    then show ?thesis by (auto intro: exI [of _ "[]"])
  next
    case (Cons k ks)
    with "1.IH" obtain es where "pending (drain ctx rf (settle ctx 0 (rf k) s)) = []"
      "list_all is_settle es" "hook_run ctx es (settle ctx 0 (rf k) s) = Some (drain ctx rf (settle ctx 0 (rf k) s))"
      by blast
    with Cons show ?thesis by (auto intro!: exI [of _ "Settle 0 (rf k) # es"])
  qed
qed

lemma pending_resume: "\<exists>ks. pending (resume ctx k r s) = pending s @ ks"
  using appends_resume [of ctx s k r] by (auto elim: appendsE)

lemma session_resume_other:
  "k \<noteq> KUser \<Longrightarrow> swr_data (resume ctx k r s) = swr_data s \<and> swr_error (resume ctx k r s) = swr_error s"
  by (cases k) (simp_all add: resume_def session_frame_ops)

lemma user_due_resume:
  assumes "user_due u (s\<lparr>pending := k # ks\<rparr>)"
  shows "user_due u (resume ctx k (accept_session u k) (s\<lparr>pending := ks\<rparr>))"
proof (cases "revalidates k")
  case True
  then show ?thesis
  proof (cases k)
    case KUser
    then show ?thesis
      by (simp add: user_due_def resume_def user_fetched_def accept_session_def axios_result_def body_user_def)
  next
    case (KCsrf a)
    with True show ?thesis
      by (auto simp: user_due_def resume_def csrf_resumed_def accept_session_def axios_result_def send_def Let_def)
  next
    case (KPost a)
    with True show ?thesis
      by (auto simp: user_due_def resume_def post_resolved_def accept_session_def axios_result_def mutate_def send_def)
  next
    case (KLogout n q)
    then show ?thesis
      by (simp add: user_due_def resume_def logout_resumed_def accept_session_def axios_result_def
          mutate_def send_def emit_def)
  qed
next
  case False
  then have nu: "k \<noteq> KUser" by auto
  obtain ks' where p: "pending (resume ctx k (accept_session u k) (s\<lparr>pending := ks\<rparr>)) = ks @ ks'"
    using pending_resume [of ctx k "accept_session u k" "s\<lparr>pending := ks\<rparr>"] by auto
  from assms False have "(swr_data s = Some u \<and> swr_error s = None) \<or> (\<exists>k' \<in> set ks. revalidates k')"
    by (auto simp: user_due_def)
  with p session_resume_other [OF nu, of ctx "accept_session u k" "s\<lparr>pending := ks\<rparr>"] show ?thesis
    by (auto simp: user_due_def)
qed

lemma drain_user_due:
  "user_due u s \<Longrightarrow> swr_data (drain ctx (accept_session u) s) = Some u \<and> swr_error (drain ctx (accept_session u) s) = None"
proof (induction ctx "accept_session u" s rule: drain.induct)
  case (1 ctx s)
  show ?case
  proof (cases "pending s")
    case Nil
    with "1.prems" show ?thesis by (simp add: user_due_def)
  next
    case (Cons k ks)
    have s: "s = s\<lparr>pending := k # ks\<rparr>" using Cons by simp
    have "settle ctx 0 (accept_session u k) s = resume ctx k (accept_session u k) (s\<lparr>pending := ks\<rparr>)"
      using Cons by (simp add: settle_def)
    moreover have "user_due u (resume ctx k (accept_session u k) (s\<lparr>pending := ks\<rparr>))"
      using "1.prems" s by (intro user_due_resume) simp
    ultimately show ?thesis using "1.hyps" [OF Cons] Cons by simp
  qed
qed

text \<open>
  C32: a login or registration against a back end that accepts it ends with the user in
  the cache. Answering the hook's promises oldest first, with the replies of the accepting
  back end, terminates in a run of settled promises that leaves nothing pending, the user
  as SWR's data and no cached error, from any state the page calls the action in.
\<close>

theorem login_accepted_caches_user:
  assumes "a = Login \<or> a = Register"
  shows "pending (drain ctx (accept_session u) (invoke ctx a s)) = []
         \<and> (\<exists>es. list_all is_settle es \<and> hook_run ctx es (invoke ctx a s) = Some (drain ctx (accept_session u) (invoke ctx a s)))
         \<and> swr_data (drain ctx (accept_session u) (invoke ctx a s)) = Some u
         \<and> swr_error (drain ctx (accept_session u) (invoke ctx a s)) = None"
proof -
  have "user_due u (invoke ctx a s)"
    using assms by (auto simp: user_due_def invoke_def send_def)
  then show ?thesis using drain_user_due drain_quiescent by blast
qed

theorem login_accepted_caches_user_witness:
  "pending (drain (use_auth Map.empty Guest None ''/example/login'' [])
              (accept_session \<lparr>user_email = ''a@b.c'', email_verified_at = None\<rparr>)
              (invoke (use_auth Map.empty Guest None ''/example/login'' []) Login
                 (init_state (use_auth Map.empty Guest None ''/example/login'' [])))) = []
   \<and> swr_data (drain (use_auth Map.empty Guest None ''/example/login'' [])
              (accept_session \<lparr>user_email = ''a@b.c'', email_verified_at = None\<rparr>)
              (invoke (use_auth Map.empty Guest None ''/example/login'' []) Login
                 (init_state (use_auth Map.empty Guest None ''/example/login'' []))))
     = Some \<lparr>user_email = ''a@b.c'', email_verified_at = None\<rparr>"
proof -
  have "Login = Login \<or> Login = Register" by simp
  then show ?thesis
    using login_accepted_caches_user [where a = Login and ctx = "use_auth Map.empty Guest None ''/example/login'' []"
        and u = "\<lparr>user_email = ''a@b.c'', email_verified_at = None\<rparr>"
        and s = "init_state (use_auth Map.empty Guest None ''/example/login'' [])"]
    by blast
qed

end
