(* ===== verification/Session_Spec.thy ===== *)
theory Session_Spec
  imports Hook
begin

text \<open>
  The specification's taxonomy of replies, as an abstract layer above the hook.
  The spec classifies a reply by its status. For the session fetch, a 2xx reply gives
  the user, a 409 means the email needs verification, and anything else is a fetch
  error. For a form action, a 2xx reply succeeds, a 422 gives validation messages, and
  anything else propagates. \<open>fetch_spec\<close> and \<open>action_spec\<close> give the outcome the spec
  names, and \<open>fetch_apply\<close> and \<open>action_apply\<close> say what each outcome does to the hook's
  state. The refinement theorems say on which replies the code's fetcher and
  \<open>.then/.catch\<close> chain are this composition, and show where they are not.
\<close>

datatype fetch_outcome = FetchUser "user option" | NeedsVerification | FetchFailed js_error

definition fetch_spec :: "reply \<Rightarrow> fetch_outcome" where
  "fetch_spec r =
     (case r of
        Reply st b \<Rightarrow>
          if 200 \<le> st \<and> st < 300 then FetchUser (body_user b)
          else if st = 409 then NeedsVerification
          else FetchFailed (AxiosError (Some (st, b)))
      | NoReply \<Rightarrow> FetchFailed (AxiosError None))"

definition fetch_apply :: "hook_ctx \<Rightarrow> fetch_outcome \<Rightarrow> hook_state \<Rightarrow> hook_state" where
  "fetch_apply ctx oc s =
     (case oc of
        FetchUser d \<Rightarrow> s\<lparr>swr_data := d, swr_error := None\<rparr>
      | NeedsVerification \<Rightarrow>
          (emit (RouterPush (verify_target ctx) None) s)\<lparr>swr_data := None, swr_error := None\<rparr>
      | FetchFailed e \<Rightarrow> s\<lparr>swr_error := Some e\<rparr>)"

datatype action_outcome = Succeeded body | Invalid "js_string list" | Propagated js_error

definition action_spec :: "reply \<Rightarrow> action_outcome" where
  "action_spec r =
     (case r of
        Reply st b \<Rightarrow>
          if 200 \<le> st \<and> st < 300 then Succeeded b
          else if st = 422 then
            (case b of ErrorsBody errs \<Rightarrow> Invalid (validation_messages errs)
                     | _ \<Rightarrow> Propagated (AxiosError (Some (st, b))))
          else Propagated (AxiosError (Some (st, b)))
      | NoReply \<Rightarrow> Propagated (AxiosError None))"

text \<open>
  What the spec has each outcome do. Success revalidates the session after register and
  login, shows the status after forgot-password, and after reset-password navigates to
  the login page with the status.
\<close>

definition action_apply :: "hook_ctx \<Rightarrow> action \<Rightarrow> action_outcome \<Rightarrow> hook_state \<Rightarrow> hook_state" where
  "action_apply ctx a oc s =
     (case oc of
        Succeeded b \<Rightarrow>
          (case a of
             Register \<Rightarrow> mutate ctx s
           | Login \<Rightarrow> mutate ctx s
           | ForgotPassword \<Rightarrow> s\<lparr>form_status := body_status b\<rparr>
           | ResetPassword \<Rightarrow> emit (RouterPush (reset_redirect_url (cfg ctx) b) None) s
           | ResendVerification \<Rightarrow> s\<lparr>form_status := body_status b\<rparr>)
      | Invalid msgs \<Rightarrow> s\<lparr>form_errors := msgs\<rparr>
      | Propagated e \<Rightarrow> emit (Unhandled e) s)"

text \<open>A reply the code's handler reads without throwing: it has a response, and a 422 has an \<open>errors\<close> bag.\<close>

definition handler_readable :: "reply \<Rightarrow> bool" where
  "handler_readable r \<longleftrightarrow>
     (case r of NoReply \<Rightarrow> False
      | Reply st b \<Rightarrow> st = 422 \<longrightarrow> (case b of ErrorsBody errs \<Rightarrow> True | _ \<Rightarrow> False))"

lemma emit_Unhandled_inj: "emit (Unhandled e) s = emit (Unhandled e') s \<longleftrightarrow> e = e'"
  by (auto simp: emit_def dest: arg_cong [where f = effects])

text \<open>
  C33: the session fetcher refines the spec exactly on replies that have a response: for
  those, applying the spec's outcome gives the code's state; for a request without a
  response the code caches a \<open>TypeError\<close> of its own handler instead of the network
  error.
\<close>

theorem user_fetched_refines_spec:
  "user_fetched ctx r s = fetch_apply ctx (fetch_spec r) s \<longleftrightarrow> r \<noteq> NoReply"
  by (cases r) (auto simp: user_fetched_def fetch_apply_def fetch_spec_def axios_result_def
      dest: arg_cong [where f = swr_error])

text \<open>
  C34: the \<open>.then/.catch\<close> chain of \<open>register\<close>, \<open>login\<close>, \<open>forgotPassword\<close> and
  \<open>resetPassword\<close> refines the spec's outcome exactly on the replies its handler can read.
  A request without a response, or a 422 without an \<open>errors\<close> bag, propagates as a
  \<open>TypeError\<close> of the handler, not as the spec's error.
\<close>

theorem post_resolved_refines_spec:
  assumes "a \<noteq> ResendVerification"
  shows "post_resolved ctx a r s = action_apply ctx a (action_spec r) s \<longleftrightarrow> handler_readable r"
proof (cases r)
  case NoReply
  then show ?thesis
    using assms by (simp add: post_resolved_def action_apply_def action_spec_def handler_readable_def
        reject_form_def catch_422_def emit_Unhandled_inj)
next
  case (Reply st b)
  then show ?thesis
    using assms
    by (cases b) (auto simp: post_resolved_def action_apply_def action_spec_def handler_readable_def
        reject_form_def catch_422_def emit_Unhandled_inj axios_result_def split: action.split)
qed

theorem post_resolved_refines_spec_witness:
  "Login \<noteq> ResendVerification
   \<and> (post_resolved (use_auth Map.empty Guest None ''/example/login'' []) Login (Reply 422 NoBody)
        (init_state (use_auth Map.empty Guest None ''/example/login'' []))
      = action_apply (use_auth Map.empty Guest None ''/example/login'' []) Login
          (action_spec (Reply 422 NoBody)) (init_state (use_auth Map.empty Guest None ''/example/login'' []))
      \<longleftrightarrow> handler_readable (Reply 422 NoBody))
   \<and> \<not> handler_readable (Reply 422 NoBody)"
proof -
  have a: "Login \<noteq> ResendVerification" by simp
  have "\<not> handler_readable (Reply 422 NoBody)" by (simp add: handler_readable_def)
  with a post_resolved_refines_spec [OF a, of "use_auth Map.empty Guest None ''/example/login'' []"
      "Reply 422 NoBody" "init_state (use_auth Map.empty Guest None ''/example/login'' [])"]
  show ?thesis by blast
qed

end
