(* ===== verification/Reference.thy ===== *)
theory Reference
  imports Base64 Url
begin

text \<open>
  Reference definitions for two primitives, and the theorems that the executable models
  agree with them. \<open>indexOf\<close> is specified as the least position at which the needle
  starts, or \<open>-1\<close>; the scanning \<open>index_from\<close> of the prelude computes it. The length of
  \<open>btoa\<close> is the padded length \<open>4 * ceil(n / 3)\<close> of the base64 standard.
\<close>

definition index_of_spec :: "js_string \<Rightarrow> js_string \<Rightarrow> int" where
  "index_of_spec h n = (if sublist n h then int (LEAST i. prefix n (drop i h)) else -1)"

lemma sublist_drop_iff: "sublist n h \<longleftrightarrow> (\<exists>i. prefix n (drop i h))"
proof
  assume "sublist n h"
  then obtain a b where "h = a @ n @ b" by (auto simp: sublist_def)
  then have "prefix n (drop (length a) h)" by simp
  then show "\<exists>i. prefix n (drop i h)" ..
next
  assume "\<exists>i. prefix n (drop i h)"
  then obtain i where "prefix n (drop i h)" ..
  then obtain b where "drop i h = n @ b" by (auto simp: prefix_def)
  then have "h = take i h @ n @ b" by (metis append_take_drop_id)
  then show "sublist n h" by (metis sublist_appendI)
qed

lemma index_from_Least:
  "sublist n h \<Longrightarrow> index_from h n k = int (k + (LEAST i. prefix n (drop i h)))"
proof (induction h arbitrary: k)
  case Nil
  then show ?case by simp
next
  case (Cons c h)
  show ?case
  proof (cases "prefix n (c # h)")
    case True
    then have "(LEAST i. prefix n (drop i (c # h))) = 0" by (intro Least_eq_0) simp
    with True show ?thesis by simp
  next
    case False
    then have "sublist n h" using Cons.prems by (auto simp: sublist_Cons_right)
    obtain m where m: "prefix n (drop m h)" using \<open>sublist n h\<close> by (auto simp: sublist_drop_iff)
    have "(LEAST i. prefix n (drop i (c # h))) = Suc (LEAST i. prefix n (drop i h))"
      by (rule Least_Suc2 [where n = "Suc m" and m = m]) (use False m in simp_all)
    with False Cons.IH [OF \<open>sublist n h\<close>] show ?thesis by simp
  qed
qed

lemma index_from_not_found: "\<not> sublist n h \<Longrightarrow> index_from h n k = -1"
  by (induction h arbitrary: k) (auto simp: sublist_Cons_right)

lemma length_b64_encode_exact: "length (b64_encode bs) = 4 * ((length bs + 2) div 3)"
proof (induction bs rule: b64_encode.induct)
  case (1 a b c rest)
  have "(5 + length rest) div 3 = Suc (Suc (Suc (length rest)) div 3)" by presburger
  with 1 show ?case by simp
qed simp_all

text \<open>
  \<open>indexOf\<close> as the model computes it equals its specification, the least
  position at which the needle starts in the haystack, or \<open>-1\<close> when it does not occur.
\<close>

lemma index_of_equiv_spec: "index_of h n = index_of_spec h n"
  using index_from_Least [of n h 0] index_from_not_found [of n h 0]
  by (simp add: index_of_def index_of_spec_def)

text \<open>
  \<open>btoa\<close> of a string of \<open>n\<close> code units has exactly \<open>4 * ceil(n / 3)\<close> characters:
  the reset parameter grows by a third of the status, plus padding.
\<close>

lemma btoa_length: "length (btoa s) = 4 * ((length s + 2) div 3)"
  by (simp add: btoa_def length_b64_encode_exact)

text \<open>
  \<open>indexOf\<close> returns \<open>-1\<close> or a position at which the whole needle fits inside the
  haystack: \<open>0 \<le> i\<close> and \<open>i + length n \<le> length h\<close>.
\<close>

lemma index_of_bounds:
  "index_of h n = -1 \<or> (0 \<le> index_of h n \<and> nat (index_of h n) + length n \<le> length h)"
proof (cases "sublist n h")
  case True
  then obtain m where "prefix n (drop m h)" by (auto simp: sublist_drop_iff)
  then have "prefix n (drop (LEAST i. prefix n (drop i h)) h)" by (rule LeastI)
  then have "length n \<le> length (drop (LEAST i. prefix n (drop i h)) h)" by (rule prefix_length_le)
  moreover have "n = [] \<Longrightarrow> (LEAST i. prefix n (drop i h)) = 0" by (simp add: Least_eq_0)
  ultimately have "(LEAST i. prefix n (drop i h)) + length n \<le> length h"
  proof (cases "n = []")
    case False
    then have "0 < length n" by simp
    with \<open>length n \<le> length (drop (LEAST i. prefix n (drop i h)) h)\<close> show ?thesis
      by (simp only: length_drop)
  qed simp
  then show ?thesis using index_from_Least [OF True, of 0] by (simp add: index_of_def)
next
  case False
  then show ?thesis by (simp add: index_of_def index_from_not_found)
qed

end
