(* ===== verification/Code_Units.thy ===== *)
theory Code_Units
  imports Hook
begin

text \<open>
  JavaScript strings are sequences of UTF-16 code units; the rest of the development
  reads them as 8-bit characters. This theory takes the two browser functions whose
  behaviour depends on the wider range, \<open>btoa\<close> and \<open>encodeURIComponent\<close>, on code-unit
  lists (\<open>nat list\<close>, each unit below \<open>2^16\<close>). \<open>btoa\<close> throws \<open>InvalidCharacterError\<close>
  for a unit above \<open>U+00FF\<close>. \<open>encodeURIComponent\<close> encodes a code point as UTF-8
  (surrogate pairs as one four-byte code point) and throws \<open>URIError\<close> for a lone
  surrogate. The 8-bit models \<open>btoa\<close> and \<open>encodeURIComponent\<close> are their restrictions to
  units below 256. The reset redirect of \<open>resetPassword\<close> is taken on code units, which
  shows its error path.
\<close>

type_synonym code_units = "nat list"

definition units_of :: "js_string \<Rightarrow> code_units" where
  "units_of s = map of_char s"

definition latin1 :: "code_units \<Rightarrow> bool" where
  "latin1 us \<longleftrightarrow> list_all (\<lambda>u. u < 256) us"

text \<open>\<open>btoa(data)\<close>: every code unit must be at most \<open>U+00FF\<close>; its bytes are encoded.\<close>

definition btoa_units :: "code_units \<Rightarrow> dom_error + js_string" where
  "btoa_units us = (if latin1 us then Inr (b64_encode us) else Inl InvalidCharacterError)"

datatype uri_error = URIError

text \<open>The UTF-8 bytes of a code point.\<close>

definition utf8_bytes :: "nat \<Rightarrow> nat list" where
  "utf8_bytes cp =
     (if cp < 128 then [cp]
      else if cp < 2048 then [192 + cp div 64, 128 + cp mod 64]
      else if cp < 65536 then [224 + cp div 4096, 128 + cp div 64 mod 64, 128 + cp mod 64]
      else [240 + cp div 262144, 128 + cp div 4096 mod 64, 128 + cp div 64 mod 64, 128 + cp mod 64])"

definition pct_bytes :: "nat list \<Rightarrow> js_string" where
  "pct_bytes bs = concat (map pct_byte bs)"

definition high_surrogate :: "nat \<Rightarrow> bool" where
  "high_surrogate u \<longleftrightarrow> 55296 \<le> u \<and> u \<le> 56319"

definition low_surrogate :: "nat \<Rightarrow> bool" where
  "low_surrogate u \<longleftrightarrow> 56320 \<le> u \<and> u \<le> 57343"

text \<open>
  \<open>encodeURIComponent\<close> (ECMAScript \<open>Encode\<close>): an unreserved ASCII unit is kept; a low
  surrogate, or a high surrogate not followed by a low one, throws; a surrogate pair is
  one code point; any other unit is its own code point.
\<close>

fun encode_units :: "code_units \<Rightarrow> uri_error + js_string" where
  "encode_units [] = Inr []"
| "encode_units (c # cs) =
     (if c < 128 \<and> uri_unreserved (char_of c) then map_sum id (Cons (char_of c)) (encode_units cs)
      else if low_surrogate c then Inl URIError
      else if high_surrogate c then
        (case cs of
           d # ds \<Rightarrow>
             if low_surrogate d
             then map_sum id ((@) (pct_bytes (utf8_bytes ((c - 55296) * 1024 + (d - 56320) + 65536))))
                    (encode_units ds)
             else Inl URIError
         | [] \<Rightarrow> Inl URIError)
      else map_sum id ((@) (pct_bytes (utf8_bytes c))) (encode_units cs))"

text \<open>
  \<open>loginUrl + '?reset=' + btoa(response.data.status)\<close> on the status's code units: the
  value the success handler of \<open>resetPassword\<close> pushes, or the error it throws first.
\<close>

definition reset_redirect_units :: "auth_config \<Rightarrow> code_units \<Rightarrow> dom_error + url" where
  "reset_redirect_units c us = map_sum id (\<lambda>b. loginUrl c @ ''?reset='' @ b) (btoa_units us)"

text \<open>
  The success handler of \<open>resetPassword\<close> (lines 107--110) on code units. When \<open>btoa\<close>
  throws, the promise of \<open>.then\<close> rejects with a \<open>DOMException\<close>, which has no
  \<open>response\<close>: the \<open>.catch\<close> handler's \<open>error.response.status\<close> throws a
  \<open>TypeError\<close>, which nothing catches.
\<close>

definition reset_resolved_units :: "hook_ctx \<Rightarrow> code_units \<Rightarrow> hook_state \<Rightarrow> hook_state" where
  "reset_resolved_units ctx us s =
     (case reset_redirect_units (cfg ctx) us of
        Inr u \<Rightarrow> emit (RouterPush u None) s
      | Inl _ \<Rightarrow> emit (Unhandled TypeError) s)"

lemma latin1_units_of [simp]: "latin1 (units_of s)"
  by (simp add: latin1_def units_of_def list_all_iff)

lemma units_of_char_of: "latin1 us \<Longrightarrow> units_of (map char_of us) = us"
  by (induction us) (simp_all add: latin1_def units_of_def take_bit_nat_eq_self)

lemma char_of_units_of: "map char_of (units_of s) = s"
  by (induction s) (simp_all add: units_of_def)

text \<open>\<open>btoa\<close> of the model is \<open>btoa_units\<close> on the units of an 8-bit string.\<close>

lemma btoa_units_of: "btoa_units (units_of s) = Inr (btoa s)"
  by (simp add: btoa_units_def btoa_def units_of_def latin1_def list_all_iff)

lemma utf8_bytes_unit: "n < 256 \<Longrightarrow> utf8_bytes n = utf8_unit n"
  by (simp add: utf8_bytes_def utf8_unit_def)

text \<open>\<open>encodeURIComponent\<close> of the model is \<open>encode_units\<close> on the units of an 8-bit string.\<close>

lemma encode_units_of: "encode_units (units_of s) = Inr (encodeURIComponent s)"
proof (induction s)
  case Nil
  then show ?case by (simp add: units_of_def encodeURIComponent_def)
next
  case (Cons c s)
  have lt: "(of_char c :: nat) < 256" by simp
  then have ns: "\<not> low_surrogate (of_char c)" "\<not> high_surrogate (of_char c)"
    unfolding low_surrogate_def high_surrogate_def by linarith+
  have "uri_unreserved c \<Longrightarrow> (of_char c :: nat) < 128"
    by (auto simp: uri_unreserved_def Let_def)
  with Cons ns lt show ?case
    by (auto simp: units_of_def encodeURIComponent_def enc_char_def pct_bytes_def utf8_bytes_unit)
qed

lemma reset_redirect_units_latin1:
  "reset_redirect_units c us =
     (if latin1 us then Inr (reset_redirect_url c (StatusBody (map char_of us)))
      else Inl InvalidCharacterError)"
proof (cases "latin1 us")
  case True
  then have "btoa (map char_of us) = b64_encode us"
    using units_of_char_of [OF True] by (simp add: btoa_def units_of_def)
  with True show ?thesis
    by (simp add: reset_redirect_units_def btoa_units_def reset_redirect_url_def)
next
  case False
  then show ?thesis by (simp add: reset_redirect_units_def btoa_units_def)
qed

text \<open>
  C26: a successful reset-password reply whose status is given as code units. When every
  unit is at most \<open>U+00FF\<close> the handler does what the 8-bit hook model does with that
  status: it pushes the login URL with the base64 of the status. A status with any wider
  character (a non-Latin-1 message of the back end) makes \<open>btoa\<close> throw, the
  \<open>.catch\<close> handler throws a \<open>TypeError\<close> reading \<open>error.response.status\<close>, and
  there is no navigation.
\<close>

theorem reset_resolved_units_throws:
  "reset_resolved_units ctx us s =
     (if latin1 us then post_resolved ctx ResetPassword (Reply 200 (StatusBody (map char_of us))) s
      else emit (Unhandled TypeError) s)"
  by (simp add: reset_resolved_units_def reset_redirect_units_latin1 post_resolved_def)

theorem reset_resolved_units_throws_witness:
  "reset_resolved_units (use_auth Map.empty Guest None ''/example/reset'' [])
     [1055, 1072, 1088, 1086, 1083, 1100] (init_state (use_auth Map.empty Guest None ''/example/reset'' []))
   = emit (Unhandled TypeError) (init_state (use_auth Map.empty Guest None ''/example/reset'' []))
   \<and> reset_resolved_units (use_auth Map.empty Guest None ''/example/reset'' [])
     (units_of ''ok'') (init_state (use_auth Map.empty Guest None ''/example/reset'' []))
   = post_resolved (use_auth Map.empty Guest None ''/example/reset'' []) ResetPassword
       (Reply 200 (StatusBody ''ok'')) (init_state (use_auth Map.empty Guest None ''/example/reset'' []))"
proof -
  have "\<not> latin1 [1055, 1072, 1088, 1086, 1083, 1100]" by (simp add: latin1_def)
  moreover have "map char_of (units_of ''ok'') = ''ok''" by (simp add: char_of_units_of)
  ultimately show ?thesis
    using reset_resolved_units_throws [of "use_auth Map.empty Guest None ''/example/reset'' []"
        "[1055, 1072, 1088, 1086, 1083, 1100]" "init_state (use_auth Map.empty Guest None ''/example/reset'' [])"]
      reset_resolved_units_throws [of "use_auth Map.empty Guest None ''/example/reset'' []"
        "units_of ''ok''" "init_state (use_auth Map.empty Guest None ''/example/reset'' [])"]
    by simp
qed

end
