(* ===== verification/Spec2Isabelle.thy ===== *)
theory Spec2Isabelle
  imports Query Api Quiescence Session_Spec Reference Code_Units
begin

text \<open>
  \<^bold>\<open>The authentication layer of windmill-nextjs-laravel-breeze.\<close>

  The program is a Next.js front end for a Laravel Breeze API. Its logic is the hook
  \<open>useAuth\<close> (\<open>src/hooks/auth.ts\<close>). The hook reads its endpoints from the environment.
  It fetches the session user through SWR from \<open>/api/user\<close> with the axios instance of
  \<open>src/lib/api.ts\<close>. It offers the actions \<open>register\<close>, \<open>login\<close>, \<open>forgotPassword\<close>,
  \<open>resetPassword\<close>, \<open>resendEmailVerification\<close> and \<open>logout\<close>. An effect sends a signed-in
  visitor of a guest page away, and a visitor of an auth page whose session fetch failed
  to the login page. The pages (\<open>src/pages/example/*.tsx\<close>, \<open>src/example/*\<close>) call the
  hook and render its state.

  \<^bold>\<open>Theories.\<close>
  \<^item> \<open>Prelude\<close>: the JavaScript primitives the code relies on: \<open>||\<close> on environment
    variables, truthiness, \<open>Array.join\<close>, \<open>String.indexOf\<close> (\<open>index_of\<close>, with its
    characterisation by \<open>sublist\<close> and \<open>prefix\<close>).
  \<^item> \<open>Config\<close>: the configuration block of \<open>useAuth\<close> (\<open>auth.ts\<close> lines 20--36), with
    each field read from the variable the code names, and the CSRF URL of \<open>api.ts\<close>.
  \<^item> \<open>Url\<close>: \<open>encodeURIComponent\<close> (UTF-8 for code units from 128) and the
    \<open>querystring\<close> \<open>stringify\<close> used by \<open>logout\<close>.
  \<^item> \<open>Redirect\<close>: the URLs the hook navigates to: \<open>loggedRedirectUrl\<close> (the guest
    redirect with its \<open>logged=1\<close> marker) and the login URL of \<open>logout\<close> with its
    \<open>next_to\<close> parameter.
  \<^item> \<open>Base64\<close>: \<open>btoa\<close> and the forgiving-base64 \<open>atob\<close>, with their round trip.
  \<^item> \<open>Http\<close>: axios replies and rejections, \<open>Object.values(...).flat()\<close> with the key
    order of a JavaScript object, and the 422 handler the form actions share.
  \<^item> \<open>Hook\<close>: the hook as a state machine. The state (\<open>hook_state\<close>) is SWR's cache
    (\<open>data\<close>, \<open>error\<close>), the \<open>loading\<close> flag, the page's \<open>errors\<close> and \<open>status\<close> written
    through \<open>setErrors\<close>/\<open>setStatus\<close>, the requests in flight (each with the
    continuation the code runs when it settles), and the list of effects on the outside
    world (requests sent, router pushes, location assignments, unhandled rejections).
    An event (\<open>event\<close>) is an action called, the effect run, or the \<open>i\<close>-th pending
    request settling with a reply. \<open>hook_step\<close> is one event and \<open>hook_run\<close> a sequence
    of them; \<open>reachable\<close> is the inductive set of states. Each operation is one
    definition: \<open>user_fetched\<close> (the fetcher, lines 41--50), \<open>invoke\<close>,
    \<open>csrf_resumed\<close> and \<open>post_resolved\<close> (the actions, lines 52--121), \<open>logout\<close> and
    \<open>logout_resumed\<close> (lines 123--138), \<open>auth_effect\<close> (lines 140--153).
  \<^item> \<open>Pages\<close>: login, forgot-password and verify-email pages, the dashboard layout, and
    the cards and modals pages rendered inside it, with the CTA banner. A page's state is
    a record holding the hook's state and the page's own \<open>useState\<close> fields. Effects and
    handlers are functions on it, and a render is a function to a datatype of what is on
    screen.
  \<^item> \<open>Api\<close>: the axios instance of \<open>src/lib/api.ts\<close> and the URL a request goes to
    (axios \<open>buildFullPath\<close>, \<open>combineURLs\<close>, \<open>isAbsoluteURL\<close>), including \<open>csrf()\<close>.
  \<^item> \<open>Query\<close>: Next's \<open>router.query\<close> of a pushed URL (WHATWG form-urlencoded parsing,
    \<open>searchParamsToUrlQuery\<close>). It lets the URLs the hook pushes be followed to the
    page that reads them. It also builds the login page's hook context from
    \<open>query.next_to\<close> (\<open>login_ctx\<close>).
  \<^item> \<open>Queue\<close> and \<open>Quiescence\<close>: the pending promises against the requests sent, a
    weight on continuations that every settlement lowers, and \<open>drain\<close>, the environment
    that answers the oldest promise until none is left (a \<open>function\<close> whose termination
    is that weight).
  \<^item> \<open>Session_Spec\<close>: the spec's taxonomy of replies (fetch: user, needs verification,
    fetch error; actions: success, validation messages, propagated error) as an abstract
    layer, with the refinement theorems for the fetcher and the actions.
  \<^item> \<open>Reference\<close>: reference definitions (\<open>indexOf\<close> as a least index) and the bounds
    of \<open>btoa\<close> and \<open>indexOf\<close>.
  \<^item> \<open>Code_Units\<close>: \<open>btoa\<close> and \<open>encodeURIComponent\<close> on UTF-16 code units, with
    their errors (\<open>InvalidCharacterError\<close> above \<open>U+00FF\<close>, \<open>URIError\<close> on a lone
    surrogate), the proof that the 8-bit models are their restrictions
    (\<open>btoa_units_of\<close>, \<open>encode_units_of\<close>), and the success handler of
    \<open>resetPassword\<close> (lines 107--110) on a status given as code units.

  \<^bold>\<open>What is proved.\<close>
  \<^item> Single operations, on every branch: the 422 path, the other rejections, the CSRF
    failure, the logout failure, the reset redirect, the login revalidation, the 409
    redirect (\<open>Hook\<close>).
  \<^item> Invariants over all reachable states, by rule induction on \<open>reachable\<close>:
    \<^item> every effect is in the contract set \<open>allowed_effects\<close>;
    \<^item> every full-page navigation goes to the login page;
    \<^item> the cached fetch error is never a 409.
  \<^item> Round trips: \<open>atob (btoa s) = Inr s\<close>, and the reset status through the login
    page's effect.
  \<^item> Idempotence of the \<open>logged=1\<close> marker, and what happens to a marker at position 0
    (\<open>indexOf > 0\<close>).
  \<^item> Configuration facts that show two variables read from the wrong name.
  \<^item> What each page shows after a reply.
  \<^item> Across components (here): an unverified user on the verify-email page reaches the
    verification panel.
  \<^item> Where requests go: API paths and the CSRF cookie share the backend origin for an
    absolute base URL, and a relative base is applied twice to \<open>csrf()\<close> (\<open>Api\<close>).
  \<^item> The request queue: an invariant that every pending promise has its own sent
    request (a multiset inclusion), termination of settlement runs (\<open>settles_bounded\<close>)
    and liveness (\<open>drain_quiescent\<close>).
  \<^item> Refinement: the fetcher and the action handlers equal the spec's taxonomy applied
    to the state exactly on the replies their handlers can read (\<open>Session_Spec\<close>).
  \<^item> Equivalence of \<open>index_of\<close> with its least-index specification; exact length of
    \<open>btoa\<close>; range of \<open>indexOf\<close> (\<open>Reference\<close>).
  \<^item> URL round trips to the login page (\<open>Query\<close>):
    \<^item> the reset status, intact unless its base64 has a \<open>+\<close>, which arrives as a space;
    \<^item> the return target, from the logout URL through the login page's hook to the
      redirect after login.
  \<^item> The error path of \<open>resetPassword\<close> on code units: a status with a character
    above \<open>U+00FF\<close> ends in an unhandled \<open>TypeError\<close> and no navigation; a Latin-1
    status does what the 8-bit hook does (\<open>Code_Units\<close>).
  \<^item> The type of \<open>query.next_to\<close>: a string exactly when the URL has at most one
    \<open>next_to\<close> parameter (\<open>Query\<close>).

  \<^bold>\<open>Choices of the model.\<close>
  \<^item> The hook works on lists of 8-bit characters. JavaScript strings are UTF-16 code
    units; \<open>Code_Units\<close> shows that the two library functions whose result depends on
    the wider range agree with the 8-bit models below 256, and models what they do above
    it where the hook calls them on data from the back end (the reset status).
  \<^item> Replies arrive in any order, any number of times an event list says. The effect
    may run after any event: React runs it after a render in which \<open>user\<close> or
    \<open>error\<close> changed, and running it more often only over-approximates.
  \<^item> SWR's request deduplication, focus revalidation and retry are not modelled: a
    refetch is one more pending request.
  \<^item> React batches a handler's state updates, so \<open>setSubmitting(true)\<close> followed by
    \<open>setSubmitting(false)\<close> with an un-awaited action in between leaves \<open>false\<close>.
  \<^item> No loop of the program can run forever, so no fuel is needed.
    \<^item> \<open>b64_encode\<close>/\<open>b64_decode\<close>, \<open>index_from\<close>, \<open>js_split\<close> and
      \<open>percent_decode\<close> recurse structurally.
    \<^item> \<open>hook_run\<close> recurses on the event list.
    \<^item> A step that names no pending request is \<open>None\<close>.
    \<^item> \<open>drain\<close> terminates by the queue weight (\<open>Quiescence\<close>).
  \<^item> Percent-decoded bytes are read as 8-bit characters, so the URL theorems assume ASCII
    text where a browser would decode UTF-8.

  \<^bold>\<open>Not modelled.\<close>
  \<^item> The markup, icons and styling of the pages, and the input fields' \<open>onChange\<close>
    handlers (they only copy the typed text into state).
  \<^item> The register and reset-password pages and the Laravel back end are not in the
    repository's sources.
  \<^item> The login page's hook with an array \<open>next_to\<close> (a repeated parameter): the hook
    then runs string operations on an array, which the string model does not represent
    (\<open>login_ctx\<close> is \<open>None\<close>).
  \<^item> Code units above 255 in the hook's other strings (paths, queries, messages): the hook
    only copies or compares them, and the URL parser decodes percent-encoded bytes as 8-bit
    characters rather than UTF-8.
  \<^item> axios, SWR and React themselves are modelled only by the behaviour the code relies on.
\<close>

subsection \<open>Properties across components\<close>

text \<open>
  C27: a signed-in user whose email is not verified gets a 409 from \<open>/api/user\<close>. On the
  verify-email page that reply pushes the router to the verify-email page itself, and once
  the effect has run the page shows the verification panel with no error, no notice and
  the resend button enabled. The condition is that \<open>redirectedUrl\<close> does not mention
  \<open>verify-email\<close>.
\<close>

theorem unverified_user_sees_panel:
  assumes "\<not> sublist ''verify-email'' (redirectedUrl (useAuth_config env))"
  shows "\<exists>t. hook_run (use_auth env Auth None path q) [Settle 0 (Reply 409 b), Effect]
                 (init_state (use_auth env Auth None path q)) = Some t
           \<and> effects t = [Request GET (apiPathUser (useAuth_config env)),
                          RouterPush (verifyEmailUrl (useAuth_config env)) None]
           \<and> verify_render \<lparr>vp_hook = t, vp_submitting = False\<rparr> = VerifyPanel None False False"
  using assms
  by (simp add: init_state_def settle_def resume_def user_fetched_def verify_target_def
      index_of_neg_iff use_auth_def redirect_if_authenticated_url_def emit_def auth_effect_def
      verify_render_def error_banner_def)

theorem unverified_user_sees_panel_witness:
  "\<exists>t. hook_run (use_auth Map.empty Auth None ''/example/verify-email'' []) [Settle 0 (Reply 409 NoBody), Effect]
                 (init_state (use_auth Map.empty Auth None ''/example/verify-email'' [])) = Some t
           \<and> effects t = [Request GET ''/api/user'', RouterPush ''/example/verify-email'' None]
           \<and> verify_render \<lparr>vp_hook = t, vp_submitting = False\<rparr> = VerifyPanel None False False"
proof -
  have h: "\<not> sublist ''verify-email'' (redirectedUrl (useAuth_config Map.empty))"
    by (simp add: useAuth_config_def sublist_code)
  show ?thesis
    using unverified_user_sees_panel [OF h, of "''/example/verify-email''" "[]" NoBody]
    by (simp add: useAuth_config_def)
qed

end
